theory Spec2Isabelle
  imports Main "HOL-Library.Char_ord" "HOL-Library.List_Lexorder"
begin

section \<open>Python strings\<close>

text \<open>
  A Python \<open>str\<close> is modelled as a \<open>string\<close>, one \<open>char\<close> per code point
  (code points below 256). Comparison of strings is Python's: lexicographic on
  code points, which is the order of \<open>Char_ord\<close> and \<open>List_Lexorder\<close>.
\<close>

definition py_whitespace :: "char \<Rightarrow> bool" where
  \<comment> \<open>the characters \<open>str.isspace\<close> accepts, which \<open>str.strip\<close> and \<open>str.rstrip\<close> remove\<close>
  "py_whitespace c =
     (let n = (of_char c :: nat)
      in (9 \<le> n \<and> n \<le> 13) \<or> (28 \<le> n \<and> n \<le> 32) \<or> n = 133 \<or> n = 160)"

definition lstrip :: "string \<Rightarrow> string" where
  "lstrip s = dropWhile py_whitespace s"

definition rstrip :: "string \<Rightarrow> string" where
  "rstrip s = rev (dropWhile py_whitespace (rev s))"

definition strip :: "string \<Rightarrow> string" where
  "strip s = rstrip (lstrip s)"

fun split_on :: "char \<Rightarrow> string \<Rightarrow> string list" where
  \<comment> \<open>\<open>s.split(c)\<close> for a one-character separator: never empty, \<open>''.split(',') == ['']\<close>\<close>
  "split_on c [] = [[]]"
| "split_on c (x # xs) =
     (if x = c then [] # split_on c xs
      else (case split_on c xs of
              [] \<Rightarrow> [[x]]
            | y # ys \<Rightarrow> (x # y) # ys))"

fun join :: "string \<Rightarrow> string list \<Rightarrow> string" where
  \<comment> \<open>\<open>sep.join(xs)\<close>\<close>
  "join sep [] = []"
| "join sep [x] = x"
| "join sep (x # y # ys) = x @ sep @ join sep (y # ys)"

definition partition_head :: "char \<Rightarrow> string \<Rightarrow> string" where
  \<comment> \<open>\<open>s.partition(c)[0]\<close>: the part before the first \<open>c\<close>, all of \<open>s\<close> when there is none\<close>
  "partition_head c s = takeWhile (\<lambda>x. x \<noteq> c) s"

definition ljust :: "nat \<Rightarrow> string \<Rightarrow> string" where
  \<comment> \<open>the format specification \<open>:<{n}\<close>: left-aligned, filled with spaces to width \<open>n\<close>\<close>
  "ljust n s = s @ replicate (n - length s) (CHR '' '')"


definition carriage_return :: char where
  "carriage_return = CHR 0x0D"

fun universal_newlines :: "string \<Rightarrow> string" where
  \<comment> \<open>what a file opened for reading in text mode, without \<open>newline=''\<close>, makes of the line ends\<close>
  "universal_newlines [] = []"
| "universal_newlines [x] = [if x = CHR 0x0D then CHR 0x0A else x]"
| "universal_newlines (x # y # rest) =
     (if x = CHR 0x0D \<and> y = CHR 0x0A then CHR 0x0A # universal_newlines rest
      else if x = CHR 0x0D then CHR 0x0A # universal_newlines (y # rest)
      else x # universal_newlines (y # rest))"


section \<open>Messages\<close>

definition CAT_EMPTY :: string where "CAT_EMPTY = ''No snippets in selected category.''"
definition CAT_INVALID :: string where "CAT_INVALID = ''Unsupported category: ''"
definition CSV_EMPTY :: string where "CSV_EMPTY = ''Category already empty:''"
definition CSV_MISSING :: string where "CSV_MISSING = ''Missing CSV file:''"
definition DESC_REQ :: string where "DESC_REQ = ''Snippet description is mandatory.''"
definition FILE_MISSING :: string where "FILE_MISSING = ''File not found:''"
definition HOU_MISSING :: string where
  "HOU_MISSING = ''Module \"hou\" not found.'' @ [CHR 0x0A] @ ''This function must be run from Houdini.''"
definition MKDIR :: string where "MKDIR = ''Creating directory:''"
definition PREFIX_INVALID :: string where "PREFIX_INVALID = ''Supplied prefix is invalid:''"
definition SEL_EMPTY :: string where "SEL_EMPTY = ''Empty selection.''"
definition SEL_TIP :: string where "SEL_TIP = ''Select at least one network item.''"
definition SNIPPET_ADDED :: string where "SNIPPET_ADDED = ''Snippet added to repository.''"
definition SNIPPET_DELETED :: string where "SNIPPET_DELETED = ''Snippet removed from repository:''"
definition SNIPPET_FETCHED :: string where
  "SNIPPET_FETCHED = ''snippet fetched and is ready for pasting.''"
definition SOURCE_MISSING :: string where
  "SOURCE_MISSING = ''Source path not found. Nothing was exported.''"
definition TOUCH :: string where "TOUCH = ''Creating file:''"


section \<open>Category registry (config.py)\<close>

definition PREFIXES :: "(string \<times> string option) list" where
  \<comment> \<open>the dictionary \<open>PREFIXES\<close>, in its order; \<open>None\<close> is Python's \<open>None\<close>\<close>
  "PREFIXES =
     [(''Chop'', Some ''CHOP''),
      (''ChopNet'', Some ''CHOPNET''),
      (''Cop2'', Some ''COP2''),
      (''CopNet'', Some ''IMG''),
      (''Director'', None),
      (''Dop'', Some ''DOP''),
      (''Driver'', Some ''ROP''),
      (''Lop'', Some ''LOP''),
      (''Manager'', None),
      (''Object'', Some ''OBJ''),
      (''Shop'', Some ''SHOP''),
      (''Sop'', Some ''SOP''),
      (''Top'', Some ''TOP''),
      (''TopNet'', Some ''TOPNET''),
      (''Vop'', Some ''VOP''),
      (''VopNet'', None)]"

definition CATEGORIES :: "string list" where
  "CATEGORIES = map fst PREFIXES"

definition LANGUAGES :: "string list" where
  "LANGUAGES = [''HScript'', ''Python'', ''VEX'']"

definition PREFIXES_values :: "string option list" where
  \<comment> \<open>\<open>PREFIXES.values()\<close>\<close>
  "PREFIXES_values = map snd PREFIXES"

definition PREFIXES_get :: "string \<Rightarrow> string option option" where
  \<comment> \<open>\<open>PREFIXES[category]\<close>; the outer \<open>None\<close> is Python's \<open>KeyError\<close>\<close>
  "PREFIXES_get category = map_of PREFIXES category"

text \<open>
  The values \<open>Config.__init__\<close> reads from the configuration file that the model
  uses: the repository path (only ever printed in messages), and the two display
  lengths, taken to be natural numbers (128 and 32 by default).
\<close>

record config =
  repo :: string
  max_desc_len :: nat
  max_tags_len :: nat


section \<open>Snippets (snippets.py)\<close>

datatype error =
    ValueError string
  | FileNotFoundError
  | IndexError
  | KeyError
  | AttributeError
  | CalledProcessError
  | ModuleNotFoundError
  | TypeCategoryNotFoundError string
  | BadGzipFile
  | EOFError

datatype snippet_class = OpSnippet | CodeSnippet

record snippet =
  oid :: nat
  cls :: snippet_class
  description :: string
  tags :: "string list"
  category :: string
  prefix :: string
  uuid :: string

definition set_description :: "string \<Rightarrow> error + string" where
  "set_description d = (if d = [] then Inl (ValueError DESC_REQ) else Inr d)"

definition set_tags :: "string \<Rightarrow> string list" where
  \<comment> \<open>\<open>sorted([tag.strip() for tag in tags.split(',')])\<close>\<close>
  "set_tags t = sort (map strip (split_on (CHR '','') t))"

definition set_category :: "snippet_class \<Rightarrow> string \<Rightarrow> error + string" where
  "set_category k c =
     (case k of
        OpSnippet \<Rightarrow>
          (if c = [] \<or> c \<notin> set CATEGORIES
           then Inl (ValueError ''Empty or unknown snippet category.'') else Inr c)
      | CodeSnippet \<Rightarrow>
          (if c = [] \<or> c \<notin> set LANGUAGES
           then Inl (ValueError ''Empty or unknown language.'') else Inr c))"

definition set_prefix :: "string option \<Rightarrow> error + string" where
  "set_prefix p =
     (if p \<notin> set PREFIXES_values \<and> p \<noteq> None
      then Inl (ValueError (PREFIX_INVALID @ '' \"'' @ the p @ ''\".''))
      else (case p of None \<Rightarrow> Inr [] | Some s \<Rightarrow> Inr s))"

definition new_snippet ::
  "snippet_class \<Rightarrow> nat \<Rightarrow> string \<Rightarrow> string \<Rightarrow> string \<Rightarrow> string option \<Rightarrow> string
     \<Rightarrow> error + snippet" where
  \<comment> \<open>\<open>Snippet.__init__\<close>: the setters in the order of the assignments;
      \<open>CodeSnippet.__init__\<close> replaces the prefix by \<open>None\<close> first\<close>
  "new_snippet k i d t c p u =
     (case set_description d of
        Inl e \<Rightarrow> Inl e
      | Inr d' \<Rightarrow>
     (case set_category k c of
        Inl e \<Rightarrow> Inl e
      | Inr c' \<Rightarrow>
     (case set_prefix (case k of OpSnippet \<Rightarrow> p | CodeSnippet \<Rightarrow> None) of
        Inl e \<Rightarrow> Inl e
      | Inr p' \<Rightarrow>
          Inr \<lparr>oid = i, cls = k, description = d', tags = set_tags t, category = c',
               prefix = p', uuid = u\<rparr>)))"

definition str_snippet :: "config \<Rightarrow> snippet \<Rightarrow> string" where
  \<comment> \<open>\<open>Snippet.__str__\<close>\<close>
  "str_snippet cfg s =
     (let desc_len = max_desc_len cfg;
          desc = description s;
          tags_joined = join '','' (tags s);
          space = desc_len + 2
      in ljust space (take desc_len desc) @ ''|'' @ tags_joined)"

fun get_by_description :: "snippet list \<Rightarrow> string \<Rightarrow> snippet option" where
  \<comment> \<open>\<open>Snippet.get_by_description\<close> on the list of instances\<close>
  "get_by_description [] d = None"
| "get_by_description (instance # rest) d =
     (if description instance = d then Some instance else get_by_description rest d)"


section \<open>The world outside the program\<close>

text \<open>
  The files are addressed the way the program builds their paths:
  \<open>{repo}/{category}.csv\<close> by the category, \<open>{repo}/{category}/{uuid}\<close> by the
  category and the identifier, \<open>/dev/shm/houclip_{hex}.csv\<close> by the hexadecimal
  token, a file of \<open>$HOUDINI_TEMP\<close> by its name. An index file holds the list of
  rows that \<open>csv.reader\<close> decodes from it; an empty file is the empty list.
  Of the modules \<open>csv\<close> and \<open>gzip\<close> the model takes that \<open>csv.writer\<close>
  followed by \<open>csv.reader\<close> gives back a row whose fields have no carriage return,
  and that reading a gzip stream gives back the bytes written to it. A row with a
  carriage return in the description or the tags is written as it is (the index is
  opened with \<open>newline=''\<close> for appending) and read back with the line ends
  translated (the index is opened without it for reading): what the reader then
  decodes, a changed field or two rows, is left to the environment. The other fields
  are a category and a prefix of the registry and the hexadecimal token of
  \<open>uuid1()\<close>.
  A content file is the gzip stream of some bytes, a gzip stream cut short, or bytes
  stored verbatim. The directory \<open>$HOUDINI_TEMP\<close> need not exist: nothing in the
  program creates it.
\<close>

type_synonym row = "string list"

datatype file_bytes =
    Gzip string  \<comment> \<open>the gzip stream of the bytes\<close>
  | Truncated string  \<comment> \<open>a gzip stream cut short, which gives the bytes and then ends\<close>
  | Verbatim string  \<comment> \<open>the bytes themselves, no gzip stream\<close>

record env =
  hou_present :: bool  \<comment> \<open>does \<open>import hou\<close> succeed\<close>
  HOUDINI_TEMP :: string  \<comment> \<open>\<open>Config.houdini_temp()\<close>\<close>
  notify_rc :: "string \<Rightarrow> int"  \<comment> \<open>exit status of the shell on a \<open>notify-send\<close> command line\<close>
  xclip_rc :: "string \<times> string \<Rightarrow> int"  \<comment> \<open>exit status of \<open>xclip\<close> reading a content file\<close>
  csv_read_back :: "row \<Rightarrow> row list"
    \<comment> \<open>what the reader decodes from a row written with a carriage return in it\<close>

record world =
  category_dirs :: "string set"
  index_files :: "string \<rightharpoonup> row list"
  content_files :: "string \<times> string \<rightharpoonup> file_bytes"
  shm_files :: "string \<rightharpoonup> row list"
  houdini_temp_dir :: bool  \<comment> \<open>does the directory \<open>$HOUDINI_TEMP\<close> exist\<close>
  houdini_temp :: "string \<rightharpoonup> string"  \<comment> \<open>its files, when it exists\<close>
  clipboard :: "file_bytes option"
  instances :: "snippet list"  \<comment> \<open>\<open>Snippet.__instances\<close>\<close>
  next_oid :: nat  \<comment> \<open>identity of the next object created\<close>
  stdout :: "string list"
  status_msgs :: "(string \<times> nat) list"
  shell_log :: "string list"

type_synonym 'a outcome = "(error + 'a) \<times> world"

definition index_path :: "config \<Rightarrow> string \<Rightarrow> string" where
  "index_path cfg c = repo cfg @ ''/'' @ c @ ''.csv''"

definition dir_path :: "config \<Rightarrow> string \<Rightarrow> string" where
  "dir_path cfg c = repo cfg @ ''/'' @ c"

definition content_path :: "config \<Rightarrow> string \<Rightarrow> string \<Rightarrow> string" where
  "content_path cfg c u = repo cfg @ ''/'' @ c @ ''/'' @ u"

definition cpio_name :: "string \<Rightarrow> string" where
  "cpio_name p = p @ ''_copy.cpio''"

definition cpio_path :: "env \<Rightarrow> string \<Rightarrow> string" where
  "cpio_path E p = HOUDINI_TEMP E @ ''/'' @ cpio_name p"

definition houdini_temp_file :: "world \<Rightarrow> string \<Rightarrow> string option" where
  \<comment> \<open>the bytes of a file of \<open>$HOUDINI_TEMP\<close>, \<open>None\<close> when the path does not exist\<close>
  "houdini_temp_file w name = (if houdini_temp_dir w then houdini_temp w name else None)"


section \<open>Broadcasting (broadcast.py)\<close>

text \<open>
  \<open>Broadcast.notify_send\<close> hands its command line to the shell (\<open>shell=True\<close>), the
  message between double quotes. The model records the command line and takes the exit
  status of the shell from the environment, as a function of the whole command line:
  with \<open>check=True\<close> the status alone decides between returning and
  \<open>CalledProcessError\<close>. What else the shell does with a message in which \<open>$\<close>, a
  backquote, a double quote or a backslash occurs is outside the model, which therefore
  says nothing of such messages beyond the outcome. The messages of \<open>snippets.py\<close> are
  the constants of \<open>messages.py\<close>, alone or with a path of the repository, a category
  name, the language chosen in the menu (\<open>add_code_snippet\<close>) or the description of
  the deleted snippet (\<open>del_snippet\<close>).
\<close>

definition severity_names :: "string list" where
  "severity_names = ['''', ''Important!'', ''Warning!'', ''Error!'', ''Fatal!'']"

definition Broadcast_stdout :: "string \<Rightarrow> nat \<Rightarrow> world \<Rightarrow> unit outcome" where
  "Broadcast_stdout msg severity w =
     (if severity < length severity_names
      then (Inr (), w\<lparr>stdout := stdout w @ [''houclip: '' @ severity_names ! severity @ '' '' @ msg]\<rparr>)
      else (Inl IndexError, w))"

definition notify_params :: "nat \<Rightarrow> (string \<times> string) option" where
  "notify_params severity =
     (if severity = 0 \<or> severity = 1 then Some (''low'', ''dialog-information'')
      else if severity = 2 then Some (''normal'', ''dialog-warning'')
      else if severity = 3 \<or> severity = 4 then Some (''critical'', ''dialog-error'')
      else None)"

definition notify_cmd :: "string \<Rightarrow> string \<Rightarrow> string \<Rightarrow> string" where
  \<comment> \<open>the command line \<open>cmd\<close> of \<open>notify_send\<close>, with the default summary\<close>
  "notify_cmd urgency icon msg =
     ''notify-send -a \"houclip\" -u '' @ urgency @ '' -i \"'' @ icon
       @ ''\" \"Houclip\" \"'' @ msg @ ''\"''"

definition Broadcast_notify_send :: "env \<Rightarrow> string \<Rightarrow> nat \<Rightarrow> world \<Rightarrow> unit outcome" where
  \<comment> \<open>\<open>subprocess.run(cmd, check=True, ...)\<close> raises when the exit status is not 0\<close>
  "Broadcast_notify_send E msg severity w =
     (case notify_params severity of
        None \<Rightarrow> (Inl KeyError, w)
      | Some (urgency, icon) \<Rightarrow>
          (let cmd = notify_cmd urgency icon msg;
               w' = w\<lparr>shell_log := shell_log w @ [cmd]\<rparr>
           in if notify_rc E cmd = 0 then (Inr (), w') else (Inl CalledProcessError, w')))"

definition Broadcast_status_msg :: "env \<Rightarrow> string \<Rightarrow> nat \<Rightarrow> world \<Rightarrow> unit outcome" where
  "Broadcast_status_msg E msg severity w =
     (if \<not> hou_present E then (Inr (), w)
      else if severity < 5
      then (Inr (), w\<lparr>status_msgs := status_msgs w @ [(msg, severity)]\<rparr>)
      else (Inl IndexError, w))"

definition Broadcast_all :: "env \<Rightarrow> string \<Rightarrow> nat \<Rightarrow> world \<Rightarrow> unit outcome" where
  "Broadcast_all E msg severity w =
     (case Broadcast_stdout msg severity w of
        (Inl e, w1) \<Rightarrow> (Inl e, w1)
      | (Inr _, w1) \<Rightarrow>
     (case Broadcast_status_msg E msg severity w1 of
        (Inl e, w2) \<Rightarrow> (Inl e, w2)
      | (Inr _, w2) \<Rightarrow> Broadcast_notify_send E msg severity w2))"


section \<open>Configuration (config.py)\<close>

text \<open>
  \<open>Config.__new__\<close> hands out one object, and Python runs \<open>__init__\<close> on it at
  every call \<open>Config()\<close>: each call reads the configuration again and runs
  \<open>__validate_hierarchy\<close>, which creates the directory and the index file of
  every category that lacks one. The configuration file is taken to exist and
  to hold the values of the record \<open>config\<close>.
\<close>

definition validate_category :: "config \<Rightarrow> string \<Rightarrow> world \<Rightarrow> world" where
  \<comment> \<open>the body of the loop of \<open>__validate_hierarchy\<close>\<close>
  "validate_category cfg c w =
     (let w1 = (if c \<notin> category_dirs w
                then (snd (Broadcast_stdout (MKDIR @ '' '' @ dir_path cfg c) 0 w))
                       \<lparr>category_dirs := insert c (category_dirs w)\<rparr>
                else w)
      in if index_files w1 c = None
         then (snd (Broadcast_stdout (TOUCH @ '' '' @ index_path cfg c) 0 w1))
                \<lparr>index_files := (index_files w1)(c \<mapsto> [])\<rparr>
         else w1)"

definition Config_call :: "config \<Rightarrow> world \<Rightarrow> world" where
  \<comment> \<open>the effect of \<open>Config()\<close>\<close>
  "Config_call cfg w = fold (validate_category cfg) (CATEGORIES @ LANGUAGES) w"


section \<open>Snippets in the repository (snippets.py)\<close>

definition construct ::
  "snippet_class \<Rightarrow> string \<Rightarrow> string \<Rightarrow> string \<Rightarrow> string option \<Rightarrow> string \<Rightarrow> world
     \<Rightarrow> snippet outcome" where
  \<comment> \<open>\<open>OpSnippet(**kwargs)\<close> and \<open>CodeSnippet(**kwargs)\<close>: a new object, appended to the
      instances once every setter has accepted its value\<close>
  "construct k d t c p u w =
     (case new_snippet k (next_oid w) d t c p u of
        Inl e \<Rightarrow> (Inl e, w)
      | Inr s \<Rightarrow> (Inr s, w\<lparr>instances := instances w @ [s], next_oid := Suc (next_oid w)\<rparr>))"

definition purge :: "world \<Rightarrow> world" where
  "purge w = w\<lparr>instances := []\<rparr>"

definition add_to_list :: "env \<Rightarrow> config \<Rightarrow> snippet \<Rightarrow> world \<Rightarrow> world" where
  \<comment> \<open>\<open>Snippet.add_to_list\<close>: \<open>Config()\<close> twice, then one row written at the end of the
      index (mode \<open>'a'\<close>, \<open>newline=''\<close>); the index gains what the reader will decode
      from it\<close>
  "add_to_list E cfg self w =
     (let w1 = Config_call cfg (Config_call cfg w);
          tags_joined = join '','' (tags self);
          old = (case index_files w1 (category self) of None \<Rightarrow> [] | Some rows \<Rightarrow> rows);
          written = [description self, tags_joined, category self, prefix self, uuid self];
          decoded = (if carriage_return \<in> set (description self) \<or> carriage_return \<in> set tags_joined
                     then csv_read_back E written else [written])
      in w1\<lparr>index_files := (index_files w1)(category self \<mapsto> old @ decoded)\<rparr>)"

definition raise_after :: "unit outcome \<Rightarrow> error \<Rightarrow> 'a outcome" where
  \<comment> \<open>a broadcast followed by \<open>raise\<close>: the broadcast's own exception comes first\<close>
  "raise_after r e = (case r of (Inl e', w) \<Rightarrow> (Inl e', w) | (Inr _, w) \<Rightarrow> (Inl e, w))"

definition OpSnippet_store_in_repo :: "env \<Rightarrow> config \<Rightarrow> snippet \<Rightarrow> world \<Rightarrow> unit outcome" where
  "OpSnippet_store_in_repo E cfg self w =
     (case houdini_temp_file w (cpio_name (prefix self)) of
        None \<Rightarrow>
          raise_after (Broadcast_all E (SOURCE_MISSING @ '': '' @ cpio_path E (prefix self)) 3 w)
            FileNotFoundError
      | Some bytes \<Rightarrow>
          (let w1 = Config_call cfg w
           in (Inr (), w1\<lparr>content_files :=
                 (content_files w1)((category self, uuid self) \<mapsto> Gzip bytes)\<rparr>)))"

definition OpSnippet_get_from_repo :: "env \<Rightarrow> config \<Rightarrow> snippet \<Rightarrow> world \<Rightarrow> unit outcome" where
  \<comment> \<open>\<open>open(target_path, 'wb')\<close> raises when the directory is missing; the target is
      opened (and so emptied) before the first read of the gzip stream, which raises
      \<open>BadGzipFile\<close> on bytes that are no gzip stream and \<open>EOFError\<close> at the end of a
      stream cut short; an empty file reads as no bytes\<close>
  "OpSnippet_get_from_repo E cfg self w =
     (let w1 = Config_call cfg w;
          target = cpio_name (prefix self)
      in case content_files w1 (category self, uuid self) of
           None \<Rightarrow>
             raise_after
               (Broadcast_all E
                  (SOURCE_MISSING @ '': '' @ content_path cfg (category self) (uuid self)) 3 w1)
               FileNotFoundError
         | Some stored \<Rightarrow>
             (if \<not> houdini_temp_dir w1 then (Inl FileNotFoundError, w1)
              else (case stored of
                      Gzip bytes \<Rightarrow>
                        (Inr (), w1\<lparr>houdini_temp := (houdini_temp w1)(target \<mapsto> bytes)\<rparr>)
                    | Truncated bytes \<Rightarrow>
                        (Inl EOFError, w1\<lparr>houdini_temp := (houdini_temp w1)(target \<mapsto> bytes)\<rparr>)
                    | Verbatim bytes \<Rightarrow>
                        (if bytes = [] then Inr () else Inl BadGzipFile,
                         w1\<lparr>houdini_temp := (houdini_temp w1)(target \<mapsto> [])\<rparr>))))"

definition CodeSnippet_store_in_repo :: "config \<Rightarrow> snippet \<Rightarrow> string \<Rightarrow> world \<Rightarrow> unit outcome" where
  "CodeSnippet_store_in_repo cfg self code w =
     (let w1 = Config_call cfg w
      in (Inr (), w1\<lparr>content_files :=
            (content_files w1)((category self, uuid self) \<mapsto> Verbatim code)\<rparr>))"

definition CodeSnippet_get_from_repo :: "env \<Rightarrow> config \<Rightarrow> snippet \<Rightarrow> world \<Rightarrow> unit outcome" where
  \<comment> \<open>\<open>Clipboard.fetch\<close> runs \<open>xclip -sel clip < file\<close> with \<open>check=True\<close>\<close>
  "CodeSnippet_get_from_repo E cfg self w =
     (let w1 = Config_call cfg w
      in case content_files w1 (category self, uuid self) of
           None \<Rightarrow>
             raise_after
               (Broadcast_stdout
                  (FILE_MISSING @ '' '' @ content_path cfg (category self) (uuid self)) 3 w1)
               FileNotFoundError
         | Some bytes \<Rightarrow>
             (if xclip_rc E (category self, uuid self) = 0
              then (Inr (), w1\<lparr>clipboard := Some bytes\<rparr>)
              else (Inl CalledProcessError, w1)))"

definition get_from_repo :: "env \<Rightarrow> config \<Rightarrow> snippet \<Rightarrow> world \<Rightarrow> unit outcome" where
  "get_from_repo E cfg self w =
     (case cls self of
        OpSnippet \<Rightarrow> OpSnippet_get_from_repo E cfg self w
      | CodeSnippet \<Rightarrow> CodeSnippet_get_from_repo E cfg self w)"


subsection \<open>Snippet.delete\<close>

fun rewrite_loop :: "string \<Rightarrow> string \<Rightarrow> row list \<Rightarrow> world \<Rightarrow> unit outcome" where
  \<comment> \<open>the loop \<open>for row in reader\<close>, writing to the temporary file \<open>hex\<close>\<close>
  "rewrite_loop u hex [] w = (Inr (), w)"
| "rewrite_loop u hex (row # rest) w =
     (if length row \<le> 4 then (Inl IndexError, w)
      else if row ! 4 \<noteq> u
      then rewrite_loop u hex rest
             (w\<lparr>shm_files := (shm_files w)(hex \<mapsto>
                  (case shm_files w hex of None \<Rightarrow> [] | Some written \<Rightarrow> written)
                    @ [[row ! 0, row ! 1, row ! 2, row ! 3, row ! 4]])\<rparr>)
      else rewrite_loop u hex rest w)"

definition copyfile_open :: "string \<Rightarrow> world \<Rightarrow> world" where
  \<comment> \<open>\<open>shutil.copyfile\<close> opens the destination with mode \<open>'wb'\<close>, which empties it\<close>
  "copyfile_open c w = w\<lparr>index_files := (index_files w)(c \<mapsto> [])\<rparr>"

definition copyfile_write :: "string \<Rightarrow> string \<Rightarrow> world \<Rightarrow> world" where
  \<comment> \<open>then the bytes of the source arrive in the destination\<close>
  "copyfile_write hex c w =
     w\<lparr>index_files := (index_files w)(c \<mapsto>
          (case shm_files w hex of None \<Rightarrow> [] | Some rows \<Rightarrow> rows))\<rparr>"

definition copyfile :: "string \<Rightarrow> string \<Rightarrow> world \<Rightarrow> world" where
  "copyfile hex c w = copyfile_write hex c (copyfile_open c w)"

definition unlink_content :: "string \<times> string \<Rightarrow> world \<Rightarrow> world" where
  "unlink_content k w = w\<lparr>content_files := (content_files w)(k := None)\<rparr>"

definition unlink_shm :: "string \<Rightarrow> world \<Rightarrow> world" where
  "unlink_shm hex w = w\<lparr>shm_files := (shm_files w)(hex := None)\<rparr>"

definition forget :: "snippet \<Rightarrow> world \<Rightarrow> world" where
  \<comment> \<open>\<open>if self in Snippet.__instances: Snippet.__instances.remove(self)\<close>\<close>
  "forget self w =
     (if self \<in> set (instances w) then w\<lparr>instances := remove1 self (instances w)\<rparr> else w)"

definition warn_if_empty :: "env \<Rightarrow> config \<Rightarrow> string \<Rightarrow> row list \<Rightarrow> world \<Rightarrow> unit outcome" where
  \<comment> \<open>\<open>if os.stat(list_file_path).st_size == 0: Broadcast.all(..., 4)\<close>\<close>
  "warn_if_empty E cfg c rows w =
     (if rows = [] then Broadcast_all E (CSV_EMPTY @ '' '' @ index_path cfg c) 4 w
      else (Inr (), w))"

definition kept_rows :: "string \<Rightarrow> row list \<Rightarrow> row list" where
  \<comment> \<open>the rows the loop writes when every row has its five fields\<close>
  "kept_rows u rows =
     map (\<lambda>row. [row ! 0, row ! 1, row ! 2, row ! 3, row ! 4]) (filter (\<lambda>row. row ! 4 \<noteq> u) rows)"

definition rewrite_index :: "string \<Rightarrow> string \<Rightarrow> string \<Rightarrow> world \<Rightarrow> unit outcome" where
  \<comment> \<open>lines 207 to 219 of \<open>Snippet.delete\<close>: the check that the index exists, the
      filtered copy in the temporary file, and \<open>shutil.copyfile\<close> over the index\<close>
  "rewrite_index u hex c w =
     (case index_files w c of
        None \<Rightarrow> (Inl FileNotFoundError, w)
      | Some rows \<Rightarrow>
          (case rewrite_loop u hex rows (w\<lparr>shm_files := (shm_files w)(hex \<mapsto> [])\<rparr>) of
             (Inl e, w') \<Rightarrow> (Inl e, w')
           | (Inr _, w') \<Rightarrow> (Inr (), copyfile hex c w')))"

definition delete :: "env \<Rightarrow> config \<Rightarrow> snippet \<Rightarrow> string \<Rightarrow> world \<Rightarrow> unit outcome" where
  \<comment> \<open>\<open>Snippet.delete\<close>; \<open>hex\<close> is the value of \<open>uuid1().hex\<close> that names the temporary
      file, and \<open>os.stat\<close> raises when the index is missing\<close>
  "delete E cfg self hex w =
     (let w1 = Config_call cfg w;
          c = category self
      in case index_files w1 c of
           None \<Rightarrow> (Inl FileNotFoundError, w1)
         | Some rows0 \<Rightarrow>
       (case warn_if_empty E cfg c rows0 w1 of
          (Inl e, w2) \<Rightarrow> (Inl e, w2)
        | (Inr _, w2) \<Rightarrow>
       (case rewrite_index (uuid self) hex c w2 of
          (Inl e, w4) \<Rightarrow> (Inl e, w4)
        | (Inr _, w4) \<Rightarrow>
            (case content_files w4 (c, uuid self) of
               None \<Rightarrow> (Inl FileNotFoundError, w4)
             | Some _ \<Rightarrow>
                 (Inr (), forget self (unlink_shm hex (unlink_content (c, uuid self) w4)))))))"

text \<open>
  The states of the world a run of \<open>Snippet.delete\<close> goes through, one after each
  effect on the files, up to the point where the run ends or raises. A run that is
  interrupted leaves one of them behind. The copy is two effects: the destination is
  emptied when it is opened, then filled.
\<close>

fun rewrite_states :: "string \<Rightarrow> string \<Rightarrow> row list \<Rightarrow> world \<Rightarrow> world list" where
  "rewrite_states u hex [] w = []"
| "rewrite_states u hex (row # rest) w =
     (if length row \<le> 4 then []
      else if row ! 4 \<noteq> u
      then (let w' = w\<lparr>shm_files := (shm_files w)(hex \<mapsto>
                        (case shm_files w hex of None \<Rightarrow> [] | Some written \<Rightarrow> written)
                          @ [[row ! 0, row ! 1, row ! 2, row ! 3, row ! 4]])\<rparr>
            in w' # rewrite_states u hex rest w')
      else rewrite_states u hex rest w)"

definition delete_states :: "env \<Rightarrow> config \<Rightarrow> snippet \<Rightarrow> string \<Rightarrow> world \<Rightarrow> world list" where
  "delete_states E cfg self hex w =
     (let w1 = Config_call cfg w;
          c = category self
      in case index_files w1 c of
           None \<Rightarrow> [w, w1]
         | Some rows0 \<Rightarrow>
       (case warn_if_empty E cfg c rows0 w1 of
          (Inl e, w2) \<Rightarrow> [w, w1, w2]
        | (Inr _, w2) \<Rightarrow>
       (case index_files w2 c of
          None \<Rightarrow> [w, w1, w2]
        | Some rows \<Rightarrow>
       (let w_open = w2\<lparr>shm_files := (shm_files w2)(hex \<mapsto> [])\<rparr>;
            before_copy = [w, w1, w2, w_open] @ rewrite_states (uuid self) hex rows w_open
        in case rewrite_loop (uuid self) hex rows w_open of
             (Inl e, w3) \<Rightarrow> before_copy
           | (Inr _, w3) \<Rightarrow>
               (let w_emptied = copyfile_open c w3;
                    w4 = copyfile_write hex c w_emptied
                in case content_files w4 (c, uuid self) of
                     None \<Rightarrow> before_copy @ [w_emptied, w4]
                   | Some _ \<Rightarrow>
                       (let w5 = unlink_content (c, uuid self) w4;
                            w6 = unlink_shm hex w5
                        in before_copy @ [w_emptied, w4, w5, w6, forget self w6]))))))"


section \<open>The workflows (snippets.py)\<close>

text \<open>
  What the user and the host application answer is an argument of each workflow:
  the strings the menu returns, the items selected in the network editor, the file
  that \<open>copyItemsToClipboard\<close> leaves in \<open>$HOUDINI_TEMP\<close>, the text of the X11
  clipboard, the values of \<open>uuid1().hex\<close>.
\<close>

datatype item = Node string | Other_item

fun first_node_category :: "item list \<Rightarrow> string option" where
  "first_node_category [] = None"
| "first_node_category (Node c # rest) = Some c"
| "first_node_category (Other_item # rest) = first_node_category rest"

definition determine_category :: "env \<Rightarrow> item list \<Rightarrow> world \<Rightarrow> string option outcome" where
  "determine_category E selection w =
     (if \<not> hou_present E
      then raise_after (Broadcast_all E HOU_MISSING 4 w) ModuleNotFoundError
      else (Inr (first_node_category selection), w))"

definition is_selection_valid :: "env \<Rightarrow> item list \<Rightarrow> world \<Rightarrow> bool outcome" where
  "is_selection_valid E selection w =
     (if selection = []
      then (case Broadcast_all E SEL_EMPTY 2 w of
              (Inl e, w1) \<Rightarrow> (Inl e, w1) | (Inr _, w1) \<Rightarrow> (Inr False, w1))
      else (case determine_category E selection w of
              (Inl e, w1) \<Rightarrow> (Inl e, w1)
            | (Inr None, w1) \<Rightarrow>
                (case Broadcast_all E SEL_TIP 2 w1 of
                   (Inl e, w2) \<Rightarrow> (Inl e, w2) | (Inr _, w2) \<Rightarrow> (Inr False, w2))
            | (Inr (Some c), w1) \<Rightarrow>
                (if c \<notin> set CATEGORIES
                 then raise_after (Broadcast_all E (CAT_INVALID @ '' '' @ c @ ''.'') 4 w1)
                        (TypeCategoryNotFoundError c)
                 else (Inr True, w1))))"

definition fstring_of :: "string option \<Rightarrow> string" where
  \<comment> \<open>\<open>f'{x}'\<close> for a value that is a string or \<open>None\<close>\<close>
  "fstring_of x = (case x of None \<Rightarrow> ''None'' | Some s \<Rightarrow> s)"

definition host_copy :: "(string \<times> string) option \<Rightarrow> world \<Rightarrow> world" where
  \<comment> \<open>\<open>selection[0].parent().copyItemsToClipboard(selection)\<close>: the host writes its file,
      if any, in its temporary directory\<close>
  "host_copy host_file w =
     (case host_file of
        None \<Rightarrow> w
      | Some (name, bytes) \<Rightarrow>
          w\<lparr>houdini_temp_dir := True, houdini_temp := (houdini_temp w)(name \<mapsto> bytes)\<rparr>)"

definition store_and_list :: "env \<Rightarrow> config \<Rightarrow> snippet \<Rightarrow> world \<Rightarrow> unit outcome" where
  \<comment> \<open>the end of \<open>add_op_snippet\<close>: \<open>store_in_repo\<close>, \<open>add_to_list\<close>, the success message\<close>
  "store_and_list E cfg snippet w =
     (case OpSnippet_store_in_repo E cfg snippet w of
        (Inl e, w1) \<Rightarrow> (Inl e, w1)
      | (Inr _, w1) \<Rightarrow> Broadcast_all E SNIPPET_ADDED 0 (add_to_list E cfg snippet w1))"

definition add_op_snippet ::
  "env \<Rightarrow> config \<Rightarrow> item list \<Rightarrow> (string \<times> string) option \<Rightarrow> string \<Rightarrow> string \<Rightarrow> string
     \<Rightarrow> world \<Rightarrow> unit outcome" where
  "add_op_snippet E cfg selection host_file description_entry tags_entry hex w =
     (if \<not> hou_present E
      then raise_after (Broadcast_all E HOU_MISSING 4 w) ModuleNotFoundError
      else
     (case is_selection_valid E selection (Config_call cfg w) of
        (Inl e, w1) \<Rightarrow> (Inl e, w1)
      | (Inr False, w1) \<Rightarrow> (Inr (), w1)
      | (Inr True, w1) \<Rightarrow>
     (case determine_category E selection w1 of
        (Inl e, w2) \<Rightarrow> (Inl e, w2)
      | (Inr None, w2) \<Rightarrow> (Inl KeyError, w2)
      | (Inr (Some c), w2) \<Rightarrow>
     (case PREFIXES_get c of
        None \<Rightarrow> (Inl KeyError, w2)
      | Some p \<Rightarrow>
          (let prefix_str = fstring_of p;
               w3 = host_copy host_file w2
           in if description_entry = [] then Broadcast_all E DESC_REQ 2 w3
              else (case construct OpSnippet description_entry tags_entry c (Some prefix_str) hex w3 of
                      (Inl e, w4) \<Rightarrow> (Inl e, w4)
                    | (Inr snippet, w4) \<Rightarrow> store_and_list E cfg snippet w4))))))"

fun load_rows :: "(row \<Rightarrow> snippet_class) \<Rightarrow> row list \<Rightarrow> world \<Rightarrow> unit outcome" where
  \<comment> \<open>the loops over the reader in \<open>get_snippet\<close> and \<open>del_snippet\<close>; \<open>pick\<close> is the
      class the loop chooses for a row\<close>
  "load_rows pick [] w = (Inr (), w)"
| "load_rows pick (item # rest) w =
     (if length item \<le> 4 then (Inl IndexError, w)
      else (case construct (pick item) (item ! 0) (item ! 1) (item ! 2) (Some (item ! 3))
                   (item ! 4) w of
              (Inl e, w') \<Rightarrow> (Inl e, w')
            | (Inr _, w') \<Rightarrow> load_rows pick rest w'))"

definition pick_by_row :: "row \<Rightarrow> snippet_class" where
  \<comment> \<open>\<open>get_snippet\<close>: \<open>if kwargs['category'] in CATEGORIES\<close>\<close>
  "pick_by_row item = (if item ! 2 \<in> set CATEGORIES then OpSnippet else CodeSnippet)"

definition pick_by_choice :: "string \<Rightarrow> row \<Rightarrow> snippet_class" where
  \<comment> \<open>\<open>del_snippet\<close>: \<open>if category in CATEGORIES\<close>, the category chosen in the menu\<close>
  "pick_by_choice c item = (if c \<in> set CATEGORIES then OpSnippet else CodeSnippet)"

definition chosen_description :: "string \<Rightarrow> string" where
  \<comment> \<open>\<open>selected_snippet.partition('|')[0].rstrip()\<close>\<close>
  "chosen_description selected_snippet = rstrip (partition_head (CHR ''|'') selected_snippet)"

definition get_snippet :: "env \<Rightarrow> config \<Rightarrow> string \<Rightarrow> string \<Rightarrow> world \<Rightarrow> unit outcome" where
  "get_snippet E cfg category_choice selected_snippet w =
     (let w1 = Config_call cfg w;
          c = rstrip category_choice
      in if c = [] then (Inr (), w1)
         else (case index_files w1 c of
                 None \<Rightarrow> (Inr (), w1)
               | Some rows \<Rightarrow>
         (case load_rows pick_by_row rows (purge w1) of
            (Inl e, w2) \<Rightarrow> (Inl e, w2)
          | (Inr _, w2) \<Rightarrow>
              (if instances w2 = [] then Broadcast_all E CAT_EMPTY 0 w2
               else if selected_snippet = [] then (Inr (), w2)
               else (case get_by_description (instances w2) (chosen_description selected_snippet) of
                       None \<Rightarrow> (Inl AttributeError, w2)
                     | Some snippet \<Rightarrow>
                         (case get_from_repo E cfg snippet w2 of
                            (Inl e, w3) \<Rightarrow> (Inl e, w3)
                          | (Inr _, w3) \<Rightarrow>
                              Broadcast_all E (category snippet @ '' '' @ SNIPPET_FETCHED) 0 w3))))))"

definition add_code_snippet ::
  "env \<Rightarrow> config \<Rightarrow> string \<Rightarrow> string \<Rightarrow> string \<Rightarrow> string \<Rightarrow> string \<Rightarrow> world \<Rightarrow> unit outcome" where
  \<comment> \<open>\<open>code\<close> is what \<open>Clipboard.get()\<close> returns\<close>
  "add_code_snippet E cfg language_choice description_entry tags_entry hex code w =
     (let w1 = Config_call cfg w;
          language = rstrip language_choice
      in if language \<notin> set LANGUAGES
         then Broadcast_all E (CAT_INVALID @ '' '' @ language @ ''.'') 2 w1
         else if description_entry = [] then (Inr (), w1)
         else (case construct CodeSnippet description_entry tags_entry language None hex w1 of
                 (Inl e, w2) \<Rightarrow> (Inl e, w2)
               | (Inr snippet, w2) \<Rightarrow>
                   (case CodeSnippet_store_in_repo cfg snippet code w2 of
                      (Inl e, w3) \<Rightarrow> (Inl e, w3)
                    | (Inr _, w3) \<Rightarrow>
                        Broadcast_all E SNIPPET_ADDED 0 (add_to_list E cfg snippet w3))))"

definition del_snippet_listed ::
  "env \<Rightarrow> config \<Rightarrow> string \<Rightarrow> string \<Rightarrow> string \<Rightarrow> world \<Rightarrow> unit outcome" where
  \<comment> \<open>\<open>del_snippet\<close> from \<open>Snippet.purge()\<close> on, for the category \<open>c\<close> chosen\<close>
  "del_snippet_listed E cfg c selected_snippet hex w =
     (let w1 = purge w
      in case index_files w1 c of
           None \<Rightarrow> Broadcast_all E CSV_MISSING 4 w1
         | Some rows \<Rightarrow>
       (case load_rows (pick_by_choice c) rows w1 of
          (Inl e, w2) \<Rightarrow> (Inl e, w2)
        | (Inr _, w2) \<Rightarrow>
            (if instances w2 = [] then Broadcast_all E CAT_EMPTY 0 w2
             else if selected_snippet = [] then (Inr (), w2)
             else (case get_by_description (instances w2) (chosen_description selected_snippet) of
                     None \<Rightarrow> (Inl AttributeError, w2)
                   | Some snippet \<Rightarrow>
                       (case delete E cfg snippet hex w2 of
                          (Inl e, w3) \<Rightarrow> (Inl e, w3)
                        | (Inr _, w3) \<Rightarrow>
                            Broadcast_all E
                              (SNIPPET_DELETED @ [CHR 0x0A] @ description snippet) 0 w3)))))"

definition del_snippet ::
  "env \<Rightarrow> config \<Rightarrow> string \<Rightarrow> string \<Rightarrow> string \<Rightarrow> world \<Rightarrow> unit outcome" where
  \<comment> \<open>the argument \<open>code\<close> of the source only selects the list the menu shows\<close>
  "del_snippet E cfg category_choice selected_snippet hex w =
     (let w1 = Config_call cfg w;
          c = strip category_choice
      in if c = [] then (Inr (), w1)
         else if c \<notin> set (CATEGORIES @ LANGUAGES) then (Inr (), w1)
         else del_snippet_listed E cfg c selected_snippet hex w1)"


subsection \<open>What loading an index yields\<close>

text \<open>
  Notions for stating what the loops over the reader do: the rows that the
  constructors accept, and the instances that loading such rows creates.
\<close>

definition loads :: "(row \<Rightarrow> snippet_class) \<Rightarrow> row \<Rightarrow> bool" where
  "loads pick item \<longleftrightarrow>
     4 < length item \<and> item ! 0 \<noteq> [] \<and>
     (case pick item of
        OpSnippet \<Rightarrow> item ! 2 \<in> set CATEGORIES \<and> Some (item ! 3) \<in> set PREFIXES_values
      | CodeSnippet \<Rightarrow> item ! 2 \<in> set LANGUAGES)"

definition loaded_from :: "snippet_class \<Rightarrow> nat \<Rightarrow> row \<Rightarrow> snippet" where
  "loaded_from k i item =
     \<lparr>oid = i, cls = k, description = item ! 0, tags = set_tags (item ! 1), category = item ! 2,
      prefix = (case k of OpSnippet \<Rightarrow> item ! 3 | CodeSnippet \<Rightarrow> []), uuid = item ! 4\<rparr>"

fun loaded_list :: "(row \<Rightarrow> snippet_class) \<Rightarrow> nat \<Rightarrow> row list \<Rightarrow> snippet list" where
  "loaded_list pick i [] = []"
| "loaded_list pick i (item # rest) = loaded_from (pick item) i item # loaded_list pick (Suc i) rest"


section \<open>Examples\<close>

definition example_config :: config where
  "example_config = \<lparr>repo = ''/home/user/.local/share/houclip'', max_desc_len = 128, max_tags_len = 32\<rparr>"

definition long_tags_snippet :: snippet where
  "long_tags_snippet =
     \<lparr>oid = 0, cls = OpSnippet, description = ''blur setup'',
      tags = [''geometry'', ''procedural'', ''simulation'', ''utility''],
      category = ''Sop'', prefix = ''SOP'', uuid = ''0a1b''\<rparr>"

definition empty_world :: world where
  "empty_world =
     \<lparr>category_dirs = {}, index_files = Map.empty, content_files = Map.empty,
      shm_files = Map.empty, houdini_temp_dir = False, houdini_temp = Map.empty,
      clipboard = None, instances = [],
      next_oid = 0, stdout = [], status_msgs = [], shell_log = []\<rparr>"

definition quiet_env :: env where
  \<comment> \<open>outside Houdini, with \<open>notify-send\<close> and \<open>xclip\<close> working\<close>
  "quiet_env =
     \<lparr>hou_present = False, HOUDINI_TEMP = ''/tmp/houdini_temp'', notify_rc = (\<lambda>cmd. 0),
      xclip_rc = (\<lambda>file. 0), csv_read_back = (\<lambda>row. [map universal_newlines row])\<rparr>"

definition no_notify_env :: env where
  \<comment> \<open>the same without \<open>notify-send\<close>: the shell exits with status 127\<close>
  "no_notify_env = quiet_env\<lparr>notify_rc := (\<lambda>cmd. 127)\<rparr>"

definition row_blur :: row where
  "row_blur = [''blur setup'', ''blur,util'', ''Sop'', ''SOP'', ''0a1b'']"

definition row_noise :: row where
  "row_noise = [''noise'', ''util'', ''Sop'', ''SOP'', ''0c2d'']"

definition row_noise_again :: row where
  \<comment> \<open>another row with the identifier of \<open>row_blur\<close>\<close>
  "row_noise_again = [''noise'', ''util'', ''Sop'', ''SOP'', ''0a1b'']"

definition row_blur_again :: row where
  \<comment> \<open>another row with the description of \<open>row_blur\<close>\<close>
  "row_blur_again = [''blur setup'', ''fast'', ''Sop'', ''SOP'', ''0e3f'']"

definition sop_contents :: "string \<times> string \<rightharpoonup> file_bytes" where
  "sop_contents =
     [(''Sop'', ''0a1b'') \<mapsto> Gzip ''cpio blur'', (''Sop'', ''0c2d'') \<mapsto> Gzip ''cpio noise'',
      (''Sop'', ''0e3f'') \<mapsto> Gzip ''cpio fast blur'']"

definition sop_world :: "row list \<Rightarrow> world" where
  \<comment> \<open>a repository whose index of Sop holds the given rows\<close>
  "sop_world rows =
     empty_world\<lparr>index_files := [''Sop'' \<mapsto> rows], content_files := sop_contents\<rparr>"

definition snippet_blur :: snippet where
  "snippet_blur =
     \<lparr>oid = 0, cls = OpSnippet, description = ''blur setup'', tags = [''blur'', ''util''],
      category = ''Sop'', prefix = ''SOP'', uuid = ''0a1b''\<rparr>"

definition snippet_noise :: snippet where
  "snippet_noise =
     \<lparr>oid = 1, cls = OpSnippet, description = ''noise'', tags = [''util''],
      category = ''Sop'', prefix = ''SOP'', uuid = ''0c2d''\<rparr>"

definition snippet_blur_again :: snippet where
  "snippet_blur_again =
     \<lparr>oid = 1, cls = OpSnippet, description = ''blur setup'', tags = [''fast''],
      category = ''Sop'', prefix = ''SOP'', uuid = ''0e3f''\<rparr>"

definition catalog_world :: "row list \<Rightarrow> snippet list \<Rightarrow> world" where
  \<comment> \<open>the same repository with the given snippets loaded\<close>
  "catalog_world rows loaded = (sop_world rows)\<lparr>instances := loaded, next_oid := length loaded\<rparr>"

definition lost_index_world :: world where
  \<comment> \<open>a repository whose index files are gone while the content files are there\<close>
  "lost_index_world = empty_world\<lparr>content_files := sop_contents\<rparr>"

definition houdini_env :: env where
  \<comment> \<open>inside Houdini\<close>
  "houdini_env = quiet_env\<lparr>hou_present := True\<rparr>"

definition row_pipe :: row where
  "row_pipe = [''a|b'', ''x'', ''Sop'', ''SOP'', ''0f4a'']"

definition pipe_snippet :: snippet where
  \<comment> \<open>a description with the separator in it\<close>
  "pipe_snippet = loaded_from OpSnippet 0 row_pipe"

definition long_snippet :: snippet where
  \<comment> \<open>a description of 129 characters\<close>
  "long_snippet =
     loaded_from OpSnippet 0 [replicate 129 (CHR ''x''), ''x'', ''Sop'', ''SOP'', ''0f4b'']"

definition padded_snippet :: snippet where
  \<comment> \<open>a description that ends with a space\<close>
  "padded_snippet = loaded_from OpSnippet 0 [''tab '', ''x'', ''Sop'', ''SOP'', ''0f4c'']"

definition created_world :: world where
  \<comment> \<open>after the Create workflow on a selection of Sop nodes, next to one other snippet\<close>
  "created_world =
     snd (add_op_snippet houdini_env example_config [Node ''Sop'']
            (Some (''SOP_copy.cpio'', ''cpio blur'')) ''blur setup'' ''util, blur'' ''0a1b''
            (sop_world [row_noise]))"

definition hello_snippet :: snippet where
  "hello_snippet =
     \<lparr>oid = 0, cls = CodeSnippet, description = ''hello'', tags = [''demo''],
      category = ''Python'', prefix = [], uuid = ''0b2c''\<rparr>"

definition hello_world :: world where
  \<comment> \<open>after the Create workflow for text, in a fresh repository\<close>
  "hello_world =
     snd (add_code_snippet quiet_env example_config ''Python'' ''hello'' ''demo'' ''0b2c''
            ''print(1)'' empty_world)"

definition blur_only_world :: world where
  "blur_only_world =
     empty_world\<lparr>index_files := [''Sop'' \<mapsto> [row_blur]],
                 content_files := [(''Sop'', ''0a1b'') \<mapsto> Gzip ''cpio blur'']\<rparr>"

definition second_blur_world :: world where
  \<comment> \<open>after the Create workflow with a description the repository already has\<close>
  "second_blur_world =
     snd (add_op_snippet houdini_env example_config [Node ''Sop'']
            (Some (''SOP_copy.cpio'', ''cpio fast blur'')) ''blur setup'' ''fast'' ''0e3f''
            blur_only_world)"

definition row_dop :: row where
  \<comment> \<open>a row of the index of Sop with the prefix of Dop\<close>
  "row_dop = [''blur setup'', ''blur,util'', ''Sop'', ''DOP'', ''0a1b'']"


section \<open>Display lines and lookup by description\<close>

lemma partition_head_append:
  "c \<notin> set xs \<Longrightarrow> partition_head c (xs @ c # ys) = xs"
  by (auto simp: partition_head_def takeWhile_tail)

lemma py_whitespace_space: "py_whitespace (CHR '' '')"
  by (simp add: py_whitespace_def)

lemma rstrip_padded:
  "d = [] \<or> \<not> py_whitespace (last d) \<Longrightarrow> rstrip (d @ replicate n (CHR '' '')) = d"
proof (cases d rule: rev_cases)
  case Nil
  then show ?thesis
    by (simp add: rstrip_def py_whitespace_space)
next
  case (snoc ys y)
  assume "d = [] \<or> \<not> py_whitespace (last d)"
  with snoc have "\<not> py_whitespace y" by simp
  with snoc show ?thesis
    by (simp add: rstrip_def py_whitespace_space dropWhile_append3)
qed

lemma chosen_description_str:
  assumes "length (description s) \<le> max_desc_len cfg"
    and "CHR ''|'' \<notin> set (description s)"
    and "description s = [] \<or> \<not> py_whitespace (last (description s))"
  shows "chosen_description (str_snippet cfg s @ rest) = description s"
proof -
  let ?d = "description s"
  let ?pad = "replicate (max_desc_len cfg + 2 - length ?d) (CHR '' '')"
  have line: "str_snippet cfg s @ rest = (?d @ ?pad) @ CHR ''|'' # (join '','' (tags s) @ rest)"
    using assms(1) by (simp add: str_snippet_def ljust_def Let_def)
  have "CHR ''|'' \<notin> set (?d @ ?pad)"
    using assms(2) by auto
  then have "partition_head (CHR ''|'') (str_snippet cfg s @ rest) = ?d @ ?pad"
    unfolding line by (rule partition_head_append)
  then show ?thesis
    using assms(3) by (simp add: chosen_description_def rstrip_padded)
qed

lemma get_by_description_None:
  "get_by_description insts d = None \<longleftrightarrow> d \<notin> description ` set insts"
  by (induction insts) auto

lemma get_by_description_Some:
  "get_by_description insts d = Some s \<Longrightarrow> s \<in> set insts \<and> description s = d"
  by (induction insts) (auto split: if_splits)

lemma get_by_description_found:
  "s \<in> set insts \<Longrightarrow> \<exists>s'. get_by_description insts (description s) = Some s' \<and> description s' = description s"
  by (cases "get_by_description insts (description s)")
     (auto simp: get_by_description_None dest: get_by_description_Some)


section \<open>What broadcasting and configuration leave alone\<close>

lemma Broadcast_stdout_fields:
  "category_dirs (snd (Broadcast_stdout m sv w)) = category_dirs w"
  "index_files (snd (Broadcast_stdout m sv w)) = index_files w"
  "content_files (snd (Broadcast_stdout m sv w)) = content_files w"
  "shm_files (snd (Broadcast_stdout m sv w)) = shm_files w"
  "houdini_temp (snd (Broadcast_stdout m sv w)) = houdini_temp w"
  "clipboard (snd (Broadcast_stdout m sv w)) = clipboard w"
  "instances (snd (Broadcast_stdout m sv w)) = instances w"
  "next_oid (snd (Broadcast_stdout m sv w)) = next_oid w"
  "houdini_temp_dir (snd (Broadcast_stdout m sv w)) = houdini_temp_dir w"
  by (simp_all add: Broadcast_stdout_def)

lemma Broadcast_all_fields:
  "category_dirs (snd (Broadcast_all E m sv w)) = category_dirs w"
  "index_files (snd (Broadcast_all E m sv w)) = index_files w"
  "content_files (snd (Broadcast_all E m sv w)) = content_files w"
  "shm_files (snd (Broadcast_all E m sv w)) = shm_files w"
  "houdini_temp (snd (Broadcast_all E m sv w)) = houdini_temp w"
  "clipboard (snd (Broadcast_all E m sv w)) = clipboard w"
  "instances (snd (Broadcast_all E m sv w)) = instances w"
  "next_oid (snd (Broadcast_all E m sv w)) = next_oid w"
  "houdini_temp_dir (snd (Broadcast_all E m sv w)) = houdini_temp_dir w"
  by (simp_all add: Broadcast_all_def Broadcast_stdout_def Broadcast_status_msg_def
        Broadcast_notify_send_def Let_def split: option.splits prod.splits)

lemma Broadcast_all_ok:
  "sv \<le> 4 \<Longrightarrow> \<forall>cmd. notify_rc E cmd = 0 \<Longrightarrow> fst (Broadcast_all E m sv w) = Inr ()"
  by (auto simp: Broadcast_all_def Broadcast_stdout_def Broadcast_status_msg_def
        Broadcast_notify_send_def notify_params_def severity_names_def Let_def
        split: option.splits prod.splits)

lemma validate_category_fields:
  "content_files (validate_category cfg c w) = content_files w"
  "shm_files (validate_category cfg c w) = shm_files w"
  "houdini_temp (validate_category cfg c w) = houdini_temp w"
  "clipboard (validate_category cfg c w) = clipboard w"
  "instances (validate_category cfg c w) = instances w"
  "next_oid (validate_category cfg c w) = next_oid w"
  "status_msgs (validate_category cfg c w) = status_msgs w"
  "shell_log (validate_category cfg c w) = shell_log w"
  "houdini_temp_dir (validate_category cfg c w) = houdini_temp_dir w"
  by (simp_all add: validate_category_def Let_def Broadcast_stdout_def)

lemma validate_category_index:
  "index_files (validate_category cfg c w) =
     (if index_files w c = None then (index_files w)(c \<mapsto> []) else index_files w)"
  by (auto simp: validate_category_def Let_def Broadcast_stdout_def)

lemma fold_validate_fields:
  "content_files (fold (validate_category cfg) cs w) = content_files w"
  "shm_files (fold (validate_category cfg) cs w) = shm_files w"
  "houdini_temp (fold (validate_category cfg) cs w) = houdini_temp w"
  "clipboard (fold (validate_category cfg) cs w) = clipboard w"
  "instances (fold (validate_category cfg) cs w) = instances w"
  "next_oid (fold (validate_category cfg) cs w) = next_oid w"
  "status_msgs (fold (validate_category cfg) cs w) = status_msgs w"
  "shell_log (fold (validate_category cfg) cs w) = shell_log w"
  "houdini_temp_dir (fold (validate_category cfg) cs w) = houdini_temp_dir w"
  by (induction cs arbitrary: w; simp add: validate_category_fields)+

lemma fold_validate_index:
  "index_files (fold (validate_category cfg) cs w) c =
     (if c \<in> set cs \<and> index_files w c = None then Some [] else index_files w c)"
  by (induction cs arbitrary: w) (auto simp: validate_category_index)

lemma Config_call_fields:
  "content_files (Config_call cfg w) = content_files w"
  "shm_files (Config_call cfg w) = shm_files w"
  "houdini_temp (Config_call cfg w) = houdini_temp w"
  "clipboard (Config_call cfg w) = clipboard w"
  "instances (Config_call cfg w) = instances w"
  "next_oid (Config_call cfg w) = next_oid w"
  "status_msgs (Config_call cfg w) = status_msgs w"
  "shell_log (Config_call cfg w) = shell_log w"
  "houdini_temp_dir (Config_call cfg w) = houdini_temp_dir w"
  by (simp_all add: Config_call_def fold_validate_fields)

lemma Config_call_index:
  "index_files (Config_call cfg w) c =
     (if c \<in> set (CATEGORIES @ LANGUAGES) \<and> index_files w c = None then Some []
      else index_files w c)"
  unfolding Config_call_def by (rule fold_validate_index)

lemma Config_call_index_Some:
  "index_files w c = Some rows \<Longrightarrow> index_files (Config_call cfg w) c = Some rows"
  by (simp add: Config_call_index)


section \<open>The registry and the constructors\<close>

lemma set_prefix_registry:
  "p \<in> set PREFIXES_values \<Longrightarrow> set_prefix p = Inr (case p of None \<Rightarrow> [] | Some x \<Rightarrow> x)"
  by (auto simp: set_prefix_def split: option.splits)

lemma PREFIXES_get_in_values:
  "PREFIXES_get c = Some p \<Longrightarrow> p \<in> set PREFIXES_values"
  unfolding PREFIXES_get_def PREFIXES_values_def
  by (metis map_of_SomeD set_zip_rightD zip_map_fst_snd)

lemma PREFIXES_get_CATEGORIES:
  "c \<in> set CATEGORIES \<Longrightarrow> \<exists>p. PREFIXES_get c = Some p"
  unfolding PREFIXES_get_def CATEGORIES_def
  by (metis domD dom_map_of_conv_image_fst list.set_map)

lemma CATEGORIES_nonempty: "c \<in> set CATEGORIES \<Longrightarrow> c \<noteq> []"
  by (auto simp: CATEGORIES_def PREFIXES_def)

lemma LANGUAGES_nonempty: "c \<in> set LANGUAGES \<Longrightarrow> c \<noteq> []"
  by (auto simp: LANGUAGES_def)

lemma PREFIXES_table:
  "PREFIXES_get ''Chop'' = Some (Some ''CHOP'')"
  "PREFIXES_get ''ChopNet'' = Some (Some ''CHOPNET'')"
  "PREFIXES_get ''Cop2'' = Some (Some ''COP2'')"
  "PREFIXES_get ''CopNet'' = Some (Some ''IMG'')"
  "PREFIXES_get ''Director'' = Some None"
  "PREFIXES_get ''Dop'' = Some (Some ''DOP'')"
  "PREFIXES_get ''Driver'' = Some (Some ''ROP'')"
  "PREFIXES_get ''Lop'' = Some (Some ''LOP'')"
  "PREFIXES_get ''Manager'' = Some None"
  "PREFIXES_get ''Object'' = Some (Some ''OBJ'')"
  "PREFIXES_get ''Shop'' = Some (Some ''SHOP'')"
  "PREFIXES_get ''Sop'' = Some (Some ''SOP'')"
  "PREFIXES_get ''Top'' = Some (Some ''TOP'')"
  "PREFIXES_get ''TopNet'' = Some (Some ''TOPNET'')"
  "PREFIXES_get ''Vop'' = Some (Some ''VOP'')"
  "PREFIXES_get ''VopNet'' = Some None"
  by (simp_all add: PREFIXES_get_def PREFIXES_def)

lemma new_OpSnippet_registry:
  assumes "c \<in> set CATEGORIES" "PREFIXES_get c = Some p" "d \<noteq> []"
  shows "new_snippet OpSnippet i d t c p u =
           Inr \<lparr>oid = i, cls = OpSnippet, description = d, tags = set_tags t, category = c,
                prefix = (case p of None \<Rightarrow> [] | Some x \<Rightarrow> x), uuid = u\<rparr>"
  using assms
  by (simp add: new_snippet_def set_description_def set_category_def CATEGORIES_nonempty
        set_prefix_registry PREFIXES_get_in_values)

lemma new_CodeSnippet:
  assumes "l \<in> set LANGUAGES" "d \<noteq> []"
  shows "new_snippet CodeSnippet i d t l p u =
           Inr \<lparr>oid = i, cls = CodeSnippet, description = d, tags = set_tags t, category = l,
                prefix = [], uuid = u\<rparr>"
  using assms
  by (simp add: new_snippet_def set_description_def set_category_def LANGUAGES_nonempty
        set_prefix_def)

lemma CATEGORIES_cases:
  "c \<in> set CATEGORIES \<longleftrightarrow>
     c = ''Chop'' \<or> c = ''ChopNet'' \<or> c = ''Cop2'' \<or> c = ''CopNet'' \<or> c = ''Director''
     \<or> c = ''Dop'' \<or> c = ''Driver'' \<or> c = ''Lop'' \<or> c = ''Manager'' \<or> c = ''Object''
     \<or> c = ''Shop'' \<or> c = ''Sop'' \<or> c = ''Top'' \<or> c = ''TopNet'' \<or> c = ''Vop''
     \<or> c = ''VopNet''"
  by (simp add: CATEGORIES_def PREFIXES_def)

lemma unmapped_categories:
  "c \<in> set CATEGORIES \<Longrightarrow>
     (PREFIXES_get c = Some None \<longleftrightarrow> c \<in> {''Director'', ''Manager'', ''VopNet''})"
  unfolding CATEGORIES_cases
  by (elim disjE; simp add: PREFIXES_table)

lemma PREFIXES_listing:
  "map (\<lambda>c. (c, PREFIXES_get c)) CATEGORIES =
     [(''Chop'', Some (Some ''CHOP'')), (''ChopNet'', Some (Some ''CHOPNET'')),
      (''Cop2'', Some (Some ''COP2'')), (''CopNet'', Some (Some ''IMG'')),
      (''Director'', Some None), (''Dop'', Some (Some ''DOP'')),
      (''Driver'', Some (Some ''ROP'')), (''Lop'', Some (Some ''LOP'')),
      (''Manager'', Some None), (''Object'', Some (Some ''OBJ'')),
      (''Shop'', Some (Some ''SHOP'')), (''Sop'', Some (Some ''SOP'')),
      (''Top'', Some (Some ''TOP'')), (''TopNet'', Some (Some ''TOPNET'')),
      (''Vop'', Some (Some ''VOP'')), (''VopNet'', Some None)]"
proof -
  have cats: "CATEGORIES = [''Chop'', ''ChopNet'', ''Cop2'', ''CopNet'', ''Director'', ''Dop'',
      ''Driver'', ''Lop'', ''Manager'', ''Object'', ''Shop'', ''Sop'', ''Top'', ''TopNet'',
      ''Vop'', ''VopNet'']"
    by (simp add: CATEGORIES_def PREFIXES_def)
  show ?thesis
    by (simp only: cats list.map PREFIXES_table)
qed

section \<open>The rewrite of the index\<close>

lemma five_fields: "length row = 5 \<Longrightarrow> [row ! 0, row ! 1, row ! 2, row ! 3, row ! 4] = row"
  by (auto simp: list_eq_iff_nth_eq less_Suc_eq numeral_eq_Suc)

lemma kept_rows_five:
  "\<forall>r\<in>set rows. length r = 5 \<Longrightarrow> kept_rows u rows = filter (\<lambda>row. row ! 4 \<noteq> u) rows"
proof -
  assume five: "\<forall>r\<in>set rows. length r = 5"
  have "map (\<lambda>row. [row ! 0, row ! 1, row ! 2, row ! 3, row ! 4]) (filter (\<lambda>row. row ! 4 \<noteq> u) rows)
          = map (\<lambda>row. row) (filter (\<lambda>row. row ! 4 \<noteq> u) rows)"
    by (rule map_cong [OF refl]) (use five in \<open>simp only: five_fields set_filter mem_Collect_eq\<close>)
  then show ?thesis
    by (simp only: kept_rows_def map_ident)
qed

lemma kept_rows_simps:
  "kept_rows u [] = []"
  "kept_rows u (row # rest) =
     (if row ! 4 \<noteq> u then [row ! 0, row ! 1, row ! 2, row ! 3, row ! 4] # kept_rows u rest
      else kept_rows u rest)"
  by (simp_all add: kept_rows_def)

lemma rewrite_loop_ok:
  "\<forall>r\<in>set rows. 4 < length r \<Longrightarrow> shm_files w hex = Some written \<Longrightarrow>
     rewrite_loop u hex rows w
       = (Inr (), w\<lparr>shm_files := (shm_files w)(hex \<mapsto> written @ kept_rows u rows)\<rparr>)"
proof (induction rows arbitrary: w written)
  case Nil
  then have "(shm_files w)(hex \<mapsto> written) = shm_files w"
    by (simp add: fun_upd_idem)
  then show ?case by (simp add: kept_rows_simps)
next
  case (Cons row rest)
  let ?five = "[row ! 0, row ! 1, row ! 2, row ! 3, row ! 4]"
  let ?w = "w\<lparr>shm_files := (shm_files w)(hex \<mapsto> written @ [?five])\<rparr>"
  from Cons.prems have long: "\<not> length row \<le> 4" and rest: "\<forall>r\<in>set rest. 4 < length r"
    by simp_all
  show ?case
  proof (cases "row ! 4 \<noteq> u")
    case True
    have "rewrite_loop u hex (row # rest) w = rewrite_loop u hex rest ?w"
      using long True Cons.prems(2) by simp
    also have "\<dots> = (Inr (), ?w\<lparr>shm_files := (shm_files ?w)(hex \<mapsto> (written @ [?five]) @ kept_rows u rest)\<rparr>)"
      by (rule Cons.IH [OF rest]) simp
    also have "?w\<lparr>shm_files := (shm_files ?w)(hex \<mapsto> (written @ [?five]) @ kept_rows u rest)\<rparr>
                 = w\<lparr>shm_files := (shm_files w)(hex \<mapsto> written @ kept_rows u (row # rest))\<rparr>"
      using True by (simp add: kept_rows_simps)
    finally show ?thesis .
  next
    case False
    then have "rewrite_loop u hex (row # rest) w = rewrite_loop u hex rest w"
      using long by simp
    also have "\<dots> = (Inr (), w\<lparr>shm_files := (shm_files w)(hex \<mapsto> written @ kept_rows u rest)\<rparr>)"
      by (rule Cons.IH [OF rest Cons.prems(2)])
    also have "kept_rows u rest = kept_rows u (row # rest)"
      using False by (simp add: kept_rows_simps)
    finally show ?thesis .
  qed
qed

lemma rewrite_loop_fields:
  "category_dirs (snd (rewrite_loop u hex rows w)) = category_dirs w"
  "index_files (snd (rewrite_loop u hex rows w)) = index_files w"
  "content_files (snd (rewrite_loop u hex rows w)) = content_files w"
  "houdini_temp (snd (rewrite_loop u hex rows w)) = houdini_temp w"
  "clipboard (snd (rewrite_loop u hex rows w)) = clipboard w"
  "instances (snd (rewrite_loop u hex rows w)) = instances w"
  "next_oid (snd (rewrite_loop u hex rows w)) = next_oid w"
  by (induction rows arbitrary: w; simp)+

lemma rewrite_loop_outcome:
  "fst (rewrite_loop u hex rows w) = (if \<forall>r\<in>set rows. 4 < length r then Inr () else Inl IndexError)"
  by (induction rows arbitrary: w) (auto simp: not_less)

lemma rewrite_index_ok:
  assumes "index_files w c = Some rows" and "\<forall>r\<in>set rows. 4 < length r"
  shows "rewrite_index u hex c w
           = (Inr (), w\<lparr>shm_files := (shm_files w)(hex \<mapsto> kept_rows u rows),
                        index_files := (index_files w)(c \<mapsto> kept_rows u rows)\<rparr>)"
  using assms
  by (simp add: rewrite_index_def rewrite_loop_ok [where written = "[]"]
        copyfile_def copyfile_open_def copyfile_write_def)

lemma rewrite_index_error:
  assumes "index_files w c = Some rows" and "\<not> (\<forall>r\<in>set rows. 4 < length r)"
  shows "fst (rewrite_index u hex c w) = Inl IndexError"
    and "index_files (snd (rewrite_index u hex c w)) = index_files w"
proof -
  let ?r = "rewrite_loop u hex rows (w\<lparr>shm_files := (shm_files w)(hex \<mapsto> [])\<rparr>)"
  have "fst ?r = Inl IndexError"
    using assms(2) by (simp add: rewrite_loop_outcome)
  then obtain w' where r: "?r = (Inl IndexError, w')"
    by (cases ?r) auto
  then have "index_files w' = index_files w"
    using rewrite_loop_fields(2) [of u hex rows "w\<lparr>shm_files := (shm_files w)(hex \<mapsto> [])\<rparr>"]
    by simp
  with r assms(1) show "fst (rewrite_index u hex c w) = Inl IndexError"
    and "index_files (snd (rewrite_index u hex c w)) = index_files w"
    by (simp_all add: rewrite_index_def)
qed

section \<open>Facts about Snippet.delete\<close>

lemma warn_if_empty_fields:
  "category_dirs (snd (warn_if_empty E cfg c rows w)) = category_dirs w"
  "index_files (snd (warn_if_empty E cfg c rows w)) = index_files w"
  "content_files (snd (warn_if_empty E cfg c rows w)) = content_files w"
  "shm_files (snd (warn_if_empty E cfg c rows w)) = shm_files w"
  "houdini_temp (snd (warn_if_empty E cfg c rows w)) = houdini_temp w"
  "clipboard (snd (warn_if_empty E cfg c rows w)) = clipboard w"
  "instances (snd (warn_if_empty E cfg c rows w)) = instances w"
  "next_oid (snd (warn_if_empty E cfg c rows w)) = next_oid w"
  by (simp_all add: warn_if_empty_def Broadcast_all_fields)

lemma forget_remove1: "instances (forget self w) = remove1 self (instances w)"
  by (simp add: forget_def remove1_idem)

lemma forget_fields:
  "index_files (forget self w) = index_files w"
  "content_files (forget self w) = content_files w"
  "shm_files (forget self w) = shm_files w"
  "houdini_temp (forget self w) = houdini_temp w"
  "clipboard (forget self w) = clipboard w"
  by (simp_all add: forget_def)

lemma rewrite_index_Inr:
  assumes "rewrite_index u hex c w = (Inr (), w')"
  obtains rows where "index_files w c = Some rows" and "\<forall>r\<in>set rows. 4 < length r"
    and "w' = w\<lparr>shm_files := (shm_files w)(hex \<mapsto> kept_rows u rows),
                  index_files := (index_files w)(c \<mapsto> kept_rows u rows)\<rparr>"
proof (cases "index_files w c")
  case None
  with assms show ?thesis by (simp add: rewrite_index_def)
next
  case (Some rows)
  have long: "\<forall>r\<in>set rows. 4 < length r"
  proof (rule ccontr)
    assume "\<not> ?thesis"
    from rewrite_index_error(1) [OF Some this, of u hex] assms show False by simp
  qed
  from rewrite_index_ok [OF Some long, of u hex] assms
  have "w' = w\<lparr>shm_files := (shm_files w)(hex \<mapsto> kept_rows u rows),
                  index_files := (index_files w)(c \<mapsto> kept_rows u rows)\<rparr>"
    by simp
  with Some long show ?thesis by (rule that)
qed

lemma delete_Inr:
  assumes "delete E cfg self hex w = (Inr (), w')"
  obtains rows where "index_files (Config_call cfg w) (category self) = Some rows"
    and "\<forall>r\<in>set rows. 4 < length r"
    and "index_files w' = (index_files (Config_call cfg w))(category self \<mapsto> kept_rows (uuid self) rows)"
    and "content_files w' = (content_files w)((category self, uuid self) := None)"
    and "content_files w (category self, uuid self) \<noteq> None"
    and "instances w' = remove1 self (instances w)"
proof -
  let ?c = "category self" and ?u = "uuid self"
  let ?w1 = "Config_call cfg w"
  from assms obtain rows0 where rows0: "index_files ?w1 ?c = Some rows0"
    by (cases "index_files ?w1 ?c") (simp_all add: delete_def Let_def)
  obtain r2 w2 where warn: "warn_if_empty E cfg ?c rows0 ?w1 = (r2, w2)"
    by (cases "warn_if_empty E cfg ?c rows0 ?w1")
  from assms rows0 warn have r2: "r2 = Inr ()"
    by (cases r2) (simp_all add: delete_def Let_def)
  have w2: "index_files w2 = index_files ?w1" "content_files w2 = content_files w"
    "instances w2 = instances w"
    using warn_if_empty_fields [of E cfg ?c rows0 ?w1] warn
    by (simp_all add: Config_call_fields)
  obtain r4 w4 where rw: "rewrite_index ?u hex ?c w2 = (r4, w4)"
    by (cases "rewrite_index ?u hex ?c w2")
  from assms rows0 warn r2 rw have r4: "r4 = Inr ()"
    by (cases r4) (simp_all add: delete_def Let_def)
  from rw r4 obtain rows where rows: "index_files w2 ?c = Some rows"
    and long: "\<forall>r\<in>set rows. 4 < length r"
    and w4: "w4 = w2\<lparr>shm_files := (shm_files w2)(hex \<mapsto> kept_rows ?u rows),
                      index_files := (index_files w2)(?c \<mapsto> kept_rows ?u rows)\<rparr>"
    by (auto elim: rewrite_index_Inr)
  from assms rows0 warn r2 rw r4
  have content: "content_files w4 (?c, ?u) \<noteq> None"
    and w': "w' = forget self (unlink_shm hex (unlink_content (?c, ?u) w4))"
    by (cases "content_files w4 (?c, ?u)"; simp add: delete_def Let_def)+
  show ?thesis
  proof (rule that [of rows])
    show "index_files ?w1 ?c = Some rows" using rows w2 by simp
    show "\<forall>r\<in>set rows. 4 < length r" by (rule long)
    show "index_files w' = (index_files ?w1)(?c \<mapsto> kept_rows ?u rows)"
      by (simp add: w' w4 w2 forget_fields unlink_shm_def unlink_content_def)
    show "content_files w' = (content_files w)((?c, ?u) := None)"
      by (simp add: w' w4 w2 forget_fields unlink_shm_def unlink_content_def)
    show "content_files w (?c, ?u) \<noteq> None"
      using content by (simp add: w4 w2)
    show "instances w' = remove1 self (instances w)"
      by (simp add: w' w4 w2 forget_remove1 unlink_shm_def unlink_content_def)
  qed
qed

lemma delete_ok:
  assumes idx: "index_files w (category self) = Some rows"
    and nonempty: "rows \<noteq> []"
    and long: "\<forall>r\<in>set rows. 4 < length r"
    and content: "content_files w (category self, uuid self) = Some bytes"
  shows "fst (delete E cfg self hex w) = Inr ()"
proof -
  let ?c = "category self" and ?u = "uuid self"
  let ?w1 = "Config_call cfg w"
  have idx1: "index_files ?w1 ?c = Some rows"
    using idx by (rule Config_call_index_Some)
  have warn: "warn_if_empty E cfg ?c rows ?w1 = (Inr (), ?w1)"
    using nonempty by (simp add: warn_if_empty_def)
  have "content_files ?w1 (?c, ?u) = Some bytes"
    using content by (simp add: Config_call_fields)
  then show ?thesis
    by (simp add: delete_def Let_def idx1 warn rewrite_index_ok [OF idx1 long])
qed

lemma kept_rows_identifier: "r \<in> set (kept_rows u rows) \<Longrightarrow> r ! 4 \<noteq> u"
  by (auto simp: kept_rows_def)

lemma outcome_eq: "fst r = Inr () \<Longrightarrow> r = (Inr (), snd r)"
  by (cases r) simp

lemma catalog_world_facts:
  "index_files (catalog_world rows loaded) ''Sop'' = Some rows"
  "content_files (catalog_world rows loaded) = sop_contents"
  "instances (catalog_world rows loaded) = loaded"
  by (simp_all add: catalog_world_def sop_world_def)

section \<open>The states of a run of Snippet.delete\<close>

lemma rewrite_states_index:
  "v \<in> set (rewrite_states u hex rows w) \<Longrightarrow> index_files v = index_files w"
  by (induction rows arbitrary: w) (auto simp: Let_def split: if_splits)

lemma last_Cons_Cons: "last (x # y # zs) = last (y # zs)"
  by simp

lemma last_single: "last [x] = x"
  by simp

lemma rewrite_states_last:
  "last (w # rewrite_states u hex rows w) = snd (rewrite_loop u hex rows w)"
  by (induction rows arbitrary: w)
     (simp_all add: Let_def last_Cons_Cons last_single del: last.simps)

lemma rewrite_loop_Inr:
  assumes "rewrite_loop u hex rows w = (Inr (), w')" and "shm_files w hex = Some written"
  shows "w' = w\<lparr>shm_files := (shm_files w)(hex \<mapsto> written @ kept_rows u rows)\<rparr>"
proof -
  have "\<forall>r\<in>set rows. 4 < length r"
    using rewrite_loop_outcome [of u hex rows w] assms(1) by (simp split: if_splits)
  from rewrite_loop_ok [OF this assms(2), of u] assms(1) show ?thesis
    by simp
qed

lemma delete_states_phases:
  assumes idx: "index_files w (category self) = Some rows"
  shows "\<exists>before after.
           delete_states E cfg self hex w = before @ after
           \<and> (\<forall>v\<in>set before. index_files v (category self) = Some rows)
           \<and> (after = [] \<or>
                index_files (hd after) (category self) = Some []
                \<and> (\<forall>v\<in>set (tl after).
                      index_files v (category self) = Some (kept_rows (uuid self) rows)))"
proof -
  let ?c = "category self" and ?u = "uuid self"
  let ?w1 = "Config_call cfg w"
  have idx1: "index_files ?w1 ?c = Some rows"
    using idx by (rule Config_call_index_Some)
  obtain r2 w2 where warn: "warn_if_empty E cfg ?c rows ?w1 = (r2, w2)"
    by (cases "warn_if_empty E cfg ?c rows ?w1")
  have idx2: "index_files w2 ?c = Some rows"
    using warn_if_empty_fields(2) [of E cfg ?c rows ?w1] warn idx1 by simp
  show ?thesis
  proof (cases r2)
    case (Inl e)
    then have "delete_states E cfg self hex w = [w, ?w1, w2] @ []"
      by (simp add: delete_states_def Let_def idx1 warn)
    moreover have "\<forall>v\<in>set [w, ?w1, w2]. index_files v ?c = Some rows"
      using idx idx1 idx2 by simp
    ultimately show ?thesis by blast
  next
    case (Inr x)
    let ?wo = "w2\<lparr>shm_files := (shm_files w2)(hex \<mapsto> [])\<rparr>"
    let ?before = "[w, ?w1, w2, ?wo] @ rewrite_states ?u hex rows ?wo"
    have before: "\<forall>v\<in>set ?before. index_files v ?c = Some rows"
      using idx idx1 idx2 by (auto dest: rewrite_states_index)
    obtain r3 w3 where loop: "rewrite_loop ?u hex rows ?wo = (r3, w3)"
      by (cases "rewrite_loop ?u hex rows ?wo")
    show ?thesis
    proof (cases r3)
      case (Inl e)
      then have "delete_states E cfg self hex w = ?before @ []"
        using Inr by (simp add: delete_states_def Let_def idx1 warn idx2 loop)
      with before show ?thesis by blast
    next
      case loop_ok: (Inr y)
      have w3: "w3 = ?wo\<lparr>shm_files := (shm_files ?wo)(hex \<mapsto> [] @ kept_rows ?u rows)\<rparr>"
        by (rule rewrite_loop_Inr [where rows = rows and u = ?u]) (use loop loop_ok in simp_all)
      let ?we = "copyfile_open ?c w3"
      let ?w4 = "copyfile_write hex ?c ?we"
      let ?w5 = "unlink_content (?c, ?u) ?w4"
      let ?w6 = "unlink_shm hex ?w5"
      have emptied: "index_files ?we ?c = Some []"
        by (simp add: copyfile_open_def)
      have new: "index_files ?w4 ?c = Some (kept_rows ?u rows)"
        "index_files ?w5 ?c = Some (kept_rows ?u rows)"
        "index_files ?w6 ?c = Some (kept_rows ?u rows)"
        "index_files (forget self ?w6) ?c = Some (kept_rows ?u rows)"
        by (simp_all add: w3 copyfile_open_def copyfile_write_def unlink_content_def
              unlink_shm_def forget_fields)
      show ?thesis
      proof (cases "content_files ?w4 (?c, ?u)")
        case None
        then have "delete_states E cfg self hex w = ?before @ [?we, ?w4]"
          using Inr loop_ok by (simp add: delete_states_def Let_def idx1 warn idx2 loop)
        moreover have "index_files (hd [?we, ?w4]) ?c = Some []
            \<and> (\<forall>v\<in>set (tl [?we, ?w4]). index_files v ?c = Some (kept_rows ?u rows))"
          using emptied new by simp
        ultimately show ?thesis using before by blast
      next
        case (Some bytes)
        then have "delete_states E cfg self hex w = ?before @ [?we, ?w4, ?w5, ?w6, forget self ?w6]"
          using Inr loop_ok by (simp add: delete_states_def Let_def idx1 warn idx2 loop)
        moreover have "index_files (hd [?we, ?w4, ?w5, ?w6, forget self ?w6]) ?c = Some []
            \<and> (\<forall>v\<in>set (tl [?we, ?w4, ?w5, ?w6, forget self ?w6]).
                  index_files v ?c = Some (kept_rows ?u rows))"
          using emptied new by simp
        ultimately show ?thesis using before by blast
      qed
    qed
  qed
qed

lemma last_before_copy:
  "last ([w, w1, w2, wo] @ rewrite_states u hex rows wo) = snd (rewrite_loop u hex rows wo)"
proof -
  have "last ([w, w1, w2, wo] @ rewrite_states u hex rows wo)
          = last (wo # rewrite_states u hex rows wo)"
    by (simp del: last.simps add: last_Cons_Cons)
  then show ?thesis
    by (simp only: rewrite_states_last)
qed

lemma delete_states_last:
  "last (delete_states E cfg self hex w) = snd (delete E cfg self hex w)"
proof -
  let ?c = "category self" and ?u = "uuid self"
  let ?w1 = "Config_call cfg w"
  show ?thesis
  proof (cases "index_files ?w1 ?c")
    case None
    then show ?thesis
      by (simp add: delete_states_def delete_def Let_def)
  next
    case (Some rows0)
    obtain r2 w2 where warn: "warn_if_empty E cfg ?c rows0 ?w1 = (r2, w2)"
      by (cases "warn_if_empty E cfg ?c rows0 ?w1")
    show ?thesis
    proof (cases r2)
      case (Inl e)
      then show ?thesis
        by (simp add: delete_states_def delete_def Let_def Some warn)
    next
      case warned: (Inr x)
      show ?thesis
      proof (cases "index_files w2 ?c")
        case None
        then show ?thesis
          using warned by (simp add: delete_states_def delete_def rewrite_index_def Let_def Some warn)
      next
        case rows: (Some rows)
        let ?wo = "w2\<lparr>shm_files := (shm_files w2)(hex \<mapsto> [])\<rparr>"
        obtain r3 w3 where loop: "rewrite_loop ?u hex rows ?wo = (r3, w3)"
          by (cases "rewrite_loop ?u hex rows ?wo")
        have before: "last ([w, ?w1, w2, ?wo] @ rewrite_states ?u hex rows ?wo) = w3"
          using last_before_copy [of w ?w1 w2 ?wo ?u hex rows] loop by simp
        show ?thesis
        proof (cases r3)
          case (Inl e)
          then show ?thesis
            using warned before
            by (simp add: delete_states_def delete_def rewrite_index_def Let_def Some warn rows loop
                  del: append.simps last.simps)
        next
          case (Inr y)
          then show ?thesis
            using warned
            by (cases "content_files (copyfile hex ?c w3) (?c, ?u)")
               (simp_all add: delete_states_def delete_def rewrite_index_def Let_def Some warn rows
                  loop copyfile_def)
        qed
      qed
    qed
  qed
qed

lemma delete_states_ok:
  assumes idx: "index_files w (category self) = Some rows"
    and nonempty: "rows \<noteq> []"
    and long: "\<forall>r\<in>set rows. 4 < length r"
    and content: "content_files w (category self, uuid self) = Some bytes"
  shows "delete_states E cfg self hex w =
           (let w1 = Config_call cfg w;
                wo = w1\<lparr>shm_files := (shm_files w1)(hex \<mapsto> [])\<rparr>;
                w3 = wo\<lparr>shm_files := (shm_files wo)(hex \<mapsto> kept_rows (uuid self) rows)\<rparr>;
                we = copyfile_open (category self) w3;
                w4 = copyfile_write hex (category self) we;
                w5 = unlink_content (category self, uuid self) w4;
                w6 = unlink_shm hex w5
            in [w, w1, w1, wo] @ rewrite_states (uuid self) hex rows wo
                 @ [we, w4, w5, w6, forget self w6])"
proof -
  let ?c = "category self" and ?u = "uuid self"
  let ?w1 = "Config_call cfg w"
  let ?wo = "?w1\<lparr>shm_files := (shm_files ?w1)(hex \<mapsto> [])\<rparr>"
  have idx1: "index_files ?w1 ?c = Some rows"
    using idx by (rule Config_call_index_Some)
  have warn: "warn_if_empty E cfg ?c rows ?w1 = (Inr (), ?w1)"
    using nonempty by (simp add: warn_if_empty_def)
  have loop: "rewrite_loop ?u hex rows ?wo
                = (Inr (), ?wo\<lparr>shm_files := (shm_files ?wo)(hex \<mapsto> [] @ kept_rows ?u rows)\<rparr>)"
    by (rule rewrite_loop_ok [OF long]) simp
  have "content_files ?w1 (?c, ?u) = Some bytes"
    using content by (simp add: Config_call_fields)
  then show ?thesis
    by (simp add: delete_states_def Let_def idx1 warn loop copyfile_open_def copyfile_write_def)
qed

lemma delete_index_after:
  assumes "index_files w (category self) = Some rows"
    and "fst (delete E cfg self hex w) = Inr ()"
  shows "index_files (snd (delete E cfg self hex w)) (category self)
           = Some (kept_rows (uuid self) rows)"
proof -
  from assms(2) have "delete E cfg self hex w = (Inr (), snd (delete E cfg self hex w))"
    by (rule outcome_eq)
  then obtain rows' where "index_files (Config_call cfg w) (category self) = Some rows'"
    and "index_files (snd (delete E cfg self hex w))
           = (index_files (Config_call cfg w))(category self \<mapsto> kept_rows (uuid self) rows')"
    by (rule delete_Inr)
  then show ?thesis
    using Config_call_index_Some [OF assms(1), of cfg] by simp
qed

lemma snippet_noise_facts:
  "category snippet_noise = ''Sop''" "uuid snippet_noise = ''0c2d''"
  by (simp_all add: snippet_noise_def)

lemma kept_rows_noise: "kept_rows ''0c2d'' [row_blur, row_noise] = [row_blur]"
  by (simp add: kept_rows_simps row_blur_def row_noise_def)

lemma rewrite_states_noise:
  "length (rewrite_states (uuid snippet_noise) hex [row_blur, row_noise] w) = 1"
  by (simp add: snippet_noise_facts row_blur_def row_noise_def Let_def)

lemma sixth_state:
  "length mid = 1 \<Longrightarrow> ([a, b, c, d] @ mid @ e # rest) ! 5 = e"
  "length mid = 1 \<Longrightarrow> 5 < length ([a, b, c, d] @ mid @ e # rest)"
  by (cases mid; simp)+

lemma delete_noise_ok:
  "fst (delete E cfg snippet_noise hex (catalog_world [row_blur, row_noise] loaded)) = Inr ()"
  by (rule delete_ok [where rows = "[row_blur, row_noise]" and bytes = "Gzip ''cpio noise''"])
     (simp_all add: catalog_world_facts snippet_noise_facts row_blur_def row_noise_def
        sop_contents_def)

section \<open>Broadcasting and the workflows\<close>

lemma notify_params_Some:
  "severity \<le> 4 \<Longrightarrow> \<exists>urgency icon. notify_params severity = Some (urgency, icon)"
  by (simp add: notify_params_def) arith

lemma Broadcast_all_outcome:
  assumes "severity \<le> 4" and "notify_params severity = Some (urgency, icon)"
  shows "fst (Broadcast_all E msg severity w)
           = (if notify_rc E (notify_cmd urgency icon msg) = 0 then Inr ()
              else Inl CalledProcessError)"
  using assms
  by (simp add: Broadcast_all_def Broadcast_stdout_def Broadcast_status_msg_def
        Broadcast_notify_send_def severity_names_def Let_def)

lemma Broadcast_all_fails:
  "severity \<le> 4 \<Longrightarrow> \<forall>cmd. notify_rc E cmd \<noteq> 0 \<Longrightarrow>
     fst (Broadcast_all E msg severity w) = Inl CalledProcessError"
  using notify_params_Some [of severity] by (auto simp: Broadcast_all_outcome)

lemma Broadcast_all_stdout:
  "severity \<le> 4 \<Longrightarrow>
     stdout (snd (Broadcast_all E msg severity w))
       = stdout w @ [''houclip: '' @ severity_names ! severity @ '' '' @ msg]"
  by (simp add: Broadcast_all_def Broadcast_stdout_def Broadcast_status_msg_def
        Broadcast_notify_send_def severity_names_def Let_def split: option.splits prod.splits)

lemma Python_valid: "''Python'' \<in> set (CATEGORIES @ LANGUAGES)"
  by (simp add: LANGUAGES_def)

lemma get_snippet_empty_category:
  assumes "rstrip choice = c" "c \<noteq> []" "c \<in> set (CATEGORIES @ LANGUAGES)" "index_files w c = None"
  shows "get_snippet E cfg choice selected w
           = Broadcast_all E CAT_EMPTY 0 (purge (Config_call cfg w))"
proof -
  have "index_files (Config_call cfg w) c = Some []"
    using assms(3,4) by (simp add: Config_call_index)
  then show ?thesis
    using assms(1,2) by (simp add: get_snippet_def Let_def purge_def)
qed

lemma rstrip_Python: "rstrip ''Python'' = ''Python''"
  by (simp add: rstrip_def py_whitespace_def)

lemma valid_category_nonempty: "c \<in> set (CATEGORIES @ LANGUAGES) \<Longrightarrow> c \<noteq> []"
  using CATEGORIES_nonempty LANGUAGES_nonempty by auto

lemma purge_fields:
  "index_files (purge w) = index_files w"
  "content_files (purge w) = content_files w"
  "shm_files (purge w) = shm_files w"
  "houdini_temp (purge w) = houdini_temp w"
  "clipboard (purge w) = clipboard w"
  "instances (purge w) = []"
  "stdout (purge w) = stdout w"
  by (simp_all add: purge_def)

lemma del_snippet_listed_missing:
  "index_files w c = None \<Longrightarrow>
     del_snippet_listed E cfg c selected hex w = Broadcast_all E CSV_MISSING 4 (purge w)"
  by (simp add: del_snippet_listed_def Let_def purge_fields)

lemma del_snippet_listed_empty:
  "index_files w c = Some [] \<Longrightarrow>
     del_snippet_listed E cfg c selected hex w = Broadcast_all E CAT_EMPTY 0 (purge w)"
  by (simp add: del_snippet_listed_def Let_def purge_fields)

lemma del_snippet_created_index:
  assumes "strip choice = c" and "c \<in> set (CATEGORIES @ LANGUAGES)" and "index_files w c = None"
  shows "del_snippet E cfg choice selected hex w
           = Broadcast_all E CAT_EMPTY 0 (purge (Config_call cfg w))"
proof -
  have "index_files (Config_call cfg w) c = Some []"
    using assms(2,3) by (simp add: Config_call_index)
  then have "del_snippet_listed E cfg c selected hex (Config_call cfg w)
               = Broadcast_all E CAT_EMPTY 0 (purge (Config_call cfg w))"
    by (rule del_snippet_listed_empty)
  then show ?thesis
    using assms(1,2) valid_category_nonempty [OF assms(2)]
    by (simp add: del_snippet_def Let_def)
qed

lemma strip_Sop: "strip ''Sop'' = ''Sop''"
  by (simp add: strip_def lstrip_def rstrip_def py_whitespace_def)

lemma Sop_valid: "''Sop'' \<in> set (CATEGORIES @ LANGUAGES)"
  by (simp add: CATEGORIES_cases)

lemma lost_index_world_facts:
  "index_files lost_index_world c = None"
  "content_files lost_index_world = sop_contents"
  by (simp_all add: lost_index_world_def empty_world_def)

section \<open>The Create workflows\<close>

lemma first_node_category_nonempty: "first_node_category selection = Some c \<Longrightarrow> selection \<noteq> []"
  by (cases selection) simp_all

lemma is_selection_valid_ok:
  assumes "hou_present E" "first_node_category selection = Some c" "c \<in> set CATEGORIES"
  shows "is_selection_valid E selection w = (Inr True, w)"
    and "determine_category E selection w = (Inr (Some c), w)"
  using assms first_node_category_nonempty [OF assms(2)]
  by (simp_all add: is_selection_valid_def determine_category_def)

lemma Config_call_twice_index:
  "index_files (Config_call cfg (Config_call cfg w)) = index_files (Config_call cfg w)"
  by (rule ext) (simp add: Config_call_index)

lemma Config_call_old_rows:
  "c \<in> set (CATEGORIES @ LANGUAGES) \<Longrightarrow>
     (case index_files (Config_call cfg w) c of None \<Rightarrow> [] | Some rows \<Rightarrow> rows)
       = (case index_files w c of None \<Rightarrow> [] | Some rows \<Rightarrow> rows)"
  by (simp add: Config_call_index split: option.splits)

lemma add_to_list_index:
  assumes "carriage_return \<notin> set (description s)"
    and "carriage_return \<notin> set (join '','' (tags s))"
  shows "index_files (add_to_list E cfg s w) =
     (index_files (Config_call cfg w))(category s \<mapsto>
        (case index_files (Config_call cfg w) (category s) of None \<Rightarrow> [] | Some rows \<Rightarrow> rows)
          @ [[description s, join '','' (tags s), category s, prefix s, uuid s]])"
  using assms by (simp add: add_to_list_def Let_def Config_call_fields Config_call_twice_index)

lemma add_to_list_carriage_return:
  assumes "carriage_return \<in> set (description s) \<or> carriage_return \<in> set (join '','' (tags s))"
  shows "index_files (add_to_list E cfg s w) (category s) =
     Some ((case index_files (Config_call cfg w) (category s) of None \<Rightarrow> [] | Some rows \<Rightarrow> rows)
             @ csv_read_back E [description s, join '','' (tags s), category s, prefix s, uuid s])"
  using assms by (auto simp: add_to_list_def Let_def Config_call_fields Config_call_twice_index)

lemma add_to_list_fields:
  "content_files (add_to_list E cfg s w) = content_files w"
  "houdini_temp (add_to_list E cfg s w) = houdini_temp w"
  "clipboard (add_to_list E cfg s w) = clipboard w"
  "instances (add_to_list E cfg s w) = instances w"
  "houdini_temp_dir (add_to_list E cfg s w) = houdini_temp_dir w"
  "next_oid (add_to_list E cfg s w) = next_oid w"
  by (simp_all add: add_to_list_def Let_def Config_call_fields)

lemma Config_call_update_index:
  "index_files (Config_call cfg (w\<lparr>content_files := f\<rparr>)) = index_files (Config_call cfg w)"
  "index_files (Config_call cfg (w\<lparr>houdini_temp := h\<rparr>)) = index_files (Config_call cfg w)"
  "index_files (Config_call cfg (w\<lparr>instances := i, next_oid := n\<rparr>)) = index_files (Config_call cfg w)"
  "index_files (Config_call cfg (w\<lparr>clipboard := b\<rparr>)) = index_files (Config_call cfg w)"
  "index_files (Config_call cfg (w\<lparr>houdini_temp_dir := e\<rparr>)) = index_files (Config_call cfg w)"
  by (rule ext, simp add: Config_call_index)+

lemma store_and_list_run:
  assumes "houdini_temp_file w (cpio_name (prefix s)) = Some payload"
  shows "store_and_list E cfg s w
           = Broadcast_all E SNIPPET_ADDED 0
               (add_to_list E cfg s ((Config_call cfg w)\<lparr>content_files :=
                  (content_files (Config_call cfg w))((category s, uuid s) \<mapsto> Gzip payload)\<rparr>))"
  using assms by (simp add: store_and_list_def OpSnippet_store_in_repo_def Let_def)

lemma store_and_list_index:
  assumes "houdini_temp_file w (cpio_name (prefix s)) = Some payload"
    and "carriage_return \<notin> set (description s)"
    and "carriage_return \<notin> set (join '','' (tags s))"
  shows "index_files (snd (store_and_list E cfg s w)) =
     (index_files (Config_call cfg w))(category s \<mapsto>
        (case index_files (Config_call cfg w) (category s) of None \<Rightarrow> [] | Some rows \<Rightarrow> rows)
          @ [[description s, join '','' (tags s), category s, prefix s, uuid s]])"
  using assms(2,3)
  by (simp add: store_and_list_run [OF assms(1)] Broadcast_all_fields add_to_list_index
        Config_call_update_index Config_call_twice_index)

lemma store_and_list_fields:
  assumes "houdini_temp_file w (cpio_name (prefix s)) = Some payload"
  shows "content_files (snd (store_and_list E cfg s w))
           = (content_files w)((category s, uuid s) \<mapsto> Gzip payload)"
    and "instances (snd (store_and_list E cfg s w)) = instances w"
    and "houdini_temp_dir (snd (store_and_list E cfg s w)) = houdini_temp_dir w"
    and "houdini_temp (snd (store_and_list E cfg s w)) = houdini_temp w"
    and "(\<forall>cmd. notify_rc E cmd = 0) \<longrightarrow> fst (store_and_list E cfg s w) = Inr ()"
  by (simp_all add: store_and_list_run [OF assms] Broadcast_all_fields add_to_list_fields
        Config_call_fields Broadcast_all_ok)

lemma store_and_list_instances:
  "instances (snd (store_and_list E cfg s w)) = instances w"
proof (cases "houdini_temp_file w (cpio_name (prefix s))")
  case None
  have "instances (snd (Broadcast_all E (SOURCE_MISSING @ '': '' @ cpio_path E (prefix s)) 3 w))
          = instances w"
    by (rule Broadcast_all_fields)
  with None show ?thesis
    by (auto simp: store_and_list_def OpSnippet_store_in_repo_def raise_after_def
          split: prod.splits sum.splits)
next
  case (Some payload)
  then show ?thesis
    by (rule store_and_list_fields(2))
qed

lemma add_op_snippet_run:
  assumes hou: "hou_present E" and sel: "first_node_category selection = Some c"
    and c: "c \<in> set CATEGORIES" and p: "PREFIXES_get c = Some (Some p)" and d: "d \<noteq> []"
  shows "add_op_snippet E cfg selection host_file d t hex w =
           (let w3 = host_copy host_file (Config_call cfg w);
                s = \<lparr>oid = next_oid w3, cls = OpSnippet, description = d, tags = set_tags t,
                     category = c, prefix = p, uuid = hex\<rparr>
            in store_and_list E cfg s (w3\<lparr>instances := instances w3 @ [s], next_oid := Suc (next_oid w3)\<rparr>))"
  using new_OpSnippet_registry [OF c p d]
  by (simp add: add_op_snippet_def hou is_selection_valid_ok [OF hou sel c] p fstring_of_def d
        construct_def Let_def)

lemma host_copy_fields:
  "instances (host_copy host_file w) = instances w"
  "next_oid (host_copy host_file w) = next_oid w"
  "content_files (host_copy host_file w) = content_files w"
  "index_files (host_copy host_file w) = index_files w"
  by (simp_all add: host_copy_def split: option.splits prod.splits)

lemma add_op_snippet_stored:
  assumes hou: "hou_present E" and sel: "first_node_category selection = Some c"
    and c: "c \<in> set CATEGORIES" and p: "PREFIXES_get c = Some (Some p)" and d: "d \<noteq> []"
  shows "carriage_return \<notin> set d \<Longrightarrow> carriage_return \<notin> set (join '','' (set_tags t)) \<Longrightarrow>
         index_files (snd (add_op_snippet E cfg selection (Some (cpio_name p, payload)) d t hex w))
           = (index_files (Config_call cfg w))(c \<mapsto>
               (case index_files w c of None \<Rightarrow> [] | Some rows \<Rightarrow> rows)
                 @ [[d, join '','' (set_tags t), c, p, hex]])"
    and "content_files (snd (add_op_snippet E cfg selection (Some (cpio_name p, payload)) d t hex w))
           = (content_files w)((c, hex) \<mapsto> Gzip payload)"
    and "(\<forall>cmd. notify_rc E cmd = 0) \<longrightarrow>
           fst (add_op_snippet E cfg selection (Some (cpio_name p, payload)) d t hex w) = Inr ()"
    and "houdini_temp_dir (snd (add_op_snippet E cfg selection (Some (cpio_name p, payload)) d t hex w))"
proof -
  let ?w3 = "host_copy (Some (cpio_name p, payload)) (Config_call cfg w)"
  let ?s = "\<lparr>oid = next_oid ?w3, cls = OpSnippet, description = d, tags = set_tags t,
              category = c, prefix = p, uuid = hex\<rparr>"
  let ?w4 = "?w3\<lparr>instances := instances ?w3 @ [?s], next_oid := Suc (next_oid ?w3)\<rparr>"
  have run: "add_op_snippet E cfg selection (Some (cpio_name p, payload)) d t hex w
               = store_and_list E cfg ?s ?w4"
    using add_op_snippet_run [OF assms, of cfg "Some (cpio_name p, payload)" t hex w]
    by (simp only: Let_def)
  have temp: "houdini_temp_file ?w4 (cpio_name (prefix ?s)) = Some payload"
    by (simp add: host_copy_def houdini_temp_file_def)
  have idx4: "index_files (Config_call cfg ?w4) = index_files (Config_call cfg w)"
    by (simp add: host_copy_def Config_call_update_index Config_call_twice_index)
  have old: "(case index_files (Config_call cfg w) c of None \<Rightarrow> [] | Some rows \<Rightarrow> rows)
               = (case index_files w c of None \<Rightarrow> [] | Some rows \<Rightarrow> rows)"
    using c by (simp add: Config_call_old_rows)
  have cont4: "content_files ?w4 = content_files w"
    by (simp add: host_copy_def Config_call_fields)
  have dir4: "houdini_temp_dir ?w4"
    by (simp add: host_copy_def)
  show "carriage_return \<notin> set d \<Longrightarrow> carriage_return \<notin> set (join '','' (set_tags t)) \<Longrightarrow>
         index_files (snd (add_op_snippet E cfg selection (Some (cpio_name p, payload)) d t hex w))
           = (index_files (Config_call cfg w))(c \<mapsto>
               (case index_files w c of None \<Rightarrow> [] | Some rows \<Rightarrow> rows)
                 @ [[d, join '','' (set_tags t), c, p, hex]])"
    using store_and_list_index [OF temp, of E cfg] by (simp add: run idx4 old)
  show "content_files (snd (add_op_snippet E cfg selection (Some (cpio_name p, payload)) d t hex w))
           = (content_files w)((c, hex) \<mapsto> Gzip payload)"
    using store_and_list_fields(1) [OF temp, of E cfg] by (simp add: run cont4)
  show "(\<forall>cmd. notify_rc E cmd = 0) \<longrightarrow>
           fst (add_op_snippet E cfg selection (Some (cpio_name p, payload)) d t hex w) = Inr ()"
    using store_and_list_fields(5) [OF temp, of E cfg] by (simp add: run)
  show "houdini_temp_dir (snd (add_op_snippet E cfg selection (Some (cpio_name p, payload)) d t hex w))"
    using store_and_list_fields(3) [OF temp, of E cfg] dir4 by (simp only: run)
qed

lemma add_op_snippet_instances:
  assumes hou: "hou_present E" and sel: "first_node_category selection = Some c"
    and c: "c \<in> set CATEGORIES" and p: "PREFIXES_get c = Some (Some p)" and d: "d \<noteq> []"
  shows "instances (snd (add_op_snippet E cfg selection host_file d t hex w))
           = instances w @ [\<lparr>oid = next_oid w, cls = OpSnippet, description = d, tags = set_tags t,
                              category = c, prefix = p, uuid = hex\<rparr>]"
  by (simp add: add_op_snippet_run [OF assms] Let_def store_and_list_instances host_copy_fields
        Config_call_fields)

lemma join_chars: "set (join sep xs) \<subseteq> set sep \<union> \<Union> (set ` set xs)"
  by (induction sep xs rule: join.induct) auto

lemma split_on_chars: "\<forall>piece\<in>set (split_on c s). set piece \<subseteq> set s"
  by (induction s) (fastforce split: list.splits if_splits)+

lemma dropWhile_chars: "set (dropWhile P xs) \<subseteq> set xs"
  by (auto dest: set_dropWhileD)

lemma strip_chars: "set (strip s) \<subseteq> set s"
  using dropWhile_chars [of py_whitespace "rev (dropWhile py_whitespace s)"]
    dropWhile_chars [of py_whitespace s]
  by (auto simp: strip_def lstrip_def rstrip_def)

lemma set_tags_chars: "set (join '','' (set_tags t)) \<subseteq> insert (CHR '','') (set t)"
proof -
  have "\<Union> (set ` set (set_tags t)) \<subseteq> set t"
    using strip_chars split_on_chars [of "CHR '',''" t] by (fastforce simp: set_tags_def)
  moreover have "set (join '','' (set_tags t)) \<subseteq> {CHR '',''} \<union> \<Union> (set ` set (set_tags t))"
    using join_chars [of "'',''" "set_tags t"] by simp
  ultimately show ?thesis
    by blast
qed

lemma set_tags_no_carriage_return:
  "carriage_return \<notin> set t \<Longrightarrow> carriage_return \<notin> set (join '','' (set_tags t))"
  using set_tags_chars [of t] by (auto simp: carriage_return_def)

lemma set_tags_util_blur: "set_tags ''util, blur'' = [''blur'', ''util'']"
  by (simp add: set_tags_def strip_def lstrip_def rstrip_def py_whitespace_def)

lemma Sop_structural: "''Sop'' \<in> set CATEGORIES"
  by (simp add: CATEGORIES_cases)

section \<open>Loading an index\<close>

lemma loads_new_snippet:
  "loads pick item \<Longrightarrow>
     new_snippet (pick item) i (item ! 0) (item ! 1) (item ! 2) (Some (item ! 3)) (item ! 4)
       = Inr (loaded_from (pick item) i item)"
  by (cases "pick item")
     (auto simp: loads_def new_snippet_def set_description_def set_category_def set_prefix_def
        loaded_from_def CATEGORIES_nonempty LANGUAGES_nonempty)

lemma construct_loads:
  "loads pick item \<Longrightarrow>
     construct (pick item) (item ! 0) (item ! 1) (item ! 2) (Some (item ! 3)) (item ! 4) w
       = (Inr (loaded_from (pick item) (next_oid w) item),
          w\<lparr>instances := instances w @ [loaded_from (pick item) (next_oid w) item],
            next_oid := Suc (next_oid w)\<rparr>)"
  by (simp add: construct_def loads_new_snippet del: One_nat_def)

lemma load_rows_ok:
  "\<forall>r\<in>set rows. loads pick r \<Longrightarrow>
     load_rows pick rows w
       = (Inr (), w\<lparr>instances := instances w @ loaded_list pick (next_oid w) rows,
                    next_oid := next_oid w + length rows\<rparr>)"
proof (induction rows arbitrary: w)
  case Nil
  show ?case by simp
next
  case (Cons item rest)
  let ?s = "loaded_from (pick item) (next_oid w) item"
  let ?w = "w\<lparr>instances := instances w @ [?s], next_oid := Suc (next_oid w)\<rparr>"
  from Cons.prems have item: "loads pick item" and rest: "\<forall>r\<in>set rest. loads pick r"
    by simp_all
  from item have long: "\<not> length item \<le> 4"
    by (simp add: loads_def)
  have "load_rows pick (item # rest) w = load_rows pick rest ?w"
    using long by (simp add: construct_loads [OF item] del: One_nat_def)
  also have "\<dots> = (Inr (), ?w\<lparr>instances := instances ?w @ loaded_list pick (next_oid ?w) rest,
                              next_oid := next_oid ?w + length rest\<rparr>)"
    by (rule Cons.IH [OF rest])
  also have "?w\<lparr>instances := instances ?w @ loaded_list pick (next_oid ?w) rest,
                 next_oid := next_oid ?w + length rest\<rparr>
               = w\<lparr>instances := instances w @ loaded_list pick (next_oid w) (item # rest),
                    next_oid := next_oid w + length (item # rest)\<rparr>"
    by simp
  finally show ?case .
qed

lemma loaded_list_descriptions:
  "map description (loaded_list pick i rows) = map (\<lambda>r. r ! 0) rows"
  by (induction rows arbitrary: i) (simp_all add: loaded_from_def)

lemma loaded_list_empty: "loaded_list pick i rows = [] \<longleftrightarrow> rows = []"
  by (cases rows) simp_all

lemma get_by_description_loaded_last:
  "\<forall>r\<in>set old. r ! 0 \<noteq> d \<Longrightarrow> item ! 0 = d \<Longrightarrow>
     get_by_description (loaded_list pick i (old @ [item])) d
       = Some (loaded_from (pick item) (i + length old) item)"
  by (induction old arbitrary: i) (simp_all add: loaded_from_def)

lemma get_by_description_loaded_None:
  "d \<notin> (\<lambda>r. r ! 0) ` set rows \<Longrightarrow> get_by_description (loaded_list pick i rows) d = None"
proof -
  assume "d \<notin> (\<lambda>r. r ! 0) ` set rows"
  then have "d \<notin> set (map description (loaded_list pick i rows))"
    by (simp add: loaded_list_descriptions)
  then show ?thesis
    by (simp add: get_by_description_None)
qed

lemma load_rows_purged:
  assumes "\<forall>r\<in>set rows. loads pick r"
  shows "load_rows pick rows (purge w)
           = (Inr (), w\<lparr>instances := loaded_list pick (next_oid w) rows,
                        next_oid := next_oid w + length rows\<rparr>)"
  using load_rows_ok [OF assms, of "purge w"] by (simp add: purge_def)

lemma get_snippet_loaded:
  assumes idx: "index_files w c = Some rows" and choice: "rstrip choice = c" and c: "c \<noteq> []"
    and loadable: "\<forall>r\<in>set rows. loads pick_by_row r" and rows: "rows \<noteq> []"
    and selected: "selected \<noteq> []"
  shows "get_snippet E cfg choice selected w =
           (let w2 = (Config_call cfg w)\<lparr>instances := loaded_list pick_by_row (next_oid w) rows,
                                         next_oid := next_oid w + length rows\<rparr>
            in case get_by_description (loaded_list pick_by_row (next_oid w) rows)
                      (chosen_description selected) of
                 None \<Rightarrow> (Inl AttributeError, w2)
               | Some snippet \<Rightarrow>
                   (case get_from_repo E cfg snippet w2 of
                      (Inl e, w3) \<Rightarrow> (Inl e, w3)
                    | (Inr _, w3) \<Rightarrow>
                        Broadcast_all E (category snippet @ '' '' @ SNIPPET_FETCHED) 0 w3))"
proof -
  have idx1: "index_files (Config_call cfg w) c = Some rows"
    using idx by (rule Config_call_index_Some)
  show ?thesis
    using choice c rows selected
    by (simp add: get_snippet_def Let_def idx1 load_rows_purged [OF loadable]
          Config_call_fields loaded_list_empty)
qed

lemma get_snippet_dereferences_None:
  assumes "index_files w c = Some rows" and "rstrip choice = c" and "c \<noteq> []"
    and "\<forall>r\<in>set rows. loads pick_by_row r" and "rows \<noteq> []" and "selected \<noteq> []"
    and "chosen_description selected \<notin> (\<lambda>r. r ! 0) ` set rows"
  shows "fst (get_snippet E cfg choice selected w) = Inl AttributeError"
  by (simp add: get_snippet_loaded [OF assms(1-6)] Let_def
        get_by_description_loaded_None [OF assms(7)])

lemma del_snippet_loaded:
  assumes idx: "index_files w c = Some rows" and choice: "strip choice = c"
    and c: "c \<in> set (CATEGORIES @ LANGUAGES)"
    and loadable: "\<forall>r\<in>set rows. loads (pick_by_choice c) r" and rows: "rows \<noteq> []"
    and selected: "selected \<noteq> []"
  shows "del_snippet E cfg choice selected hex w =
           (let w2 = (Config_call cfg w)\<lparr>instances := loaded_list (pick_by_choice c) (next_oid w) rows,
                                         next_oid := next_oid w + length rows\<rparr>
            in case get_by_description (loaded_list (pick_by_choice c) (next_oid w) rows)
                      (chosen_description selected) of
                 None \<Rightarrow> (Inl AttributeError, w2)
               | Some snippet \<Rightarrow>
                   (case delete E cfg snippet hex w2 of
                      (Inl e, w3) \<Rightarrow> (Inl e, w3)
                    | (Inr _, w3) \<Rightarrow>
                        Broadcast_all E (SNIPPET_DELETED @ [CHR 0x0A] @ description snippet) 0 w3))"
proof -
  have idx1: "index_files (Config_call cfg w) c = Some rows"
    using idx by (rule Config_call_index_Some)
  have listed: "del_snippet E cfg choice selected hex w
                  = del_snippet_listed E cfg c selected hex (Config_call cfg w)"
    using choice c valid_category_nonempty [OF c] by (simp add: del_snippet_def Let_def)
  show ?thesis
    using rows selected
    by (simp add: listed del_snippet_listed_def Let_def idx1 purge_fields
          load_rows_purged [OF loadable] Config_call_fields loaded_list_empty)
qed

lemma del_snippet_dereferences_None:
  assumes "index_files w c = Some rows" and "strip choice = c"
    and "c \<in> set (CATEGORIES @ LANGUAGES)"
    and "\<forall>r\<in>set rows. loads (pick_by_choice c) r" and "rows \<noteq> []" and "selected \<noteq> []"
    and "chosen_description selected \<notin> (\<lambda>r. r ! 0) ` set rows"
  shows "fst (del_snippet E cfg choice selected hex w) = Inl AttributeError"
  by (simp add: del_snippet_loaded [OF assms(1-6)] Let_def
        get_by_description_loaded_None [OF assms(7)])

section \<open>Display lines that do not lead back\<close>

lemma chosen_description_cut:
  assumes "CHR ''|'' \<notin> set (take (max_desc_len cfg) (description s))"
    and "take (max_desc_len cfg) (description s) = []
         \<or> \<not> py_whitespace (last (take (max_desc_len cfg) (description s)))"
  shows "chosen_description (str_snippet cfg s @ rest) = take (max_desc_len cfg) (description s)"
proof -
  let ?s = "s\<lparr>description := take (max_desc_len cfg) (description s)\<rparr>"
  have "str_snippet cfg s = str_snippet cfg ?s"
    by (simp add: str_snippet_def Let_def)
  moreover have "chosen_description (str_snippet cfg ?s @ rest) = description ?s"
    by (rule chosen_description_str) (use assms in simp_all)
  ultimately show ?thesis
    by simp
qed

lemma pipe_chosen: "chosen_description (str_snippet example_config pipe_snippet) = ''a''"
  by (simp add: chosen_description_def str_snippet_def ljust_def partition_head_def rstrip_def
        py_whitespace_def pipe_snippet_def loaded_from_def row_pipe_def example_config_def)

lemma pipe_lookup:
  "get_by_description [pipe_snippet] (chosen_description (str_snippet example_config pipe_snippet))
     = None"
  by (simp add: pipe_chosen) (simp add: pipe_snippet_def loaded_from_def row_pipe_def)

lemma long_lookup:
  "get_by_description [long_snippet] (chosen_description (str_snippet example_config long_snippet))
     = None"
proof -
  have cut: "take (max_desc_len example_config) (description long_snippet) = replicate 128 (CHR ''x'')"
    by (simp add: long_snippet_def loaded_from_def example_config_def)
  have "chosen_description (str_snippet example_config long_snippet @ [])
          = take (max_desc_len example_config) (description long_snippet)"
    by (rule chosen_description_cut) (simp_all add: cut py_whitespace_def)
  then have "chosen_description (str_snippet example_config long_snippet) = replicate 128 (CHR ''x'')"
    by (simp add: cut)
  then show ?thesis
    by (simp add: long_snippet_def loaded_from_def)
qed

lemma rstrip_spaces: "rstrip (xs @ replicate n (CHR '' '')) = rstrip xs"
  by (simp add: rstrip_def dropWhile_append py_whitespace_space)

lemma padded_lookup:
  "get_by_description [padded_snippet]
     (chosen_description (str_snippet example_config padded_snippet)) = None"
proof -
  have line: "str_snippet example_config padded_snippet
                = (''tab '' @ replicate 126 (CHR '' '')) @ CHR ''|'' # join '','' (tags padded_snippet)"
    by (simp add: str_snippet_def ljust_def padded_snippet_def loaded_from_def example_config_def)
  have "partition_head (CHR ''|'') (str_snippet example_config padded_snippet)
          = ''tab '' @ replicate 126 (CHR '' '')"
    unfolding line by (rule partition_head_append) simp
  then have "chosen_description (str_snippet example_config padded_snippet) = rstrip ''tab ''"
    by (simp only: chosen_description_def rstrip_spaces)
  then have "chosen_description (str_snippet example_config padded_snippet) = ''tab''"
    by (simp add: rstrip_def py_whitespace_def)
  then show ?thesis
    by (simp add: padded_snippet_def loaded_from_def)
qed

lemma rstrip_Sop: "rstrip ''Sop'' = ''Sop''"
  by (simp add: rstrip_def py_whitespace_def)

lemma row_pipe_loads:
  "loads pick_by_row row_pipe" "loads (pick_by_choice ''Sop'') row_pipe"
  by (simp_all add: loads_def pick_by_row_def pick_by_choice_def row_pipe_def CATEGORIES_cases
        PREFIXES_values_def PREFIXES_def)

lemma pipe_line_nonempty: "str_snippet example_config pipe_snippet \<noteq> []"
  by (simp add: str_snippet_def ljust_def Let_def)

lemma pipe_workflows:
  "fst (get_snippet E example_config ''Sop'' (str_snippet example_config pipe_snippet)
          (sop_world [row_pipe])) = Inl AttributeError"
  "fst (del_snippet E example_config ''Sop'' (str_snippet example_config pipe_snippet) hex
          (sop_world [row_pipe])) = Inl AttributeError"
proof -
  have idx: "index_files (sop_world [row_pipe]) ''Sop'' = Some [row_pipe]"
    by (simp add: sop_world_def)
  have unknown: "chosen_description (str_snippet example_config pipe_snippet)
                   \<notin> (\<lambda>r. r ! 0) ` set [row_pipe]"
    by (simp add: pipe_chosen) (simp add: row_pipe_def)
  show "fst (get_snippet E example_config ''Sop'' (str_snippet example_config pipe_snippet)
          (sop_world [row_pipe])) = Inl AttributeError"
    by (rule get_snippet_dereferences_None [OF idx rstrip_Sop _ _ _ pipe_line_nonempty unknown])
       (simp_all add: row_pipe_loads)
  show "fst (del_snippet E example_config ''Sop'' (str_snippet example_config pipe_snippet) hex
          (sop_world [row_pipe])) = Inl AttributeError"
    by (rule del_snippet_dereferences_None [OF idx strip_Sop Sop_valid _ _ pipe_line_nonempty unknown])
       (simp_all add: row_pipe_loads)
qed

section \<open>Create, then List+Fetch\<close>

lemma add_code_snippet_stored:
  assumes l: "l \<in> set LANGUAGES" and choice: "rstrip language_choice = l" and d: "d \<noteq> []"
  shows "carriage_return \<notin> set d \<Longrightarrow> carriage_return \<notin> set (join '','' (set_tags t)) \<Longrightarrow>
         index_files (snd (add_code_snippet E cfg language_choice d t hex code w))
           = (index_files (Config_call cfg w))(l \<mapsto>
               (case index_files w l of None \<Rightarrow> [] | Some rows \<Rightarrow> rows)
                 @ [[d, join '','' (set_tags t), l, [], hex]])"
    and "content_files (snd (add_code_snippet E cfg language_choice d t hex code w))
           = (content_files w)((l, hex) \<mapsto> Verbatim code)"
    and "(\<forall>cmd. notify_rc E cmd = 0) \<longrightarrow>
           fst (add_code_snippet E cfg language_choice d t hex code w) = Inr ()"
proof -
  let ?w1 = "Config_call cfg w"
  let ?s = "\<lparr>oid = next_oid ?w1, cls = CodeSnippet, description = d, tags = set_tags t,
              category = l, prefix = [], uuid = hex\<rparr>"
  let ?w2 = "?w1\<lparr>instances := instances ?w1 @ [?s], next_oid := Suc (next_oid ?w1)\<rparr>"
  let ?w3 = "(Config_call cfg ?w2)\<lparr>content_files :=
               (content_files (Config_call cfg ?w2))((l, hex) \<mapsto> Verbatim code)\<rparr>"
  have run: "add_code_snippet E cfg language_choice d t hex code w
               = Broadcast_all E SNIPPET_ADDED 0 (add_to_list E cfg ?s ?w3)"
    using l choice d new_CodeSnippet [OF l d, of "next_oid ?w1" t None hex]
    by (simp add: add_code_snippet_def Let_def construct_def CodeSnippet_store_in_repo_def)
  have valid: "l \<in> set (CATEGORIES @ LANGUAGES)"
    using l by simp
  have idx: "index_files (Config_call cfg ?w3) = index_files (Config_call cfg w)"
    by (simp add: Config_call_update_index Config_call_twice_index)
  have old: "(case index_files (Config_call cfg w) l of None \<Rightarrow> [] | Some rows \<Rightarrow> rows)
               = (case index_files w l of None \<Rightarrow> [] | Some rows \<Rightarrow> rows)"
    using valid by (rule Config_call_old_rows)
  show "carriage_return \<notin> set d \<Longrightarrow> carriage_return \<notin> set (join '','' (set_tags t)) \<Longrightarrow>
         index_files (snd (add_code_snippet E cfg language_choice d t hex code w))
           = (index_files (Config_call cfg w))(l \<mapsto>
               (case index_files w l of None \<Rightarrow> [] | Some rows \<Rightarrow> rows)
                 @ [[d, join '','' (set_tags t), l, [], hex]])"
    by (simp add: run Broadcast_all_fields add_to_list_index idx old)
  show "content_files (snd (add_code_snippet E cfg language_choice d t hex code w))
           = (content_files w)((l, hex) \<mapsto> Verbatim code)"
    by (simp add: run Broadcast_all_fields add_to_list_fields Config_call_fields)
  show "(\<forall>cmd. notify_rc E cmd = 0) \<longrightarrow>
           fst (add_code_snippet E cfg language_choice d t hex code w) = Inr ()"
    by (simp add: run Broadcast_all_ok)
qed

lemma get_snippet_fetch_op:
  assumes idx: "index_files w c = Some rows" and choice: "rstrip choice = c" and c: "c \<noteq> []"
    and loadable: "\<forall>r\<in>set rows. loads pick_by_row r" and selected: "selected \<noteq> []"
    and found: "get_by_description (loaded_list pick_by_row (next_oid w) rows)
                  (chosen_description selected) = Some s"
    and op: "cls s = OpSnippet"
    and content: "content_files w (category s, uuid s) = Some (Gzip payload)"
    and dir: "houdini_temp_dir w"
  shows "houdini_temp (snd (get_snippet E cfg choice selected w)) (cpio_name (prefix s))
           = Some payload"
    and "(\<forall>cmd. notify_rc E cmd = 0) \<longrightarrow> fst (get_snippet E cfg choice selected w) = Inr ()"
proof -
  from found have rows: "rows \<noteq> []"
    by (cases rows) simp_all
  let ?w2 = "(Config_call cfg w)\<lparr>instances := loaded_list pick_by_row (next_oid w) rows,
                                 next_oid := next_oid w + length rows\<rparr>"
  let ?w3 = "(Config_call cfg ?w2)\<lparr>houdini_temp :=
               (houdini_temp (Config_call cfg ?w2))(cpio_name (prefix s) \<mapsto> payload)\<rparr>"
  have fetch: "get_from_repo E cfg s ?w2 = (Inr (), ?w3)"
    using op content dir
    by (simp add: get_from_repo_def OpSnippet_get_from_repo_def Let_def Config_call_fields)
  have run: "get_snippet E cfg choice selected w
               = Broadcast_all E (category s @ '' '' @ SNIPPET_FETCHED) 0 ?w3"
    by (simp add: get_snippet_loaded [OF idx choice c loadable rows selected] Let_def found fetch)
  show "houdini_temp (snd (get_snippet E cfg choice selected w)) (cpio_name (prefix s))
           = Some payload"
    by (simp add: run Broadcast_all_fields)
  show "(\<forall>cmd. notify_rc E cmd = 0) \<longrightarrow> fst (get_snippet E cfg choice selected w) = Inr ()"
    by (simp add: run Broadcast_all_ok)
qed

lemma get_snippet_fetch_code:
  assumes idx: "index_files w c = Some rows" and choice: "rstrip choice = c" and c: "c \<noteq> []"
    and loadable: "\<forall>r\<in>set rows. loads pick_by_row r" and selected: "selected \<noteq> []"
    and found: "get_by_description (loaded_list pick_by_row (next_oid w) rows)
                  (chosen_description selected) = Some s"
    and code: "cls s = CodeSnippet"
    and content: "content_files w (category s, uuid s) = Some bytes"
    and xclip: "xclip_rc E (category s, uuid s) = 0"
  shows "clipboard (snd (get_snippet E cfg choice selected w)) = Some bytes"
    and "(\<forall>cmd. notify_rc E cmd = 0) \<longrightarrow> fst (get_snippet E cfg choice selected w) = Inr ()"
proof -
  from found have rows: "rows \<noteq> []"
    by (cases rows) simp_all
  let ?w2 = "(Config_call cfg w)\<lparr>instances := loaded_list pick_by_row (next_oid w) rows,
                                 next_oid := next_oid w + length rows\<rparr>"
  let ?w3 = "(Config_call cfg ?w2)\<lparr>clipboard := Some bytes\<rparr>"
  have fetch: "get_from_repo E cfg s ?w2 = (Inr (), ?w3)"
    using code content xclip
    by (simp add: get_from_repo_def CodeSnippet_get_from_repo_def Let_def Config_call_fields)
  have run: "get_snippet E cfg choice selected w
               = Broadcast_all E (category s @ '' '' @ SNIPPET_FETCHED) 0 ?w3"
    by (simp add: get_snippet_loaded [OF idx choice c loadable rows selected] Let_def found fetch)
  show "clipboard (snd (get_snippet E cfg choice selected w)) = Some bytes"
    by (simp add: run Broadcast_all_fields)
  show "(\<forall>cmd. notify_rc E cmd = 0) \<longrightarrow> fst (get_snippet E cfg choice selected w) = Inr ()"
    by (simp add: run Broadcast_all_ok)
qed

lemma LANGUAGES_not_CATEGORIES: "l \<in> set LANGUAGES \<Longrightarrow> l \<notin> set CATEGORIES"
  by (auto simp: LANGUAGES_def CATEGORIES_cases)

lemma line_nonempty: "str_snippet cfg s @ rest \<noteq> []"
  by (simp add: str_snippet_def Let_def)

lemma op_round_trip:
  assumes hou: "hou_present E" and sel: "first_node_category selection = Some c"
    and c: "c \<in> set CATEGORIES" and p: "PREFIXES_get c = Some (Some p)"
    and d: "d \<noteq> []" and len: "length d \<le> max_desc_len cfg"
    and bar: "CHR ''|'' \<notin> set d" and ws: "\<not> py_whitespace (last d)"
    and old: "\<forall>r\<in>set (case index_files w c of None \<Rightarrow> [] | Some rows \<Rightarrow> rows).
                loads pick_by_row r \<and> r ! 0 \<noteq> d"
    and w1: "w1 = snd (add_op_snippet E cfg selection (Some (cpio_name p, payload)) d t hex w)"
    and same: "index_files w2 c = index_files w1 c"
      "content_files w2 (c, hex) = content_files w1 (c, hex)"
    and choice: "rstrip choice = c" and line: "description s = d"
    and cr: "carriage_return \<notin> set d" "carriage_return \<notin> set t"
    and dir: "houdini_temp_dir w2"
  shows "houdini_temp (snd (get_snippet E' cfg choice (str_snippet cfg s @ rest) w2)) (cpio_name p)
           = Some payload"
    and "(\<forall>cmd. notify_rc E' cmd = 0) \<longrightarrow>
           fst (get_snippet E' cfg choice (str_snippet cfg s @ rest) w2) = Inr ()"
proof -
  let ?old = "case index_files w c of None \<Rightarrow> [] | Some rows \<Rightarrow> rows"
  let ?new = "[d, join '','' (set_tags t), c, p, hex]"
  let ?s = "loaded_from (pick_by_row ?new) (next_oid w2 + length ?old) ?new"
  have idx: "index_files w2 c = Some (?old @ [?new])"
    by (simp add: same w1 add_op_snippet_stored(1) [OF hou sel c p d cr(1)
          set_tags_no_carriage_return [OF cr(2)]])
  have content: "content_files w2 (c, hex) = Some (Gzip payload)"
    by (simp add: same w1 add_op_snippet_stored(2) [OF hou sel c p d])
  have pick: "pick_by_row ?new = OpSnippet"
    using c by (simp add: pick_by_row_def)
  have new: "loads pick_by_row ?new"
    using c d PREFIXES_get_in_values [OF p] by (simp add: loads_def pick)
  have loadable: "\<forall>r\<in>set (?old @ [?new]). loads pick_by_row r"
    using old new by simp
  have chosen: "chosen_description (str_snippet cfg s @ rest) = d"
    using chosen_description_str [of s cfg rest] len bar ws by (simp add: line)
  have found: "get_by_description (loaded_list pick_by_row (next_oid w2) (?old @ [?new]))
                 (chosen_description (str_snippet cfg s @ rest)) = Some ?s"
    unfolding chosen by (rule get_by_description_loaded_last) (use old in simp_all)
  have s: "cls ?s = OpSnippet" "category ?s = c" "uuid ?s = hex" "prefix ?s = p"
    by (simp_all add: loaded_from_def pick)
  have cnonempty: "c \<noteq> []"
    using c by (rule CATEGORIES_nonempty)
  have content': "content_files w2 (category ?s, uuid ?s) = Some (Gzip payload)"
    by (simp only: s content)
  note fetch = get_snippet_fetch_op [OF idx choice cnonempty loadable line_nonempty found s(1) content'
      dir, of E']
  from fetch(1) show "houdini_temp (snd (get_snippet E' cfg choice (str_snippet cfg s @ rest) w2))
      (cpio_name p) = Some payload"
    by (simp only: s)
  from fetch(2) show "(\<forall>cmd. notify_rc E' cmd = 0) \<longrightarrow>
      fst (get_snippet E' cfg choice (str_snippet cfg s @ rest) w2) = Inr ()" .
qed

lemma code_round_trip:
  assumes l: "l \<in> set LANGUAGES" and language: "rstrip language_choice = l"
    and d: "d \<noteq> []" and len: "length d \<le> max_desc_len cfg"
    and bar: "CHR ''|'' \<notin> set d" and ws: "\<not> py_whitespace (last d)"
    and old: "\<forall>r\<in>set (case index_files w l of None \<Rightarrow> [] | Some rows \<Rightarrow> rows).
                loads pick_by_row r \<and> r ! 0 \<noteq> d"
    and w1: "w1 = snd (add_code_snippet E cfg language_choice d t hex code w)"
    and same: "index_files w2 l = index_files w1 l"
      "content_files w2 (l, hex) = content_files w1 (l, hex)"
    and choice: "rstrip choice = l" and line: "description s = d"
    and xclip: "xclip_rc E' (l, hex) = 0"
    and cr: "carriage_return \<notin> set d" "carriage_return \<notin> set t"
  shows "clipboard (snd (get_snippet E' cfg choice (str_snippet cfg s @ rest) w2))
           = Some (Verbatim code)"
    and "(\<forall>cmd. notify_rc E' cmd = 0) \<longrightarrow>
           fst (get_snippet E' cfg choice (str_snippet cfg s @ rest) w2) = Inr ()"
proof -
  let ?old = "case index_files w l of None \<Rightarrow> [] | Some rows \<Rightarrow> rows"
  let ?new = "[d, join '','' (set_tags t), l, [], hex]"
  let ?s = "loaded_from (pick_by_row ?new) (next_oid w2 + length ?old) ?new"
  have idx: "index_files w2 l = Some (?old @ [?new])"
    by (simp add: same w1 add_code_snippet_stored(1) [OF l language d cr(1)
          set_tags_no_carriage_return [OF cr(2)]])
  have content: "content_files w2 (l, hex) = Some (Verbatim code)"
    by (simp add: same w1 add_code_snippet_stored(2) [OF l language d])
  have pick: "pick_by_row ?new = CodeSnippet"
    using LANGUAGES_not_CATEGORIES [OF l] by (simp add: pick_by_row_def)
  have new: "loads pick_by_row ?new"
    using l d by (simp add: loads_def pick)
  have loadable: "\<forall>r\<in>set (?old @ [?new]). loads pick_by_row r"
    using old new by simp
  have chosen: "chosen_description (str_snippet cfg s @ rest) = d"
    using chosen_description_str [of s cfg rest] len bar ws by (simp add: line)
  have found: "get_by_description (loaded_list pick_by_row (next_oid w2) (?old @ [?new]))
                 (chosen_description (str_snippet cfg s @ rest)) = Some ?s"
    unfolding chosen by (rule get_by_description_loaded_last) (use old in simp_all)
  have s: "cls ?s = CodeSnippet" "category ?s = l" "uuid ?s = hex"
    by (simp_all add: loaded_from_def pick)
  have lnonempty: "l \<noteq> []"
    using l by (rule LANGUAGES_nonempty)
  have content': "content_files w2 (category ?s, uuid ?s) = Some (Verbatim code)"
    by (simp only: s content)
  have xclip': "xclip_rc E' (category ?s, uuid ?s) = 0"
    by (simp only: s xclip)
  note fetch = get_snippet_fetch_code [OF idx choice lnonempty loadable line_nonempty found s(1)
      content' xclip']
  from fetch(1) show "clipboard (snd (get_snippet E' cfg choice (str_snippet cfg s @ rest) w2))
      = Some (Verbatim code)" .
  from fetch(2) show "(\<forall>cmd. notify_rc E' cmd = 0) \<longrightarrow>
      fst (get_snippet E' cfg choice (str_snippet cfg s @ rest) w2) = Inr ()" .
qed

lemma row_noise_loads: "loads pick_by_row row_noise" "row_noise ! 0 \<noteq> ''blur setup''"
  by (simp_all add: loads_def pick_by_row_def row_noise_def CATEGORIES_cases PREFIXES_values_def
        PREFIXES_def)

lemma row_blur_loads: "loads pick_by_row row_blur" "loads pick_by_row row_blur_again"
  by (simp_all add: loads_def pick_by_row_def row_blur_def row_blur_again_def CATEGORIES_cases
        PREFIXES_values_def PREFIXES_def)

lemma example_preconditions:
  "hou_present houdini_env" "\<forall>cmd. notify_rc houdini_env cmd = 0"
  "\<forall>cmd. notify_rc quiet_env cmd = 0" "xclip_rc quiet_env (''Python'', ''0b2c'') = 0"
  "cpio_name ''SOP'' = ''SOP_copy.cpio''" "''Python'' \<in> set LANGUAGES"
  "max_desc_len example_config = 128"
  by (simp_all add: houdini_env_def quiet_env_def cpio_name_def LANGUAGES_def example_config_def)

section \<open>The prefix of a constructed snippet\<close>

lemma None_in_PREFIXES_values: "None \<in> set PREFIXES_values"
  by (simp add: PREFIXES_values_def PREFIXES_def)

lemma new_OpSnippet_any:
  assumes "c \<in> set CATEGORIES" "d \<noteq> []"
  shows "new_snippet OpSnippet i d t c q u =
           (if q \<in> set PREFIXES_values
            then Inr \<lparr>oid = i, cls = OpSnippet, description = d, tags = set_tags t, category = c,
                      prefix = (case q of None \<Rightarrow> [] | Some x \<Rightarrow> x), uuid = u\<rparr>
            else Inl (ValueError (PREFIX_INVALID @ '' \"'' @ the q @ ''\".'')))"
  using assms None_in_PREFIXES_values
  by (auto simp: new_snippet_def set_description_def set_category_def CATEGORIES_nonempty
        set_prefix_def)

lemma fstring_None_rejected: "Some ''None'' \<notin> set PREFIXES_values"
  by (simp add: PREFIXES_values_def PREFIXES_def)

lemma add_op_snippet_unmapped:
  assumes hou: "hou_present E" and sel: "first_node_category selection = Some c"
    and c: "c \<in> set CATEGORIES" and p: "PREFIXES_get c = Some None" and d: "d \<noteq> []"
  shows "add_op_snippet E cfg selection host_file d t hex w =
           (Inl (ValueError (PREFIX_INVALID @ '' \"None\".'')),
            host_copy host_file (Config_call cfg w))"
  by (simp add: add_op_snippet_def hou is_selection_valid_ok [OF hou sel c] p fstring_of_def d
        construct_def Let_def new_OpSnippet_any [OF c d] fstring_None_rejected)


section \<open>The claims\<close>

text \<open>
  C9. The display line of a snippet is its description cut to \<open>max_desc_len\<close> and
  filled with spaces to \<open>max_desc_len + 2\<close>, the separator, and the tags joined by
  commas. The docstring of \<open>__str__\<close> says the tags are cut to \<open>max_tags_len\<close>;
  the code does not cut them: with the default lengths (128 and 32) a snippet whose
  joined tags have 38 characters is displayed with all of them.
\<close>

theorem str_snippet_keeps_all_tags:
  "str_snippet example_config long_tags_snippet
     = ''blur setup'' @ replicate 120 (CHR '' '') @ ''|geometry,procedural,simulation,utility''
   \<and> max_tags_len example_config < length ''geometry,procedural,simulation,utility''"
  by (simp add: str_snippet_def example_config_def long_tags_snippet_def ljust_def)

text \<open>
  C7, amended. For every structural category the lookup in \<open>PREFIXES\<close> returns the
  value the table fixes for it, which is \<open>None\<close> exactly for Director, Manager and
  VopNet. The snippet that the Create workflow constructs for a selection of a category
  with a prefix in the table carries that prefix. The constructor of \<open>OpSnippet\<close>
  itself does not compare the prefix with the category: for any structural category it
  accepts every value of the table, the empty string standing for \<open>None\<close>, and rejects
  every other prefix. Every \<open>CodeSnippet\<close> has the empty prefix, whatever prefix is
  passed.
\<close>

theorem prefix_registry_and_construction:
  "map (\<lambda>c. (c, PREFIXES_get c)) CATEGORIES =
     [(''Chop'', Some (Some ''CHOP'')), (''ChopNet'', Some (Some ''CHOPNET'')),
      (''Cop2'', Some (Some ''COP2'')), (''CopNet'', Some (Some ''IMG'')),
      (''Director'', Some None), (''Dop'', Some (Some ''DOP'')),
      (''Driver'', Some (Some ''ROP'')), (''Lop'', Some (Some ''LOP'')),
      (''Manager'', Some None), (''Object'', Some (Some ''OBJ'')),
      (''Shop'', Some (Some ''SHOP'')), (''Sop'', Some (Some ''SOP'')),
      (''Top'', Some (Some ''TOP'')), (''TopNet'', Some (Some ''TOPNET'')),
      (''Vop'', Some (Some ''VOP'')), (''VopNet'', Some None)]
   \<and> (c \<in> set CATEGORIES \<longrightarrow>
        (\<exists>p. PREFIXES_get c = Some p
           \<and> (p = None \<longleftrightarrow> c \<in> {''Director'', ''Manager'', ''VopNet''})))
   \<and> (hou_present E \<and> first_node_category selection = Some c \<and> c \<in> set CATEGORIES
        \<and> PREFIXES_get c = Some (Some x) \<and> d \<noteq> []
      \<longrightarrow> instances (snd (add_op_snippet E cfg selection host_file d t hex w))
            = instances w @ [\<lparr>oid = next_oid w, cls = OpSnippet, description = d,
                                tags = set_tags t, category = c, prefix = x, uuid = hex\<rparr>])
   \<and> (c \<in> set CATEGORIES \<and> d \<noteq> []
      \<longrightarrow> new_snippet OpSnippet i d t c q u =
            (if q \<in> set PREFIXES_values
             then Inr \<lparr>oid = i, cls = OpSnippet, description = d, tags = set_tags t,
                       category = c, prefix = (case q of None \<Rightarrow> [] | Some y \<Rightarrow> y), uuid = u\<rparr>
             else Inl (ValueError (PREFIX_INVALID @ '' \"'' @ the q @ ''\".''))))
   \<and> (l \<in> set LANGUAGES \<and> d \<noteq> []
      \<longrightarrow> (\<exists>s. new_snippet CodeSnippet i d t l q u = Inr s \<and> category s = l \<and> prefix s = []))"
proof -
  have table: "\<exists>p. PREFIXES_get c = Some p
           \<and> (p = None \<longleftrightarrow> c \<in> {''Director'', ''Manager'', ''VopNet''})"
    if c: "c \<in> set CATEGORIES"
  proof -
    obtain p where p: "PREFIXES_get c = Some p"
      using PREFIXES_get_CATEGORIES [OF c] ..
    have "p = None \<longleftrightarrow> c \<in> {''Director'', ''Manager'', ''VopNet''}"
      using unmapped_categories [OF c] p by (simp only: option.inject)
    with p show ?thesis
      by blast
  qed
  have created: "instances (snd (add_op_snippet E cfg selection host_file d t hex w))
            = instances w @ [\<lparr>oid = next_oid w, cls = OpSnippet, description = d,
                                tags = set_tags t, category = c, prefix = x, uuid = hex\<rparr>]"
    if "hou_present E" "first_node_category selection = Some c" "c \<in> set CATEGORIES"
      "PREFIXES_get c = Some (Some x)" "d \<noteq> []"
    using that by (rule add_op_snippet_instances)
  have constructed: "new_snippet OpSnippet i d t c q u =
            (if q \<in> set PREFIXES_values
             then Inr \<lparr>oid = i, cls = OpSnippet, description = d, tags = set_tags t,
                       category = c, prefix = (case q of None \<Rightarrow> [] | Some y \<Rightarrow> y), uuid = u\<rparr>
             else Inl (ValueError (PREFIX_INVALID @ '' \"'' @ the q @ ''\".'')))"
    if "c \<in> set CATEGORIES" "d \<noteq> []"
    using that by (rule new_OpSnippet_any)
  have textual: "\<exists>s. new_snippet CodeSnippet i d t l q u = Inr s \<and> category s = l \<and> prefix s = []"
    if "l \<in> set LANGUAGES" "d \<noteq> []"
    using that by (simp add: new_CodeSnippet)
  from table created constructed textual show ?thesis
    by (simp only: PREFIXES_listing simp_thms) blast
qed

theorem prefix_registry_and_construction_witness:
  "''Sop'' \<in> set CATEGORIES \<and> ''Python'' \<in> set LANGUAGES
   \<and> hou_present houdini_env \<and> first_node_category [Node ''Sop''] = Some ''Sop''
   \<and> PREFIXES_get ''Sop'' = Some (Some ''SOP'')
   \<and> instances (snd (add_op_snippet houdini_env example_config [Node ''Sop'']
                        (Some (''SOP_copy.cpio'', ''cpio blur'')) ''blur setup'' ''util, blur''
                        ''0a1b'' empty_world))
       = [snippet_blur]
   \<and> Some ''SOP'' \<in> set PREFIXES_values
   \<and> new_snippet OpSnippet 0 ''blur setup'' ''util, blur'' ''Sop'' (Some ''SOP'') ''0a1b''
       = Inr snippet_blur
   \<and> (\<exists>s. new_snippet CodeSnippet 0 ''blur setup'' ''util, blur'' ''Python'' (Some ''SOP'') ''0a1b''
             = Inr s \<and> category s = ''Python'' \<and> prefix s = [])"
proof -
  have pre: "''Sop'' \<in> set CATEGORIES" "''Python'' \<in> set LANGUAGES" "hou_present houdini_env"
    "first_node_category [Node ''Sop''] = Some ''Sop''" "PREFIXES_get ''Sop'' = Some (Some ''SOP'')"
    "''blur setup'' \<noteq> []" "Some ''SOP'' \<in> set PREFIXES_values"
    by (simp_all add: Sop_structural example_preconditions PREFIXES_table PREFIXES_values_def
          PREFIXES_def)
  note all = prefix_registry_and_construction [where c = "''Sop''" and E = houdini_env
      and selection = "[Node ''Sop'']" and x = "''SOP''" and d = "''blur setup''"
      and cfg = example_config and host_file = "Some (''SOP_copy.cpio'', ''cpio blur'')"
      and t = "''util, blur''" and hex = "''0a1b''" and w = empty_world and i = 0
      and q = "Some ''SOP''" and u = "''0a1b''" and l = "''Python''"]
  have created: "instances (snd (add_op_snippet houdini_env example_config [Node ''Sop'']
                        (Some (''SOP_copy.cpio'', ''cpio blur'')) ''blur setup'' ''util, blur''
                        ''0a1b'' empty_world))
       = [snippet_blur]"
    using all [THEN conjunct2, THEN conjunct2, THEN conjunct1] pre
    by (simp add: empty_world_def snippet_blur_def set_tags_util_blur)
  have constructed: "new_snippet OpSnippet 0 ''blur setup'' ''util, blur'' ''Sop'' (Some ''SOP'') ''0a1b''
       = Inr snippet_blur"
    using all [THEN conjunct2, THEN conjunct2, THEN conjunct2, THEN conjunct1] pre
    by (simp add: snippet_blur_def set_tags_util_blur)
  have textual: "\<exists>s. new_snippet CodeSnippet 0 ''blur setup'' ''util, blur'' ''Python'' (Some ''SOP'') ''0a1b''
             = Inr s \<and> category s = ''Python'' \<and> prefix s = []"
    using all [THEN conjunct2, THEN conjunct2, THEN conjunct2, THEN conjunct2] pre
    by blast
  from pre created constructed textual show ?thesis
    by (simp only: simp_thms)
qed

text \<open>
  C7 as stated fails. A snippet constructed for a category need not carry the prefix of
  that category: the constructor accepts the prefix of Dop for the category Sop, and
  so does List+Fetch when it loads such a row of the index. And no snippet with the
  empty prefix comes out of the Create workflow for Director, whose value in the table
  is \<open>None\<close>: the workflow passes the text \<open>None\<close>, which the setter of the prefix
  rejects.
\<close>

theorem other_prefix_accepted:
  "''Sop'' \<in> set CATEGORIES \<and> PREFIXES_get ''Sop'' = Some (Some ''SOP'')
   \<and> new_snippet OpSnippet 0 ''blur setup'' ''blur,util'' ''Sop'' (Some ''DOP'') ''0a1b''
       = Inr (snippet_blur\<lparr>prefix := ''DOP''\<rparr>)
   \<and> fst (load_rows pick_by_row [row_dop] empty_world) = Inr ()
   \<and> instances (snd (load_rows pick_by_row [row_dop] empty_world))
       = [snippet_blur\<lparr>prefix := ''DOP''\<rparr>]
   \<and> ''Director'' \<in> set CATEGORIES \<and> PREFIXES_get ''Director'' = Some None
   \<and> first_node_category [Node ''Director''] = Some ''Director''
   \<and> fst (add_op_snippet houdini_env example_config [Node ''Director''] None ''blur setup''
            ''util, blur'' ''0a1b'' empty_world)
       = Inl (ValueError ''Supplied prefix is invalid: \"None\".'')
   \<and> instances (snd (add_op_snippet houdini_env example_config [Node ''Director''] None
                        ''blur setup'' ''util, blur'' ''0a1b'' empty_world)) = []"
proof -
  have sop: "''Sop'' \<in> set CATEGORIES" and director: "''Director'' \<in> set CATEGORIES"
    by (simp_all add: CATEGORIES_cases)
  have d: "''blur setup'' \<noteq> []"
    by simp
  have dop: "Some ''DOP'' \<in> set PREFIXES_values"
    by (simp add: PREFIXES_values_def PREFIXES_def)
  have tags: "set_tags ''blur,util'' = [''blur'', ''util'']"
    by (simp add: set_tags_def strip_def lstrip_def rstrip_def py_whitespace_def)
  have constructed: "new_snippet OpSnippet i ''blur setup'' ''blur,util'' ''Sop'' (Some ''DOP'') ''0a1b''
       = Inr (snippet_blur\<lparr>oid := i, prefix := ''DOP''\<rparr>)" for i
    by (simp add: new_OpSnippet_any [OF sop d] dop tags snippet_blur_def)
  have loaded: "load_rows pick_by_row [row_dop] empty_world
      = (Inr (), empty_world\<lparr>instances := [snippet_blur\<lparr>prefix := ''DOP''\<rparr>], next_oid := 1\<rparr>)"
    using constructed [of 0]
    by (simp add: row_dop_def pick_by_row_def sop construct_def empty_world_def snippet_blur_def)
  have sel: "first_node_category [Node ''Director''] = Some ''Director''"
    by simp
  note create = add_op_snippet_unmapped [OF example_preconditions(1) sel director
      PREFIXES_table(5) d, of example_config None "''util, blur''" "''0a1b''" empty_world]
  have aborted: "fst (add_op_snippet houdini_env example_config [Node ''Director''] None
                        ''blur setup'' ''util, blur'' ''0a1b'' empty_world)
       = Inl (ValueError ''Supplied prefix is invalid: \"None\".'')"
    by (simp add: create PREFIX_INVALID_def)
  have "instances (snd (add_op_snippet houdini_env example_config [Node ''Director''] None
                        ''blur setup'' ''util, blur'' ''0a1b'' empty_world)) = instances empty_world"
    by (simp add: create host_copy_def Config_call_fields)
  then have unchanged: "instances (snd (add_op_snippet houdini_env example_config [Node ''Director''] None
                        ''blur setup'' ''util, blur'' ''0a1b'' empty_world)) = []"
    by (simp add: empty_world_def)
  from constructed [of 0] have "new_snippet OpSnippet 0 ''blur setup'' ''blur,util'' ''Sop''
      (Some ''DOP'') ''0a1b'' = Inr (snippet_blur\<lparr>prefix := ''DOP''\<rparr>)"
    by (simp add: snippet_blur_def)
  moreover have "fst (load_rows pick_by_row [row_dop] empty_world) = Inr ()"
    "instances (snd (load_rows pick_by_row [row_dop] empty_world))
       = [snippet_blur\<lparr>prefix := ''DOP''\<rparr>]"
    unfolding loaded by simp_all
  ultimately show ?thesis
    using sop director sel aborted unchanged by (simp only: PREFIXES_table simp_thms)
qed

text \<open>
  C2, amended. When every row of the index has its five fields, rewriting the index to
  exclude an identifier leaves exactly the rows with another identifier, in their
  order and with their fields unchanged; the number of rows decreases by the number
  of rows that carried the identifier (by one when one row carried it, by nothing
  when none did).
\<close>

theorem rewrite_index_filters:
  assumes "index_files w c = Some rows" and "\<forall>r\<in>set rows. length r = 5"
  shows "\<exists>w'. rewrite_index u hex c w = (Inr (), w')
           \<and> index_files w' c = Some (filter (\<lambda>r. r ! 4 \<noteq> u) rows)
           \<and> length (filter (\<lambda>r. r ! 4 \<noteq> u) rows)
               = length rows - length (filter (\<lambda>r. r ! 4 = u) rows)"
proof -
  from assms(2) have long: "\<forall>r\<in>set rows. 4 < length r"
    by simp
  have "length (filter (\<lambda>r. r ! 4 = u) rows) + length (filter (\<lambda>r. r ! 4 \<noteq> u) rows) = length rows"
    using sum_length_filter_compl [of "\<lambda>r. r ! 4 = u" rows] by simp
  then have "length (filter (\<lambda>r. r ! 4 \<noteq> u) rows)
               = length rows - length (filter (\<lambda>r. r ! 4 = u) rows)"
    by arith
  then show ?thesis
    by (simp add: rewrite_index_ok [OF assms(1) long] kept_rows_five [OF assms(2)])
qed

theorem rewrite_index_filters_witness:
  "index_files (sop_world [row_blur, row_noise]) ''Sop'' = Some [row_blur, row_noise]
   \<and> length row_blur = 5 \<and> length row_noise = 5
   \<and> (\<exists>w'. rewrite_index ''0a1b'' ''f00d'' ''Sop'' (sop_world [row_blur, row_noise]) = (Inr (), w')
          \<and> index_files w' ''Sop'' = Some [row_noise])"
  using rewrite_index_filters [of "sop_world [row_blur, row_noise]" "''Sop''"
          "[row_blur, row_noise]" "''0a1b''" "''f00d''"]
  by (simp add: sop_world_def row_blur_def row_noise_def)

text \<open>
  C2 as stated fails on an index where two rows carry the identifier: both rows go,
  and the count drops from two to zero.
\<close>

theorem rewrite_index_duplicate_identifier:
  "index_files (sop_world [row_blur, row_noise_again]) ''Sop'' = Some [row_blur, row_noise_again]
   \<and> row_blur ! 4 = ''0a1b''
   \<and> fst (rewrite_index ''0a1b'' ''f00d'' ''Sop'' (sop_world [row_blur, row_noise_again])) = Inr ()
   \<and> index_files (snd (rewrite_index ''0a1b'' ''f00d'' ''Sop'' (sop_world [row_blur, row_noise_again])))
        ''Sop'' = Some []
   \<and> length ([] :: row list) \<noteq> length [row_blur, row_noise_again] - 1"
proof -
  let ?W = "sop_world [row_blur, row_noise_again]"
  have idx: "index_files ?W ''Sop'' = Some [row_blur, row_noise_again]"
    by (simp add: sop_world_def)
  have long: "\<forall>r\<in>set [row_blur, row_noise_again]. 4 < length r"
    by (simp add: row_blur_def row_noise_again_def)
  have kept: "kept_rows ''0a1b'' [row_blur, row_noise_again] = []"
    by (simp add: kept_rows_simps row_blur_def row_noise_again_def)
  have id: "row_blur ! 4 = ''0a1b''"
    by (simp add: row_blur_def)
  have "fst (rewrite_index ''0a1b'' ''f00d'' ''Sop'' ?W) = Inr ()"
    and "index_files (snd (rewrite_index ''0a1b'' ''f00d'' ''Sop'' ?W)) ''Sop'' = Some []"
    by (simp_all add: rewrite_index_ok [OF idx long] kept)
  with idx id show ?thesis
    by simp
qed

text \<open>
  C4, amended. When \<open>delete\<close> completes on a snippet, the index of the category holds
  no row whose identifier is the snippet's; and when the snippet is the only one of the
  catalog with its description, the lookup of that description in the catalog then
  finds nothing.
\<close>

theorem delete_then_lookup:
  assumes "delete E cfg s hex w = (Inr (), w')"
  shows "(\<exists>rows. index_files w' (category s) = Some rows \<and> (\<forall>r\<in>set rows. r ! 4 \<noteq> uuid s))
         \<and> (filter (\<lambda>t. description t = description s) (instances w) = [s]
              \<longrightarrow> get_by_description (instances w') (description s) = None)"
proof (intro conjI impI)
  from assms obtain rows
    where idx: "index_files w' = (index_files (Config_call cfg w))(category s \<mapsto> kept_rows (uuid s) rows)"
      and inst: "instances w' = remove1 s (instances w)"
    by (rule delete_Inr)
  show "\<exists>rows. index_files w' (category s) = Some rows \<and> (\<forall>r\<in>set rows. r ! 4 \<noteq> uuid s)"
    by (auto simp: idx dest: kept_rows_identifier)
  assume only: "filter (\<lambda>t. description t = description s) (instances w) = [s]"
  have "filter (\<lambda>t. description t = description s) (instances w') = []"
    by (simp add: inst filter_remove1 only)
  then have "description s \<notin> description ` set (instances w')"
    by (auto simp: filter_empty_conv)
  then show "get_by_description (instances w') (description s) = None"
    by (simp add: get_by_description_None)
qed

theorem delete_then_lookup_witness:
  "delete quiet_env example_config snippet_blur ''f00d'' (catalog_world [row_blur, row_noise] [snippet_blur, snippet_noise])
     = (Inr (), snd (delete quiet_env example_config snippet_blur ''f00d''
                       (catalog_world [row_blur, row_noise] [snippet_blur, snippet_noise])))
   \<and> filter (\<lambda>t. description t = description snippet_blur)
        (instances (catalog_world [row_blur, row_noise] [snippet_blur, snippet_noise])) = [snippet_blur]
   \<and> get_by_description
        (instances (snd (delete quiet_env example_config snippet_blur ''f00d''
                           (catalog_world [row_blur, row_noise] [snippet_blur, snippet_noise]))))
        (description snippet_blur) = None
   \<and> index_files (snd (delete quiet_env example_config snippet_blur ''f00d''
                          (catalog_world [row_blur, row_noise] [snippet_blur, snippet_noise])))
        (category snippet_blur) = Some [row_noise]
   \<and> row_noise ! 4 \<noteq> uuid snippet_blur"
proof -
  let ?W = "catalog_world [row_blur, row_noise] [snippet_blur, snippet_noise]"
  let ?r = "delete quiet_env example_config snippet_blur ''f00d'' ?W"
  have ok: "fst ?r = Inr ()"
    by (rule delete_ok [where rows = "[row_blur, row_noise]" and bytes = "Gzip ''cpio blur''"])
       (simp_all add: catalog_world_facts snippet_blur_def row_blur_def row_noise_def sop_contents_def)
  then have completed: "?r = (Inr (), snd ?r)"
    by (rule outcome_eq)
  have only: "filter (\<lambda>t. description t = description snippet_blur) (instances ?W) = [snippet_blur]"
    by (simp add: catalog_world_facts snippet_blur_def snippet_noise_def)
  have idx: "index_files ?W (category snippet_blur) = Some [row_blur, row_noise]"
    by (simp add: catalog_world_facts snippet_blur_def)
  have kept: "kept_rows (uuid snippet_blur) [row_blur, row_noise] = [row_noise]"
    by (simp add: kept_rows_simps snippet_blur_def row_blur_def row_noise_def)
  have after: "index_files (snd ?r) (category snippet_blur) = Some [row_noise]"
    using delete_index_after [OF idx ok] by (simp only: kept)
  have other: "row_noise ! 4 \<noteq> uuid snippet_blur"
    by (simp add: row_noise_def snippet_blur_def)
  from delete_then_lookup [OF completed, THEN conjunct2, rule_format, OF only]
  have "get_by_description (instances (snd ?r)) (description snippet_blur) = None" .
  with completed only after other show ?thesis
    by (simp only: simp_thms)
qed

text \<open>
  C4 as stated fails on a catalog with two snippets of one description: after the
  first is deleted the lookup of its description returns the second.
\<close>

theorem delete_leaves_same_description:
  "snippet_blur \<in> set (instances (catalog_world [row_blur, row_blur_again] [snippet_blur, snippet_blur_again]))
   \<and> fst (delete quiet_env example_config snippet_blur ''f00d''
             (catalog_world [row_blur, row_blur_again] [snippet_blur, snippet_blur_again])) = Inr ()
   \<and> get_by_description
        (instances (snd (delete quiet_env example_config snippet_blur ''f00d''
                           (catalog_world [row_blur, row_blur_again] [snippet_blur, snippet_blur_again]))))
        (description snippet_blur) = Some snippet_blur_again"
proof -
  let ?W = "catalog_world [row_blur, row_blur_again] [snippet_blur, snippet_blur_again]"
  let ?r = "delete quiet_env example_config snippet_blur ''f00d'' ?W"
  have ok: "fst ?r = Inr ()"
    by (rule delete_ok [where rows = "[row_blur, row_blur_again]" and bytes = "Gzip ''cpio blur''"])
       (simp_all add: catalog_world_facts snippet_blur_def row_blur_def row_blur_again_def sop_contents_def)
  then have "?r = (Inr (), snd ?r)"
    by (rule outcome_eq)
  then have "instances (snd ?r) = remove1 snippet_blur (instances ?W)"
    by (rule delete_Inr)
  then have "instances (snd ?r) = [snippet_blur_again]"
    by (simp add: catalog_world_facts)
  then have "get_by_description (instances (snd ?r)) (description snippet_blur) = Some snippet_blur_again"
    by (simp add: snippet_blur_def snippet_blur_again_def)
  with ok show ?thesis
    by (simp add: catalog_world_facts)
qed

text \<open>
  C1, amended. \<open>Snippet.delete\<close> writes the rows it keeps to a temporary file and
  copies that file over the index. In every state of a run before the copy begins the
  index holds its old rows; the copy first empties the index; in every state after
  that the index holds exactly the rows kept; and a run that completes ends in such a
  state. A run interrupted between the two steps of the copy leaves an empty index
  behind.
\<close>

theorem delete_index_old_emptied_new:
  assumes "index_files w (category self) = Some rows"
  shows "(\<exists>before after.
            delete_states E cfg self hex w = before @ after
            \<and> (\<forall>v\<in>set before. index_files v (category self) = Some rows)
            \<and> (after = [] \<or>
                 index_files (hd after) (category self) = Some []
                 \<and> (\<forall>v\<in>set (tl after).
                       index_files v (category self) = Some (kept_rows (uuid self) rows))))
         \<and> last (delete_states E cfg self hex w) = snd (delete E cfg self hex w)
         \<and> (fst (delete E cfg self hex w) = Inr () \<longrightarrow>
              index_files (snd (delete E cfg self hex w)) (category self)
                = Some (kept_rows (uuid self) rows))"
  using delete_states_phases [OF assms, of E cfg hex] delete_states_last [of E cfg self hex w]
    delete_index_after [OF assms, of E cfg hex]
  by blast

theorem delete_index_old_emptied_new_witness:
  "index_files (catalog_world [row_blur, row_noise] [snippet_blur, snippet_noise])
       (category snippet_noise) = Some [row_blur, row_noise]
   \<and> fst (delete quiet_env example_config snippet_noise ''f00d''
             (catalog_world [row_blur, row_noise] [snippet_blur, snippet_noise])) = Inr ()
   \<and> last (delete_states quiet_env example_config snippet_noise ''f00d''
             (catalog_world [row_blur, row_noise] [snippet_blur, snippet_noise]))
       = snd (delete quiet_env example_config snippet_noise ''f00d''
               (catalog_world [row_blur, row_noise] [snippet_blur, snippet_noise]))
   \<and> index_files (snd (delete quiet_env example_config snippet_noise ''f00d''
                          (catalog_world [row_blur, row_noise] [snippet_blur, snippet_noise])))
       ''Sop'' = Some [row_blur]"
proof -
  let ?W = "catalog_world [row_blur, row_noise] [snippet_blur, snippet_noise]"
  have idx: "index_files ?W (category snippet_noise) = Some [row_blur, row_noise]"
    by (simp add: catalog_world_facts snippet_noise_facts)
  from delete_index_old_emptied_new [OF idx, of quiet_env example_config "''f00d''"]
    delete_noise_ok [of quiet_env example_config "''f00d''" "[snippet_blur, snippet_noise]"] idx
  show ?thesis
    by (simp add: snippet_noise_facts kept_rows_noise)
qed

text \<open>
  C1 as stated fails: deleting the second of two snippets, the run passes through a
  state (the sixth) in which the index is empty, neither the two old rows nor the
  one row kept.
\<close>

theorem delete_interrupted_in_copy:
  "index_files (catalog_world [row_blur, row_noise] [snippet_blur, snippet_noise]) ''Sop''
     = Some [row_blur, row_noise]
   \<and> fst (delete quiet_env example_config snippet_noise ''f00d''
             (catalog_world [row_blur, row_noise] [snippet_blur, snippet_noise])) = Inr ()
   \<and> index_files (snd (delete quiet_env example_config snippet_noise ''f00d''
                          (catalog_world [row_blur, row_noise] [snippet_blur, snippet_noise])))
       ''Sop'' = Some [row_blur]
   \<and> 5 < length (delete_states quiet_env example_config snippet_noise ''f00d''
                   (catalog_world [row_blur, row_noise] [snippet_blur, snippet_noise]))
   \<and> index_files (delete_states quiet_env example_config snippet_noise ''f00d''
                    (catalog_world [row_blur, row_noise] [snippet_blur, snippet_noise]) ! 5)
       ''Sop'' = Some []
   \<and> [] \<noteq> [row_blur, row_noise] \<and> [] \<noteq> [row_blur]"
proof -
  let ?W = "catalog_world [row_blur, row_noise] [snippet_blur, snippet_noise]"
  let ?r = "delete quiet_env example_config snippet_noise ''f00d'' ?W"
  let ?states = "delete_states quiet_env example_config snippet_noise ''f00d'' ?W"
  have idx: "index_files ?W ''Sop'' = Some [row_blur, row_noise]"
    by (simp add: catalog_world_facts)
  have ok: "fst ?r = Inr ()"
    by (rule delete_noise_ok)
  have idx': "index_files ?W (category snippet_noise) = Some [row_blur, row_noise]"
    by (simp add: catalog_world_facts snippet_noise_facts)
  have new: "index_files (snd ?r) ''Sop'' = Some [row_blur]"
    using delete_index_after [OF idx' ok] by (simp add: snippet_noise_facts kept_rows_noise)
  have states: "?states =
           (let w1 = Config_call example_config ?W;
                wo = w1\<lparr>shm_files := (shm_files w1)(''f00d'' \<mapsto> [])\<rparr>;
                w3 = wo\<lparr>shm_files := (shm_files wo)(''f00d'' \<mapsto> kept_rows (uuid snippet_noise) [row_blur, row_noise])\<rparr>;
                we = copyfile_open (category snippet_noise) w3;
                w4 = copyfile_write ''f00d'' (category snippet_noise) we;
                w5 = unlink_content (category snippet_noise, uuid snippet_noise) w4;
                w6 = unlink_shm ''f00d'' w5
            in [?W, w1, w1, wo] @ rewrite_states (uuid snippet_noise) ''f00d'' [row_blur, row_noise] wo
                 @ [we, w4, w5, w6, forget snippet_noise w6])"
    by (rule delete_states_ok [where bytes = "Gzip ''cpio noise''"])
       (simp_all add: catalog_world_facts snippet_noise_facts row_blur_def row_noise_def
          sop_contents_def)
  have len: "5 < length ?states"
    by (simp only: states Let_def sixth_state(2) [OF rewrite_states_noise])
  have "?states ! 5 = copyfile_open (category snippet_noise)
          (Config_call example_config ?W
             \<lparr>shm_files := (shm_files (Config_call example_config ?W))(''f00d'' \<mapsto> []),
              shm_files := (shm_files (Config_call example_config ?W
                   \<lparr>shm_files := (shm_files (Config_call example_config ?W))(''f00d'' \<mapsto> [])\<rparr>))
                 (''f00d'' \<mapsto> kept_rows (uuid snippet_noise) [row_blur, row_noise])\<rparr>)"
    by (simp only: states Let_def sixth_state(1) [OF rewrite_states_noise])
  then have emptied: "index_files (?states ! 5) ''Sop'' = Some []"
    by (simp add: copyfile_open_def snippet_noise_facts)
  from idx ok new len emptied show ?thesis
    by simp
qed

text \<open>
  C5. The claim does not hold of the code, which goes against its own description here:
  \<open>Broadcast.all\<close> is documented as attempting every available channel, and
  \<open>Broadcast.status_msg\<close> passes over a missing \<open>hou\<close> module in silence, but
  \<open>Broadcast.notify_send\<close> runs \<open>notify-send\<close> with \<open>check=True\<close> and nothing
  catches the exception. Listing the category Python, which has no snippets, outside
  Houdini: the workflow returns when \<open>notify-send\<close> exits with status 0; when the
  command is missing (status 127) the message is printed on the standard output and the
  workflow ends in \<open>CalledProcessError\<close>.
\<close>

theorem notify_failure_aborts_list_fetch:
  "\<not> hou_present quiet_env \<and> \<not> hou_present no_notify_env
   \<and> notify_rc quiet_env (notify_cmd ''low'' ''dialog-information'' CAT_EMPTY) = 0
   \<and> notify_rc no_notify_env (notify_cmd ''low'' ''dialog-information'' CAT_EMPTY) = 127
   \<and> fst (get_snippet quiet_env example_config ''Python'' [] empty_world) = Inr ()
   \<and> fst (get_snippet no_notify_env example_config ''Python'' [] empty_world)
       = Inl CalledProcessError
   \<and> last (stdout (snd (get_snippet no_notify_env example_config ''Python'' [] empty_world)))
       = ''houclip:  No snippets in selected category.''"
proof -
  have none: "index_files empty_world ''Python'' = None"
    by (simp add: empty_world_def)
  have eq: "get_snippet E example_config ''Python'' [] empty_world
           = Broadcast_all E CAT_EMPTY 0 (purge (Config_call example_config empty_world))" for E
    by (rule get_snippet_empty_category [OF rstrip_Python _ Python_valid none]) simp
  have "fst (Broadcast_all quiet_env CAT_EMPTY 0 (purge (Config_call example_config empty_world))) = Inr ()"
    by (rule Broadcast_all_ok) (simp_all add: quiet_env_def)
  moreover have "fst (Broadcast_all no_notify_env CAT_EMPTY 0 (purge (Config_call example_config empty_world)))
      = Inl CalledProcessError"
    by (rule Broadcast_all_fails) (simp_all add: no_notify_env_def)
  moreover have "last (stdout (snd (Broadcast_all no_notify_env CAT_EMPTY 0
      (purge (Config_call example_config empty_world)))))
      = ''houclip:  No snippets in selected category.''"
    by (simp add: Broadcast_all_stdout severity_names_def CAT_EMPTY_def)
  moreover have "\<not> hou_present quiet_env" "\<not> hou_present no_notify_env"
    "notify_rc quiet_env (notify_cmd ''low'' ''dialog-information'' CAT_EMPTY) = 0"
    "notify_rc no_notify_env (notify_cmd ''low'' ''dialog-information'' CAT_EMPTY) = 127"
    by (simp_all add: quiet_env_def no_notify_env_def)
  ultimately show ?thesis
    by (simp only: eq simp_thms)
qed

text \<open>
  C8, amended. When the Delete workflow runs on a valid category whose index file does
  not exist, \<open>Config()\<close> creates the index file, empty, before the workflow looks
  for it; the workflow then reports that the category has no snippets (severity 0)
  and stops: no index file that existed is changed and no content file is removed.
  From \<open>Snippet.purge()\<close> on, on an index that is missing, the workflow reports the
  missing-index message at severity 4 and changes no file.
\<close>

theorem del_snippet_missing_index:
  assumes "strip choice = c" and "c \<in> set (CATEGORIES @ LANGUAGES)" and "index_files w c = None"
  shows "del_snippet E cfg choice selected hex w
           = Broadcast_all E CAT_EMPTY 0 (purge (Config_call cfg w))
         \<and> index_files (snd (del_snippet E cfg choice selected hex w)) c = Some []
         \<and> (\<forall>c' rows. index_files w c' = Some rows \<longrightarrow>
               index_files (snd (del_snippet E cfg choice selected hex w)) c' = Some rows)
         \<and> content_files (snd (del_snippet E cfg choice selected hex w)) = content_files w
         \<and> del_snippet_listed E cfg c selected hex w = Broadcast_all E CSV_MISSING 4 (purge w)
         \<and> index_files (snd (del_snippet_listed E cfg c selected hex w)) = index_files w
         \<and> content_files (snd (del_snippet_listed E cfg c selected hex w)) = content_files w"
  using assms
  by (simp add: del_snippet_created_index [OF assms] del_snippet_listed_missing [OF assms(3)]
        Broadcast_all_fields purge_fields Config_call_fields Config_call_index)

theorem del_snippet_missing_index_witness:
  "strip ''Sop'' = ''Sop'' \<and> ''Sop'' \<in> set (CATEGORIES @ LANGUAGES)
   \<and> index_files lost_index_world ''Sop'' = None
   \<and> del_snippet quiet_env example_config ''Sop'' [] ''f00d'' lost_index_world
       = Broadcast_all quiet_env CAT_EMPTY 0 (purge (Config_call example_config lost_index_world))
   \<and> index_files (snd (del_snippet quiet_env example_config ''Sop'' [] ''f00d'' lost_index_world))
        ''Sop'' = Some []
   \<and> content_files (snd (del_snippet quiet_env example_config ''Sop'' [] ''f00d'' lost_index_world))
       = sop_contents"
proof -
  note run = del_snippet_missing_index [OF strip_Sop Sop_valid lost_index_world_facts(1),
      of quiet_env example_config "[]" "''f00d''"]
  have "content_files (snd (del_snippet quiet_env example_config ''Sop'' [] ''f00d''
      lost_index_world)) = content_files lost_index_world"
    by (rule run [THEN conjunct2, THEN conjunct2, THEN conjunct2, THEN conjunct1])
  then have "content_files (snd (del_snippet quiet_env example_config ''Sop'' [] ''f00d''
      lost_index_world)) = sop_contents"
    by (simp only: lost_index_world_facts(2))
  with run strip_Sop Sop_valid lost_index_world_facts(1) show ?thesis
    by blast
qed

text \<open>
  C8 as stated fails: after the Delete workflow on Sop in a repository without index
  files, the index of Sop exists, the workflow has returned, and the last line printed
  is the one for a category without snippets.
\<close>

theorem del_snippet_creates_missing_index:
  "index_files lost_index_world ''Sop'' = None
   \<and> fst (del_snippet quiet_env example_config ''Sop'' [] ''f00d'' lost_index_world) = Inr ()
   \<and> index_files (snd (del_snippet quiet_env example_config ''Sop'' [] ''f00d'' lost_index_world))
        ''Sop'' = Some []
   \<and> last (stdout (snd (del_snippet quiet_env example_config ''Sop'' [] ''f00d'' lost_index_world)))
       = ''houclip:  No snippets in selected category.''"
proof -
  let ?W = "purge (Config_call example_config lost_index_world)"
  have run: "del_snippet quiet_env example_config ''Sop'' [] ''f00d'' lost_index_world
               = Broadcast_all quiet_env CAT_EMPTY 0 ?W"
    by (rule del_snippet_created_index [OF strip_Sop Sop_valid lost_index_world_facts(1)])
  have "fst (Broadcast_all quiet_env CAT_EMPTY 0 ?W) = Inr ()"
    by (rule Broadcast_all_ok) (simp_all add: quiet_env_def)
  moreover have "index_files (snd (Broadcast_all quiet_env CAT_EMPTY 0 ?W)) ''Sop'' = Some []"
    using Sop_valid by (simp add: Broadcast_all_fields purge_fields Config_call_index lost_index_world_facts)
  moreover have "last (stdout (snd (Broadcast_all quiet_env CAT_EMPTY 0 ?W)))
      = ''houclip:  No snippets in selected category.''"
    by (simp add: Broadcast_all_stdout severity_names_def CAT_EMPTY_def)
  ultimately show ?thesis
    by (simp only: run lost_index_world_facts simp_thms)
qed

text \<open>
  C6. In Houdini, with a selection whose first node is of category Sop and the host
  leaving its copy in \<open>SOP_copy.cpio\<close>, creating a snippet with the description
  \<open>blur setup\<close> and the tags \<open>util, blur\<close> appends exactly the row
  \<open>[blur setup, blur,util, Sop, SOP, id]\<close> to the index of Sop (the tags stripped,
  sorted and joined by commas) and creates the content file of the identifier in Sop
  as the gzip stream of the host's bytes; the workflow returns when the notification
  succeeds.
\<close>

theorem add_op_snippet_scenario_A:
  assumes "hou_present E" and "first_node_category selection = Some ''Sop''"
  shows "index_files
           (snd (add_op_snippet E cfg selection (Some (''SOP_copy.cpio'', payload))
                   ''blur setup'' ''util, blur'' hex w)) ''Sop''
           = Some ((case index_files w ''Sop'' of None \<Rightarrow> [] | Some rows \<Rightarrow> rows)
                     @ [[''blur setup'', ''blur,util'', ''Sop'', ''SOP'', hex]])
         \<and> content_files
             (snd (add_op_snippet E cfg selection (Some (''SOP_copy.cpio'', payload))
                     ''blur setup'' ''util, blur'' hex w)) (''Sop'', hex)
             = Some (Gzip payload)
         \<and> ((\<forall>cmd. notify_rc E cmd = 0) \<longrightarrow>
               fst (add_op_snippet E cfg selection (Some (''SOP_copy.cpio'', payload))
                      ''blur setup'' ''util, blur'' hex w) = Inr ())"
proof -
  have name: "cpio_name ''SOP'' = ''SOP_copy.cpio''"
    by (simp add: cpio_name_def)
  have d: "''blur setup'' \<noteq> []"
    by simp
  have cr: "carriage_return \<notin> set ''blur setup''"
    "carriage_return \<notin> set (join '','' (set_tags ''util, blur''))"
    by (simp_all add: carriage_return_def set_tags_util_blur)
  note stored = add_op_snippet_stored(1) [OF assms Sop_structural PREFIXES_table(12) d cr,
      where cfg = cfg and payload = payload and hex = hex and w = w]
    add_op_snippet_stored(2,3) [OF assms Sop_structural PREFIXES_table(12) d,
      where cfg = cfg and payload = payload and t = "''util, blur''" and hex = hex and w = w]
  from stored show ?thesis
    by (simp add: name set_tags_util_blur)
qed

theorem add_op_snippet_scenario_A_witness:
  "hou_present houdini_env
   \<and> first_node_category [Other_item, Node ''Sop''] = Some ''Sop''
   \<and> index_files
        (snd (add_op_snippet houdini_env example_config [Other_item, Node ''Sop'']
                (Some (''SOP_copy.cpio'', ''cpio blur'')) ''blur setup'' ''util, blur'' ''0a1b''
                (sop_world [row_noise]))) ''Sop''
       = Some [row_noise, row_blur]
   \<and> content_files
        (snd (add_op_snippet houdini_env example_config [Other_item, Node ''Sop'']
                (Some (''SOP_copy.cpio'', ''cpio blur'')) ''blur setup'' ''util, blur'' ''0a1b''
                (sop_world [row_noise]))) (''Sop'', ''0a1b'')
       = Some (Gzip ''cpio blur'')
   \<and> fst (add_op_snippet houdini_env example_config [Other_item, Node ''Sop'']
            (Some (''SOP_copy.cpio'', ''cpio blur'')) ''blur setup'' ''util, blur'' ''0a1b''
            (sop_world [row_noise])) = Inr ()"
proof -
  have hou: "hou_present houdini_env"
    by (simp add: houdini_env_def)
  have sel: "first_node_category [Other_item, Node ''Sop''] = Some ''Sop''"
    by simp
  have quiet: "\<forall>cmd. notify_rc houdini_env cmd = 0"
    by (simp add: houdini_env_def quiet_env_def)
  have idx: "index_files (sop_world [row_noise]) ''Sop'' = Some [row_noise]"
    by (simp add: sop_world_def)
  from add_op_snippet_scenario_A [OF hou sel, of example_config "''cpio blur''" "''0a1b''"
      "sop_world [row_noise]"] hou sel quiet idx
  show ?thesis
    by (simp add: row_blur_def)
qed

text \<open>
  C10. For a snippet of the catalog whose description is no longer than
  \<open>max_desc_len\<close>, has no \<open>|\<close> in it and does not end with whitespace, the part of
  its display line before the first \<open>|\<close>, stripped on the right, is its description
  (whatever follows the line), so the lookup by that text returns a snippet with the
  description. Without these conditions the lookup can return \<open>None\<close>: it does for a
  description with a \<open>|\<close>, for one of 129 characters, and for one ending with a space;
  and the List+Fetch and Delete workflows then call a method of \<open>None\<close> and end in
  \<open>AttributeError\<close>.
\<close>

theorem chosen_line_leads_back:
  "(s \<in> set loaded \<and> length (description s) \<le> max_desc_len cfg
      \<and> CHR ''|'' \<notin> set (description s)
      \<and> (description s = [] \<or> \<not> py_whitespace (last (description s)))
     \<longrightarrow> chosen_description (str_snippet cfg s @ rest) = description s
         \<and> (\<exists>s'. get_by_description loaded (chosen_description (str_snippet cfg s @ rest)) = Some s'
                \<and> description s' = description s))
   \<and> get_by_description [pipe_snippet]
        (chosen_description (str_snippet example_config pipe_snippet)) = None
   \<and> get_by_description [long_snippet]
        (chosen_description (str_snippet example_config long_snippet)) = None
   \<and> get_by_description [padded_snippet]
        (chosen_description (str_snippet example_config padded_snippet)) = None
   \<and> fst (get_snippet quiet_env example_config ''Sop'' (str_snippet example_config pipe_snippet)
            (sop_world [row_pipe])) = Inl AttributeError
   \<and> fst (del_snippet quiet_env example_config ''Sop'' (str_snippet example_config pipe_snippet)
            ''f00d'' (sop_world [row_pipe])) = Inl AttributeError"
proof -
  have "chosen_description (str_snippet cfg s @ rest) = description s
         \<and> (\<exists>s'. get_by_description loaded (chosen_description (str_snippet cfg s @ rest)) = Some s'
                \<and> description s' = description s)"
    if "s \<in> set loaded" "length (description s) \<le> max_desc_len cfg"
      "CHR ''|'' \<notin> set (description s)"
      "description s = [] \<or> \<not> py_whitespace (last (description s))"
    using chosen_description_str [OF that(2-4), of rest] get_by_description_found [OF that(1)]
    by simp
  then show ?thesis
    using pipe_lookup long_lookup padded_lookup pipe_workflows(1) [of quiet_env]
      pipe_workflows(2) [of quiet_env "''f00d''"]
    by blast
qed

theorem chosen_line_leads_back_witness:
  "snippet_blur \<in> set [snippet_blur, snippet_noise]
   \<and> length (description snippet_blur) \<le> max_desc_len example_config
   \<and> CHR ''|'' \<notin> set (description snippet_blur)
   \<and> \<not> py_whitespace (last (description snippet_blur))
   \<and> chosen_description (str_snippet example_config snippet_blur @ [CHR 0x0A]) = ''blur setup''
   \<and> get_by_description [snippet_blur, snippet_noise]
        (chosen_description (str_snippet example_config snippet_blur @ [CHR 0x0A]))
       = Some snippet_blur"
proof -
  have pre: "snippet_blur \<in> set [snippet_blur, snippet_noise]"
    "length (description snippet_blur) \<le> max_desc_len example_config"
    "CHR ''|'' \<notin> set (description snippet_blur)"
    "\<not> py_whitespace (last (description snippet_blur))"
    by (simp_all add: snippet_blur_def example_config_def py_whitespace_def)
  from chosen_line_leads_back [of snippet_blur "[snippet_blur, snippet_noise]" example_config
      "[CHR 0x0A]"] pre
  have "chosen_description (str_snippet example_config snippet_blur @ [CHR 0x0A])
          = description snippet_blur"
    by blast
  then have chosen: "chosen_description (str_snippet example_config snippet_blur @ [CHR 0x0A])
          = ''blur setup''"
    by (simp add: snippet_blur_def)
  have "get_by_description [snippet_blur, snippet_noise] ''blur setup'' = Some snippet_blur"
    by (simp add: snippet_blur_def)
  with pre chosen show ?thesis
    by simp
qed

text \<open>
  C3, amended. Take a description that is not empty, is no longer than
  \<open>max_desc_len\<close>, has no \<open>|\<close> and does not end with whitespace, tags and a
  description without a carriage return, and an index of the category whose rows load
  and have other descriptions. A snippet created with that description by the Create
  workflow, structural (the host's bytes stored as a gzip stream) or textual (the
  clipboard text stored verbatim), and then fetched by List+Fetch through its display
  line, while the index and the content file are as Create left them, comes back as
  stored: the host's bytes in the host's temporary file, when the directory
  \<open>$HOUDINI_TEMP\<close> exists at the fetch, and the text in the clipboard, when
  \<open>xclip\<close> succeeds. The fetch returns when the notification succeeds.
\<close>

theorem create_then_fetch_round_trip:
  "(hou_present E \<and> first_node_category selection = Some c \<and> c \<in> set CATEGORIES
      \<and> PREFIXES_get c = Some (Some p)
      \<and> d \<noteq> [] \<and> length d \<le> max_desc_len cfg \<and> CHR ''|'' \<notin> set d \<and> \<not> py_whitespace (last d)
      \<and> (\<forall>r\<in>set (case index_files w c of None \<Rightarrow> [] | Some rows \<Rightarrow> rows).
            loads pick_by_row r \<and> r ! 0 \<noteq> d)
      \<and> w1 = snd (add_op_snippet E cfg selection (Some (cpio_name p, payload)) d t hex w)
      \<and> index_files w2 c = index_files w1 c
      \<and> content_files w2 (c, hex) = content_files w1 (c, hex)
      \<and> rstrip choice = c \<and> description s = d
      \<and> carriage_return \<notin> set d \<and> carriage_return \<notin> set t \<and> houdini_temp_dir w2
     \<longrightarrow> houdini_temp (snd (get_snippet E' cfg choice (str_snippet cfg s @ rest) w2)) (cpio_name p)
           = Some payload
         \<and> ((\<forall>cmd. notify_rc E' cmd = 0) \<longrightarrow>
               fst (get_snippet E' cfg choice (str_snippet cfg s @ rest) w2) = Inr ()))
   \<and> (l \<in> set LANGUAGES \<and> rstrip language_choice = l
      \<and> d \<noteq> [] \<and> length d \<le> max_desc_len cfg \<and> CHR ''|'' \<notin> set d \<and> \<not> py_whitespace (last d)
      \<and> (\<forall>r\<in>set (case index_files w l of None \<Rightarrow> [] | Some rows \<Rightarrow> rows).
            loads pick_by_row r \<and> r ! 0 \<noteq> d)
      \<and> v1 = snd (add_code_snippet E cfg language_choice d t hex code w)
      \<and> index_files v2 l = index_files v1 l
      \<and> content_files v2 (l, hex) = content_files v1 (l, hex)
      \<and> rstrip choice' = l \<and> description s = d \<and> xclip_rc E' (l, hex) = 0
      \<and> carriage_return \<notin> set d \<and> carriage_return \<notin> set t
     \<longrightarrow> clipboard (snd (get_snippet E' cfg choice' (str_snippet cfg s @ rest) v2))
           = Some (Verbatim code)
         \<and> ((\<forall>cmd. notify_rc E' cmd = 0) \<longrightarrow>
               fst (get_snippet E' cfg choice' (str_snippet cfg s @ rest) v2) = Inr ()))"
proof (intro conjI impI; (elim conjE)?)
  assume "hou_present E" "first_node_category selection = Some c" "c \<in> set CATEGORIES"
    "PREFIXES_get c = Some (Some p)" "d \<noteq> []" "length d \<le> max_desc_len cfg"
    "CHR ''|'' \<notin> set d" "\<not> py_whitespace (last d)"
    "\<forall>r\<in>set (case index_files w c of None \<Rightarrow> [] | Some rows \<Rightarrow> rows).
        loads pick_by_row r \<and> r ! 0 \<noteq> d"
    "w1 = snd (add_op_snippet E cfg selection (Some (cpio_name p, payload)) d t hex w)"
    "index_files w2 c = index_files w1 c" "content_files w2 (c, hex) = content_files w1 (c, hex)"
    "rstrip choice = c" "description s = d"
    "carriage_return \<notin> set d" "carriage_return \<notin> set t" "houdini_temp_dir w2"
  note op = op_round_trip [OF this, of E' rest]
  show "houdini_temp (snd (get_snippet E' cfg choice (str_snippet cfg s @ rest) w2)) (cpio_name p)
           = Some payload"
    by (rule op(1))
  show "fst (get_snippet E' cfg choice (str_snippet cfg s @ rest) w2) = Inr ()"
    if "\<forall>cmd. notify_rc E' cmd = 0"
    using op(2) that by blast
next
  assume "l \<in> set LANGUAGES" "rstrip language_choice = l" "d \<noteq> []" "length d \<le> max_desc_len cfg"
    "CHR ''|'' \<notin> set d" "\<not> py_whitespace (last d)"
    "\<forall>r\<in>set (case index_files w l of None \<Rightarrow> [] | Some rows \<Rightarrow> rows).
        loads pick_by_row r \<and> r ! 0 \<noteq> d"
    "v1 = snd (add_code_snippet E cfg language_choice d t hex code w)"
    "index_files v2 l = index_files v1 l" "content_files v2 (l, hex) = content_files v1 (l, hex)"
    "rstrip choice' = l" "description s = d" "xclip_rc E' (l, hex) = 0"
    "carriage_return \<notin> set d" "carriage_return \<notin> set t"
  note code = code_round_trip [OF this, of rest]
  show "clipboard (snd (get_snippet E' cfg choice' (str_snippet cfg s @ rest) v2))
           = Some (Verbatim code)"
    by (rule code(1))
  show "fst (get_snippet E' cfg choice' (str_snippet cfg s @ rest) v2) = Inr ()"
    if "\<forall>cmd. notify_rc E' cmd = 0"
    using code(2) that by blast
qed

theorem create_then_fetch_round_trip_witness:
  "hou_present houdini_env \<and> first_node_category [Node ''Sop''] = Some ''Sop''
   \<and> ''Sop'' \<in> set CATEGORIES \<and> PREFIXES_get ''Sop'' = Some (Some ''SOP'')
   \<and> length ''blur setup'' \<le> max_desc_len example_config
   \<and> CHR ''|'' \<notin> set ''blur setup'' \<and> \<not> py_whitespace (last ''blur setup'')
   \<and> index_files (sop_world [row_noise]) ''Sop'' = Some [row_noise]
   \<and> loads pick_by_row row_noise \<and> row_noise ! 0 \<noteq> ''blur setup''
   \<and> rstrip ''Sop'' = ''Sop'' \<and> description snippet_blur = ''blur setup''
   \<and> carriage_return \<notin> set ''blur setup'' \<and> carriage_return \<notin> set ''util, blur''
   \<and> carriage_return \<notin> set ''hello'' \<and> carriage_return \<notin> set ''demo''
   \<and> houdini_temp_dir (created_world\<lparr>houdini_temp := Map.empty\<rparr>)
   \<and> houdini_temp
        (snd (get_snippet houdini_env example_config ''Sop''
                (str_snippet example_config snippet_blur @ [CHR 0x0A])
                (created_world\<lparr>houdini_temp := Map.empty\<rparr>))) ''SOP_copy.cpio''
       = Some ''cpio blur''
   \<and> fst (get_snippet houdini_env example_config ''Sop''
            (str_snippet example_config snippet_blur @ [CHR 0x0A])
            (created_world\<lparr>houdini_temp := Map.empty\<rparr>)) = Inr ()
   \<and> ''Python'' \<in> set LANGUAGES \<and> rstrip ''Python'' = ''Python''
   \<and> index_files empty_world ''Python'' = None
   \<and> description hello_snippet = ''hello'' \<and> xclip_rc quiet_env (''Python'', ''0b2c'') = 0
   \<and> clipboard
        (snd (get_snippet quiet_env example_config ''Python''
                (str_snippet example_config hello_snippet @ [CHR 0x0A]) hello_world))
       = Some (Verbatim ''print(1)'')"
proof -
  have pre: "length ''blur setup'' \<le> max_desc_len example_config"
    "CHR ''|'' \<notin> set ''blur setup''" "\<not> py_whitespace (last ''blur setup'')"
    "length ''hello'' \<le> max_desc_len example_config"
    "CHR ''|'' \<notin> set ''hello''" "\<not> py_whitespace (last ''hello'')"
    "first_node_category [Node ''Sop''] = Some ''Sop''"
    "description snippet_blur = ''blur setup''" "description hello_snippet = ''hello''"
    by (simp_all add: example_preconditions py_whitespace_def snippet_blur_def hello_snippet_def)
  have idx: "index_files (sop_world [row_noise]) ''Sop'' = Some [row_noise]"
    "index_files empty_world ''Python'' = None"
    by (simp_all add: sop_world_def empty_world_def)
  have old: "\<forall>r\<in>set (case index_files (sop_world [row_noise]) ''Sop'' of
                         None \<Rightarrow> [] | Some rows \<Rightarrow> rows).
               loads pick_by_row r \<and> r ! 0 \<noteq> ''blur setup''"
    "\<forall>r\<in>set (case index_files empty_world ''Python'' of None \<Rightarrow> [] | Some rows \<Rightarrow> rows).
        loads pick_by_row r \<and> r ! 0 \<noteq> ''hello''"
    by (simp_all add: idx row_noise_loads)
  have created: "created_world
      = snd (add_op_snippet houdini_env example_config [Node ''Sop'']
               (Some (cpio_name ''SOP'', ''cpio blur'')) ''blur setup'' ''util, blur'' ''0a1b''
               (sop_world [row_noise]))"
    by (simp only: created_world_def example_preconditions)
  have cr: "carriage_return \<notin> set ''blur setup''" "carriage_return \<notin> set ''util, blur''"
    "carriage_return \<notin> set ''hello''" "carriage_return \<notin> set ''demo''"
    by (simp_all add: carriage_return_def)
  have dir0: "houdini_temp_dir created_world"
    unfolding created
    by (rule add_op_snippet_stored(4) [OF example_preconditions(1) pre(7) Sop_structural
          PREFIXES_table(12)]) simp
  from dir0 have dir: "houdini_temp_dir (created_world\<lparr>houdini_temp := Map.empty\<rparr>)"
    by simp
  have structural: "houdini_temp
        (snd (get_snippet houdini_env example_config ''Sop''
                (str_snippet example_config snippet_blur @ [CHR 0x0A])
                (created_world\<lparr>houdini_temp := Map.empty\<rparr>))) (cpio_name ''SOP'')
       = Some ''cpio blur''
     \<and> ((\<forall>cmd. notify_rc houdini_env cmd = 0) \<longrightarrow>
          fst (get_snippet houdini_env example_config ''Sop''
                (str_snippet example_config snippet_blur @ [CHR 0x0A])
                (created_world\<lparr>houdini_temp := Map.empty\<rparr>)) = Inr ())"
    by (rule create_then_fetch_round_trip [THEN conjunct1, rule_format,
          where E = houdini_env and selection = "[Node ''Sop'']" and c = "''Sop''"
            and d = "''blur setup''" and w = "sop_world [row_noise]" and ?w1.0 = created_world
            and t = "''util, blur''" and hex = "''0a1b''"])
       (simp add: example_preconditions py_whitespace_def pre(7,8) Sop_structural PREFIXES_table
          old created rstrip_Sop carriage_return_def dir0 [unfolded created example_preconditions(5)])
  have textual: "clipboard
        (snd (get_snippet quiet_env example_config ''Python''
                (str_snippet example_config hello_snippet @ [CHR 0x0A]) hello_world))
       = Some (Verbatim ''print(1)'')
     \<and> ((\<forall>cmd. notify_rc quiet_env cmd = 0) \<longrightarrow>
          fst (get_snippet quiet_env example_config ''Python''
                (str_snippet example_config hello_snippet @ [CHR 0x0A]) hello_world) = Inr ())"
    by (rule create_then_fetch_round_trip [THEN conjunct2, rule_format,
          where E = quiet_env and l = "''Python''" and language_choice = "''Python''"
            and d = "''hello''" and w = empty_world and ?v1.0 = hello_world
            and t = "''demo''" and hex = "''0b2c''"])
       (simp add: example_preconditions py_whitespace_def pre(9) old rstrip_Python hello_world_def
          carriage_return_def)
  from structural textual show ?thesis
    by (simp add: example_preconditions py_whitespace_def pre(7-9) idx row_noise_loads
          Sop_structural PREFIXES_table rstrip_Sop rstrip_Python carriage_return_def dir0)
qed

text \<open>
  C3 as stated fails when the repository already has a snippet with the description:
  the snippet created second is stored with its own bytes, and fetching by its display
  line returns the bytes of the first.
\<close>

theorem fetch_returns_older_snippet:
  "index_files second_blur_world ''Sop'' = Some [row_blur, row_blur_again]
   \<and> content_files second_blur_world (''Sop'', ''0e3f'') = Some (Gzip ''cpio fast blur'')
   \<and> description snippet_blur_again = ''blur setup''
   \<and> fst (get_snippet houdini_env example_config ''Sop''
            (str_snippet example_config snippet_blur_again @ [CHR 0x0A]) second_blur_world)
       = Inr ()
   \<and> houdini_temp
        (snd (get_snippet houdini_env example_config ''Sop''
                (str_snippet example_config snippet_blur_again @ [CHR 0x0A]) second_blur_world))
        ''SOP_copy.cpio''
       = Some ''cpio blur''
   \<and> ''cpio blur'' \<noteq> ''cpio fast blur''"
proof -
  have sel: "first_node_category [Node ''Sop''] = Some ''Sop''"
    by simp
  have d: "''blur setup'' \<noteq> []"
    by simp
  have "carriage_return \<notin> set ''fast''"
    by (simp add: carriage_return_def)
  then have crt: "carriage_return \<notin> set (join '','' (set_tags ''fast''))"
    by (rule set_tags_no_carriage_return)
  have crd: "carriage_return \<notin> set ''blur setup''"
    by (simp add: carriage_return_def)
  note cr = crd crt
  note stored = add_op_snippet_stored(1) [OF example_preconditions(1) sel Sop_structural
      PREFIXES_table(12) d cr, where cfg = example_config and payload = "''cpio fast blur''"
        and hex = "''0e3f''" and w = blur_only_world]
    add_op_snippet_stored(2,3) [OF example_preconditions(1) sel Sop_structural
      PREFIXES_table(12) d, where cfg = example_config and payload = "''cpio fast blur''"
        and t = "''fast''" and hex = "''0e3f''" and w = blur_only_world]
  note exists = add_op_snippet_stored(4) [OF example_preconditions(1) sel Sop_structural
      PREFIXES_table(12) d, where cfg = example_config and payload = "''cpio fast blur''"
        and t = "''fast''" and hex = "''0e3f''" and w = blur_only_world]
  have world: "second_blur_world
      = snd (add_op_snippet houdini_env example_config [Node ''Sop'']
               (Some (cpio_name ''SOP'', ''cpio fast blur'')) ''blur setup'' ''fast'' ''0e3f''
               blur_only_world)"
    by (simp only: second_blur_world_def example_preconditions)
  have tags: "join '','' (set_tags ''fast'') = ''fast''"
    by (simp add: set_tags_def strip_def lstrip_def rstrip_def py_whitespace_def)
  have base: "index_files blur_only_world ''Sop'' = Some [row_blur]"
    "content_files blur_only_world (''Sop'', ''0a1b'') = Some (Gzip ''cpio blur'')"
    by (simp_all add: blur_only_world_def)
  have "index_files second_blur_world ''Sop''
          = Some ((case index_files blur_only_world ''Sop'' of None \<Rightarrow> [] | Some rows \<Rightarrow> rows)
                    @ [[''blur setup'', join '','' (set_tags ''fast''), ''Sop'', ''SOP'', ''0e3f'']])"
    by (simp only: world stored(1) fun_upd_same)
  then have idx: "index_files second_blur_world ''Sop'' = Some [row_blur, row_blur_again]"
    by (simp add: base tags row_blur_again_def)
  have "content_files second_blur_world
          = (content_files blur_only_world)((''Sop'', ''0e3f'') \<mapsto> Gzip ''cpio fast blur'')"
    by (simp only: world stored(2))
  then have new: "content_files second_blur_world (''Sop'', ''0e3f'') = Some (Gzip ''cpio fast blur'')"
    and older: "content_files second_blur_world (''Sop'', ''0a1b'') = Some (Gzip ''cpio blur'')"
    by (simp_all add: base)
  let ?line = "str_snippet example_config snippet_blur_again @ [CHR 0x0A]"
  let ?s = "loaded_from (pick_by_row row_blur) (next_oid second_blur_world) row_blur"
  have "chosen_description ?line = description snippet_blur_again"
    by (rule chosen_description_str)
       (simp_all add: snippet_blur_again_def example_config_def py_whitespace_def)
  then have chosen: "chosen_description ?line = ''blur setup''"
    by (simp add: snippet_blur_again_def)
  have found: "get_by_description
      (loaded_list pick_by_row (next_oid second_blur_world) [row_blur, row_blur_again])
      (chosen_description ?line) = Some ?s"
    unfolding chosen by (simp add: loaded_from_def row_blur_def)
  have s: "cls ?s = OpSnippet" "category ?s = ''Sop''" "uuid ?s = ''0a1b''" "prefix ?s = ''SOP''"
    by (simp_all add: loaded_from_def pick_by_row_def row_blur_def CATEGORIES_cases)
  have loadable: "\<forall>r\<in>set [row_blur, row_blur_again]. loads pick_by_row r"
    by (simp add: row_blur_loads)
  have content: "content_files second_blur_world (category ?s, uuid ?s) = Some (Gzip ''cpio blur'')"
    by (simp only: s older)
  have c: "''Sop'' \<noteq> []"
    by simp
  have dir: "houdini_temp_dir second_blur_world"
    by (simp only: world exists)
  note fetch = get_snippet_fetch_op [OF idx rstrip_Sop c loadable line_nonempty found s(1) content
      dir, of houdini_env]
  from fetch(1) have "houdini_temp (snd (get_snippet houdini_env example_config ''Sop'' ?line
      second_blur_world)) ''SOP_copy.cpio'' = Some ''cpio blur''"
    by (simp only: s example_preconditions)
  moreover from fetch(2) have "fst (get_snippet houdini_env example_config ''Sop'' ?line
      second_blur_world) = Inr ()"
    using example_preconditions(2) by blast
  ultimately show ?thesis
    using idx new by (simp add: snippet_blur_again_def)
qed

end
